(* ===== verification/Prelude.thy ===== *)
theory Prelude
  imports Main "HOL-Library.Word" "HOL-Library.AList"
begin

text \<open>
  Shared vocabulary of the development: Go's integer types as words, Go maps as
  association lists, the outcome of a call that may panic or block, and the generic
  lemmas the components use. Nothing in this theory is specific to the controller.
\<close>

section \<open>Lemma collections\<close>

named_theorems go_simps \<open>evaluation rules for the Go vocabulary (maps, outcomes)\<close>
named_theorems view_simps \<open>what the operations leave unchanged in the observed cluster\<close>

section \<open>Machine integers\<close>

type_synonym int32 = "32 word"
type_synonym int64 = "64 word"

text \<open>Go's conversion \<open>int32(n)\<close> of an \<open>int\<close> keeps the low 32 bits.\<close>

definition to_int32 :: "int \<Rightarrow> int32" where
  "to_int32 n = word_of_int n"

lemma sint32_range: "- (2 ^ 31) \<le> sint (x :: int32) \<and> sint x < 2 ^ 31"
  using sint_greater_eq [of x] sint_less [of x] by simp

lemma sint32_word_of_int:
  assumes "- (2 ^ 31) \<le> n" and "n < 2 ^ 31"
  shows "sint (word_of_int n :: int32) = n"
proof -
  have "sint (word_of_int n :: int32) = signed_take_bit 31 n"
    by (simp add: sint_sbintrunc' del: signed_of_int)
  also have "\<dots> = n"
    using assms by (intro signed_take_bit_int_eq_self) auto
  finally show ?thesis .
qed

lemma sint32_inject: "sint (x :: int32) = sint y \<longleftrightarrow> x = y"
  by (auto dest: arg_cong [where f = "of_int :: int \<Rightarrow> int32"])

lemma word_of_int_sint32: "word_of_int (sint (x :: int32)) = x"
  by simp

lemma sint32_plus:
  assumes "- (2 ^ 31) \<le> sint (x :: int32) + sint y" and "sint x + sint y < 2 ^ 31"
  shows "sint (x + y) = sint x + sint y"
  using sint32_word_of_int [OF assms] by (metis of_int_add word_of_int_sint32)

lemma sint32_minus:
  assumes "- (2 ^ 31) \<le> sint (x :: int32) - sint y" and "sint x - sint y < 2 ^ 31"
  shows "sint (x - y) = sint x - sint y"
  using sint32_word_of_int [OF assms] by (metis of_int_diff word_of_int_sint32)

lemma sint32_of_nat:
  assumes "int n < 2 ^ 31"
  shows "sint (of_nat n :: int32) = int n"
  using sint32_word_of_int [of "int n"] assms by simp

lemma sint32_succ:
  assumes "sint (x :: int32) < 2 ^ 31 - 1"
  shows "sint (x + 1) = sint x + 1"
  using sint32_plus [of x 1] assms sint32_range [of x] by simp

lemma sint32_to_int32:
  assumes "- (2 ^ 31) \<le> n" and "n < 2 ^ 31"
  shows "sint (to_int32 n) = n"
  using sint32_word_of_int [OF assms] by (simp add: to_int32_def)

section \<open>Go maps\<close>

text \<open>
  A Go map is an association list read with \<^const>\<open>map_of\<close> and written with
  \<^const>\<open>AList.update\<close>, so every value is finite and computable; a map built by the
  code from the empty one has distinct keys (\<open>gm_wf\<close>), and then \<open>length\<close> is Go's
  \<open>len\<close>. Where the code tells a nil map from an empty one the model uses \<open>option\<close>.
\<close>

type_synonym ('k, 'v) gomap = "('k \<times> 'v) list"

definition gm_wf :: "('k, 'v) gomap \<Rightarrow> bool" where
  "gm_wf m \<longleftrightarrow> distinct (map fst m)"

text \<open>\<open>m[k]\<close> with the zero value of the element type for a missing key.\<close>

definition gm_get :: "'v \<Rightarrow> ('k, 'v) gomap \<Rightarrow> 'k \<Rightarrow> 'v" where
  "gm_get zero m k = (case map_of m k of None \<Rightarrow> zero | Some v \<Rightarrow> v)"

abbreviation gm_put :: "'k \<Rightarrow> 'v \<Rightarrow> ('k, 'v) gomap \<Rightarrow> ('k, 'v) gomap" where
  "gm_put k v m \<equiv> AList.update k v m"

lemma gm_wf_Nil [go_simps]: "gm_wf []"
  by (simp add: gm_wf_def)

lemma gm_wf_put [go_simps]: "gm_wf m \<Longrightarrow> gm_wf (gm_put k v m)"
  by (simp add: gm_wf_def distinct_update)

lemma gm_get_Nil [go_simps]: "gm_get z [] k = z"
  by (simp add: gm_get_def)

lemma gm_get_put [go_simps]: "gm_get z (gm_put k v m) j = (if j = k then v else gm_get z m j)"
  by (simp add: gm_get_def update_conv)

lemma map_of_put [go_simps]: "map_of (gm_put k v m) j = (if j = k then Some v else map_of m j)"
  by (simp add: update_conv)

text \<open>The counting idiom \<open>m[k]++\<close>, and the sum of all the counters of a map.\<close>

definition gm_incr :: "'k \<Rightarrow> ('k, nat) gomap \<Rightarrow> ('k, nat) gomap" where
  "gm_incr k m = gm_put k (Suc (gm_get 0 m k)) m"

lemma gm_get_incr [go_simps]:
  "gm_get 0 (gm_incr k m) j = (if j = k then Suc (gm_get 0 m k) else gm_get 0 m j)"
  by (simp add: gm_incr_def go_simps)

lemma gm_wf_incr [go_simps]: "gm_wf m \<Longrightarrow> gm_wf (gm_incr k m)"
  by (simp add: gm_incr_def go_simps)

lemma sum_list_put:
  assumes "gm_wf m"
  shows "sum_list (map snd (gm_put k (n + gm_get 0 m k) m)) = (n::nat) + sum_list (map snd m)"
  using assms by (induction m) (auto simp: gm_wf_def gm_get_def)

lemma sum_list_incr: "gm_wf m \<Longrightarrow> sum_list (map snd (gm_incr k m)) = Suc (sum_list (map snd m))"
  using sum_list_put [of m k 1] by (simp add: gm_incr_def)

section \<open>Outcomes of a call\<close>

text \<open>
  A Go call returns, panics, or waits for a mutex somebody else holds. Each outcome
  carries the state it leaves behind: a panic recovered by the framework keeps the
  effects made before it.
\<close>

datatype ('r, 'c) go = Returns 'r 'c | Panics 'c | Blocks 'c

section \<open>Lists\<close>

lemma filter_take_nth_prefix: "take n (filter P xs) = ys \<Longrightarrow> set ys \<subseteq> {x \<in> set xs. P x}"
  using set_take_subset by fastforce

lemma distinct_concat_map_filter:
  "distinct (concat (map f xs)) \<Longrightarrow> distinct (concat (map f (filter P xs)))"
  by (induction xs) auto

lemma card_le_length_filter_compl:
  assumes "finite A" and "distinct xs"
  shows "length xs - card A \<le> length (filter (\<lambda>x. x \<notin> A) xs)"
proof -
  have "length xs = length (filter (\<lambda>x. x \<in> A) xs) + length (filter (\<lambda>x. x \<notin> A) xs)"
    using sum_length_filter_compl [of "\<lambda>x. x \<in> A" xs] by simp
  moreover have "length (filter (\<lambda>x. x \<in> A) xs) = card {x \<in> set xs. x \<in> A}"
    using assms(2) distinct_card [of "filter (\<lambda>x. x \<in> A) xs"] by simp
  moreover have "card {x \<in> set xs. x \<in> A} \<le> card A"
    using assms(1) by (intro card_mono) auto
  ultimately show ?thesis by linarith
qed

end
