(* ===== verification/ApiTypes.thy ===== *)
theory ApiTypes
  imports Prelude
begin

text \<open>
  The data of the API group (api/v1/network_pool_types.go and
  api/v1/port_allocation_types.go): every struct as a record with the source's fields,
  every typed string as \<^typ>\<open>string\<close> with its named constants, \<open>int32\<close> fields as 32-bit
  words, pointers that may be nil as \<open>option\<close>. Instants are integers.
\<close>

section \<open>Kubernetes metadata used by the code\<close>

type_synonym time = int

record type_meta =
  tm_Kind :: string
  tm_APIVersion :: string

record object_meta =
  om_Name :: string
  om_GenerateName :: string
  om_Namespace :: string
  om_UID :: string
  om_ResourceVersion :: string
  om_Generation :: int
  om_CreationTimestamp :: time
  om_DeletionTimestamp :: "time option"
  om_Labels :: "(string, string) gomap"
  om_Annotations :: "(string, string) gomap option"
  om_OwnerReferences :: "string list"
  om_Finalizers :: "string list"
  om_ManagedFields :: "string list"

definition zero_type_meta :: type_meta where
  "zero_type_meta = \<lparr>tm_Kind = '''', tm_APIVersion = ''''\<rparr>"

definition zero_object_meta :: object_meta where
  "zero_object_meta =
     \<lparr>om_Name = '''', om_GenerateName = '''', om_Namespace = '''', om_UID = '''',
      om_ResourceVersion = '''', om_Generation = 0, om_CreationTimestamp = 0,
      om_DeletionTimestamp = None, om_Labels = [], om_Annotations = None,
      om_OwnerReferences = [], om_Finalizers = [], om_ManagedFields = []\<rparr>"

text \<open>The label lookup \<open>obj.Labels[k]\<close>: the empty string for a missing key.\<close>

definition label_of :: "object_meta \<Rightarrow> string \<Rightarrow> string" where
  "label_of m k = gm_get '''' (om_Labels m) k"

record namespaced_name =
  nn_Namespace :: string
  nn_Name :: string

definition meta_key :: "object_meta \<Rightarrow> namespaced_name" where
  "meta_key m = \<lparr>nn_Namespace = om_Namespace m, nn_Name = om_Name m\<rparr>"

record label_selector =
  ls_MatchLabels :: "(string, string) gomap"
  ls_MatchExpressions :: "(string \<times> string \<times> string list) list"

section \<open>Typed strings and their constants\<close>

type_synonym ISPLineType = string
type_synonym Protocol = string
type_synonym BindingType = string
type_synonym AllocationPhase = string

definition ISPLineTypeTelecom :: ISPLineType where "ISPLineTypeTelecom = ''telecom''"
definition ISPLineTypeUnicom :: ISPLineType where "ISPLineTypeUnicom = ''unicom''"
definition ISPLineTypeMobile :: ISPLineType where "ISPLineTypeMobile = ''mobile''"
definition ISPLineTypeBGP :: ISPLineType where "ISPLineTypeBGP = ''bgp''"

definition ProtocolTCP :: Protocol where "ProtocolTCP = ''TCP''"
definition ProtocolUDP :: Protocol where "ProtocolUDP = ''UDP''"
definition ProtocolTCPUDP :: Protocol where "ProtocolTCPUDP = ''TCP/UDP''"

definition BindingTypeVolcengineCLB :: BindingType where
  "BindingTypeVolcengineCLB = ''volcengine-clb''"
definition BindingTypeAWSALB :: BindingType where "BindingTypeAWSALB = ''aws-alb''"
definition BindingTypeAzureLB :: BindingType where "BindingTypeAzureLB = ''azure-lb''"

definition AllocationPhasePending :: AllocationPhase where "AllocationPhasePending = ''Pending''"
definition AllocationPhaseBinding :: AllocationPhase where "AllocationPhaseBinding = ''Binding''"
definition AllocationPhaseBound :: AllocationPhase where "AllocationPhaseBound = ''Bound''"
definition AllocationPhaseFailed :: AllocationPhase where "AllocationPhaseFailed = ''Failed''"
definition AllocationPhaseUnbinding :: AllocationPhase where
  "AllocationPhaseUnbinding = ''Unbinding''"
definition AllocationPhasePortConflict :: AllocationPhase where
  "AllocationPhasePortConflict = ''PortConflict''"

lemmas phase_defs =
  AllocationPhasePending_def AllocationPhaseBinding_def AllocationPhaseBound_def
  AllocationPhaseFailed_def AllocationPhaseUnbinding_def AllocationPhasePortConflict_def

definition GetDefaultBindingType :: BindingType where
  "GetDefaultBindingType = BindingTypeVolcengineCLB"

section \<open>Network pools\<close>

record LoadBalancerRef =
  lb_ID :: string
  lb_Region :: string
  lb_ResourceGroup :: string
  lb_Provider :: string

record PortRange =
  pr_Min :: int32
  pr_Max :: int32
  pr_ExcludedPorts :: "int32 list"

record PrewarmConfig =
  pw_Enabled :: bool
  pw_BufferSize :: int32

record ApolloNetworkPoolSpec =
  ps_LoadBalancers :: "LoadBalancerRef list"
  ps_ISPLineType :: ISPLineType
  ps_PortRange :: PortRange
  ps_PrewarmConfig :: PrewarmConfig
  ps_PodSelector :: "label_selector option"

record PodPortAllocation =
  pp_PodPort :: int32
  pp_LBPort :: int32
  pp_Protocol :: Protocol
  pp_PortName :: string

section \<open>Port allocations\<close>

record PodInfo =
  pi_Name :: string
  pi_Namespace :: string
  pi_UID :: string
  pi_PodIP :: string

record BindingConfig =
  bc_TargetWeight :: int32
  bc_SessionAffinity :: string

record PortBinding =
  pb_PodPort :: int32
  pb_LBPort :: int32
  pb_Protocol :: Protocol
  pb_PortName :: string
  pb_BindingType :: BindingType
  pb_LoadBalancerRef :: LoadBalancerRef
  pb_BindingConfig :: "BindingConfig option"

record BindingStatus =
  bs_PodPort :: int32
  bs_LBPort :: int32
  bs_Phase :: AllocationPhase
  bs_Message :: string
  bs_LastProbeTime :: "time option"
  bs_BoundAt :: "time option"
  bs_LoadBalancerConfig :: "(string, string) gomap"

record PortAllocationSpec =
  as_PodInfo :: PodInfo
  as_PortBindings :: "PortBinding list"

record condition =
  cd_Type :: string
  cd_Status :: string
  cd_ObservedGeneration :: int64
  cd_LastTransitionTime :: time
  cd_Reason :: string
  cd_Message :: string

record PortAllocationStatus =
  st_Phase :: AllocationPhase
  st_BindingStatuses :: "BindingStatus list"
  st_AllocatedAt :: "time option"
  st_BoundAt :: "time option"
  st_LastUpdated :: "time option"
  st_Conditions :: "condition list"
  st_Message :: string
  st_ObservedGeneration :: int64

record PortAllocation =
  pa_TypeMeta :: type_meta
  pa_ObjectMeta :: object_meta
  pa_Spec :: PortAllocationSpec
  pa_Status :: PortAllocationStatus

text \<open>The list metadata is never read by the code; a list is its items.\<close>

record PortAllocationList =
  al_Items :: "PortAllocation list"

text \<open>\<open>Spec.PortBindings\<close>, \<open>Labels[k]\<close> and the pod of an allocation, as the code reads them.\<close>

abbreviation bindings :: "PortAllocation \<Rightarrow> PortBinding list" where
  "bindings a \<equiv> as_PortBindings (pa_Spec a)"

abbreviation pod_info :: "PortAllocation \<Rightarrow> PodInfo" where
  "pod_info a \<equiv> as_PodInfo (pa_Spec a)"

abbreviation alloc_label :: "PortAllocation \<Rightarrow> string \<Rightarrow> string" where
  "alloc_label a k \<equiv> label_of (pa_ObjectMeta a) k"

abbreviation alloc_key :: "PortAllocation \<Rightarrow> namespaced_name" where
  "alloc_key a \<equiv> meta_key (pa_ObjectMeta a)"

abbreviation binding_lb :: "PortBinding \<Rightarrow> string" where
  "binding_lb b \<equiv> lb_ID (pb_LoadBalancerRef b)"

section \<open>Pool status\<close>

record LoadBalancerAllocateStatus =
  las_Phase :: string
  las_AllocatedPorts :: "PortAllocation list"
  las_PrewarmedPorts :: "int32 list"
  las_TotalPorts :: int32
  las_AllocatedCount :: int32
  las_PrewarmedCount :: int32
  las_AvailableCount :: int32
  las_LastUpdated :: "time option"
  las_IsSynced :: bool

record ApolloNetworkPoolStatus =
  nps_Allocations :: "(string, LoadBalancerAllocateStatus) gomap option"
  nps_IsSynced :: bool

record ApolloNetworkPool =
  np_TypeMeta :: type_meta
  np_ObjectMeta :: object_meta
  np_Spec :: ApolloNetworkPoolSpec
  np_Status :: ApolloNetworkPoolStatus

record ApolloNetworkPoolList =
  npl_Items :: "ApolloNetworkPool list"

abbreviation port_range :: "ApolloNetworkPool \<Rightarrow> PortRange" where
  "port_range p \<equiv> ps_PortRange (np_Spec p)"

abbreviation load_balancers :: "ApolloNetworkPool \<Rightarrow> LoadBalancerRef list" where
  "load_balancers p \<equiv> ps_LoadBalancers (np_Spec p)"

section \<open>Pods (the fields of corev1.Pod the code reads, and some that it drops)\<close>

record ContainerPort =
  cp_Name :: string
  cp_HostPort :: int32
  cp_ContainerPort :: int32
  cp_Protocol :: string
  cp_HostIP :: string

record Container =
  ct_Name :: string
  ct_Image :: string
  ct_Command :: "string list"
  ct_Args :: "string list"
  ct_Env :: "(string \<times> string) list"
  ct_Ports :: "ContainerPort list"

record PodSpec =
  psp_Containers :: "Container list"
  psp_InitContainers :: "Container list"
  psp_NodeName :: string
  psp_ServiceAccountName :: string
  psp_RestartPolicy :: string

record PodStatus =
  pst_Phase :: string
  pst_PodIP :: string
  pst_HostIP :: string
  pst_Message :: string

record Pod =
  po_TypeMeta :: type_meta
  po_ObjectMeta :: object_meta
  po_Spec :: PodSpec
  po_Status :: PodStatus

section \<open>Label and annotation keys (pkg/allocator/label\_anno.go)\<close>

definition LabelPoolNameKey :: string where
  "LabelPoolNameKey = ''apollo.magicsong.io/pool-name''"
definition LabelPodNameKey :: string where
  "LabelPodNameKey = ''apollo.magicsong.io/pod-name''"
definition AnnotationBindingTypeKey :: string where
  "AnnotationBindingTypeKey = ''apollo.magicsong.io/binding-type''"
definition PodAnnotationNetworkPoolKey :: string where
  "PodAnnotationNetworkPoolKey = ''apollo.magicsong.io/network-pool''"
definition PodAnnotationContainerPortsKey :: string where
  "PodAnnotationContainerPortsKey = ''apollo.magicsong.io/container-ports''"
definition PodAnnotationEnableAllocKey :: string where
  "PodAnnotationEnableAllocKey = ''apollo.magicsong.io/enable-allocation''"

lemma label_keys_distinct [simp]: "LabelPoolNameKey \<noteq> LabelPodNameKey"
  "LabelPodNameKey \<noteq> LabelPoolNameKey"
  by (simp_all add: LabelPoolNameKey_def LabelPodNameKey_def)

lemma annotation_keys_distinct [simp]:
  "PodAnnotationNetworkPoolKey \<noteq> PodAnnotationContainerPortsKey"
  "PodAnnotationNetworkPoolKey \<noteq> PodAnnotationEnableAllocKey"
  "PodAnnotationContainerPortsKey \<noteq> PodAnnotationNetworkPoolKey"
  "PodAnnotationContainerPortsKey \<noteq> PodAnnotationEnableAllocKey"
  "PodAnnotationEnableAllocKey \<noteq> PodAnnotationNetworkPoolKey"
  "PodAnnotationEnableAllocKey \<noteq> PodAnnotationContainerPortsKey"
  by (simp_all add: PodAnnotationNetworkPoolKey_def PodAnnotationContainerPortsKey_def
      PodAnnotationEnableAllocKey_def)

end
