(* ===== verification/SampleData.thy ===== *)
theory SampleData
  imports ApiTypes
begin

text \<open>
  Concrete data for the witnesses: pools and allocations in the style of the fixtures of
  pkg/allocator/allocator\_test.go. No component refers to this theory in a definition.
\<close>

section \<open>Pools and allocations\<close>

definition sample_lb :: "string \<Rightarrow> LoadBalancerRef" where
  "sample_lb lid = \<lparr>lb_ID = lid, lb_Region = ''us-west-1'', lb_ResourceGroup = '''',
     lb_Provider = ''test-provider''\<rparr>"

definition sample_pool ::
  "string \<Rightarrow> string list \<Rightarrow> int32 \<Rightarrow> int32 \<Rightarrow> int32 list \<Rightarrow> ApolloNetworkPool" where
  "sample_pool nm lbs lo hi excl =
     \<lparr>np_TypeMeta = zero_type_meta, np_ObjectMeta = zero_object_meta\<lparr>om_Name := nm\<rparr>,
      np_Spec = \<lparr>ps_LoadBalancers = map sample_lb lbs, ps_ISPLineType = '''',
        ps_PortRange = \<lparr>pr_Min = lo, pr_Max = hi, pr_ExcludedPorts = excl\<rparr>,
        ps_PrewarmConfig = \<lparr>pw_Enabled = False, pw_BufferSize = 0\<rparr>, ps_PodSelector = None\<rparr>,
      np_Status = \<lparr>nps_Allocations = None, nps_IsSynced = False\<rparr>\<rparr>"

definition sample_binding :: "string \<Rightarrow> int32 \<Rightarrow> PortBinding" where
  "sample_binding lid port =
     \<lparr>pb_PodPort = 8080, pb_LBPort = port, pb_Protocol = ProtocolTCP, pb_PortName = ''http'',
      pb_BindingType = GetDefaultBindingType, pb_LoadBalancerRef = sample_lb lid,
      pb_BindingConfig = None\<rparr>"

definition sample_status :: PortAllocationStatus where
  "sample_status =
     \<lparr>st_Phase = AllocationPhasePending, st_BindingStatuses = [], st_AllocatedAt = Some 0,
      st_BoundAt = None, st_LastUpdated = None, st_Conditions = [], st_Message = '''',
      st_ObservedGeneration = 0\<rparr>"

text \<open>An allocation of a pod in a pool, holding the given slots.\<close>

definition sample_alloc ::
  "string \<Rightarrow> string \<Rightarrow> string \<Rightarrow> (string \<times> int32) list \<Rightarrow> PortAllocation" where
  "sample_alloc pool podName podNamespace held =
     \<lparr>pa_TypeMeta = zero_type_meta,
      pa_ObjectMeta = zero_object_meta
        \<lparr>om_Name := pool @ ''-'' @ podName,
         om_Labels := [(LabelPoolNameKey, pool), (LabelPodNameKey, podName)]\<rparr>,
      pa_Spec =
        \<lparr>as_PodInfo = \<lparr>pi_Name = podName, pi_Namespace = podNamespace, pi_UID = '''', pi_PodIP = ''''\<rparr>,
         as_PortBindings = map (\<lambda>(lid, port). sample_binding lid port) held\<rparr>,
      pa_Status = sample_status\<rparr>"

definition sample_port :: PodPortAllocation where
  "sample_port = \<lparr>pp_PodPort = 8080, pp_LBPort = 0, pp_Protocol = ProtocolTCP, pp_PortName = ''http''\<rparr>"

lemmas sample_defs =
  sample_lb_def sample_pool_def sample_binding_def sample_status_def sample_alloc_def
  sample_port_def zero_object_meta_def zero_type_meta_def

end
