(* ===== verification/AllocationList.thy ===== *)
theory AllocationList
  imports SampleData "HOL-Library.Sublist"
begin

text \<open>
  The queries over a list of port allocations (the methods of PortAllocationList in
  api/v1/port_allocation_types.go). Each loop of the source is a fold over the items in
  order, or a recursion where the loop breaks or returns early; the section on queries
  shows, once for all of them, what a query that selects allocations promises.
\<close>

section \<open>The queries\<close>

definition all_bindings :: "PortAllocation list \<Rightarrow> PortBinding list" where
  "all_bindings as = concat (map bindings as)"

lemma all_bindings_simps [simp]:
  "all_bindings [] = []"
  "all_bindings (a # as) = bindings a @ all_bindings as"
  "all_bindings (as @ as') = all_bindings as @ all_bindings as'"
  by (simp_all add: all_bindings_def)

lemma set_all_bindings: "set (all_bindings as) = (\<Union>a\<in>set as. set (bindings a))"
  by (simp add: all_bindings_def)

definition GetAllocatedPortsByLB :: "PortAllocationList \<Rightarrow> string \<Rightarrow> (int32, bool) gomap" where
  "GetAllocatedPortsByLB apl loadBalanceID =
     fold (\<lambda>allocation ports.
       fold (\<lambda>binding ports.
           if lb_ID (pb_LoadBalancerRef binding) = loadBalanceID
           then gm_put (pb_LBPort binding) True ports else ports)
         (as_PortBindings (pa_Spec allocation)) ports)
       (al_Items apl) []"

text \<open>The inner loop of GetBoundAllocations breaks at the first status that is not bound.\<close>

fun statuses_all_bound :: "BindingStatus list \<Rightarrow> bool" where
  "statuses_all_bound [] = True"
| "statuses_all_bound (status # rest) =
     (if bs_Phase status \<noteq> AllocationPhaseBound then False else statuses_all_bound rest)"

definition GetBoundAllocations :: "PortAllocationList \<Rightarrow> PortAllocation list" where
  "GetBoundAllocations apl =
     fold (\<lambda>allocation boundAllocations.
       if st_Phase (pa_Status allocation) = AllocationPhaseBound
       then (if statuses_all_bound (st_BindingStatuses (pa_Status allocation))
             then boundAllocations @ [allocation] else boundAllocations)
       else boundAllocations) (al_Items apl) []"

definition GetPendingAllocations :: "PortAllocationList \<Rightarrow> PortAllocation list" where
  "GetPendingAllocations apl =
     fold (\<lambda>allocation acc.
       if st_Phase (pa_Status allocation) = AllocationPhasePending
       then acc @ [allocation] else acc) (al_Items apl) []"

definition GetFailedAllocations :: "PortAllocationList \<Rightarrow> PortAllocation list" where
  "GetFailedAllocations apl =
     fold (\<lambda>allocation acc.
       if st_Phase (pa_Status allocation) = AllocationPhaseFailed
       then acc @ [allocation] else acc) (al_Items apl) []"

text \<open>The inner loops of the two port searches append once and break.\<close>

fun append_on_pod_port ::
  "int32 \<Rightarrow> PortAllocation \<Rightarrow> PortBinding list \<Rightarrow> PortAllocation list \<Rightarrow> PortAllocation list" where
  "append_on_pod_port podPort allocation [] acc = acc"
| "append_on_pod_port podPort allocation (binding # rest) acc =
     (if pb_PodPort binding = podPort then acc @ [allocation]
      else append_on_pod_port podPort allocation rest acc)"

definition FindAllocationsByPodPort :: "PortAllocationList \<Rightarrow> int32 \<Rightarrow> PortAllocation list" where
  "FindAllocationsByPodPort apl podPort =
     fold (\<lambda>allocation acc.
       append_on_pod_port podPort allocation (bindings allocation) acc) (al_Items apl) []"

fun append_on_lb_port ::
  "int32 \<Rightarrow> PortAllocation \<Rightarrow> PortBinding list \<Rightarrow> PortAllocation list \<Rightarrow> PortAllocation list" where
  "append_on_lb_port lbPort allocation [] acc = acc"
| "append_on_lb_port lbPort allocation (binding # rest) acc =
     (if pb_LBPort binding = lbPort then acc @ [allocation]
      else append_on_lb_port lbPort allocation rest acc)"

definition FindAllocationsByLBPort :: "PortAllocationList \<Rightarrow> int32 \<Rightarrow> PortAllocation list" where
  "FindAllocationsByLBPort apl lbPort =
     fold (\<lambda>allocation acc.
       append_on_lb_port lbPort allocation (bindings allocation) acc) (al_Items apl) []"

definition FindAllocationsByPodInfo ::
  "PortAllocationList \<Rightarrow> string \<Rightarrow> string \<Rightarrow> PortAllocation list" where
  "FindAllocationsByPodInfo apl namespace name =
     fold (\<lambda>allocation acc.
       if pi_Namespace (pod_info allocation) = namespace \<and> pi_Name (pod_info allocation) = name
       then acc @ [allocation] else acc) (al_Items apl) []"

text \<open>
  GetAllLoadBalancerRefs ranges over a Go map, whose iteration order the language leaves
  open: \<open>order\<close> is the order the runtime picks, any rearrangement of the entries.
\<close>

definition range_order :: "('a list \<Rightarrow> 'a list) \<Rightarrow> bool" where
  "range_order order \<longleftrightarrow> (\<forall>xs. distinct xs \<longrightarrow> distinct (order xs) \<and> set (order xs) = set xs)"

definition lb_ref_map :: "PortAllocation list \<Rightarrow> (string, LoadBalancerRef) gomap" where
  "lb_ref_map items =
     fold (\<lambda>allocation m.
       fold (\<lambda>binding m.
           gm_put (lb_ID (pb_LoadBalancerRef binding)) (pb_LoadBalancerRef binding) m)
         (bindings allocation) m) items []"

definition GetAllLoadBalancerRefs ::
  "((string \<times> LoadBalancerRef) list \<Rightarrow> (string \<times> LoadBalancerRef) list) \<Rightarrow>
   PortAllocationList \<Rightarrow> LoadBalancerRef list" where
  "GetAllLoadBalancerRefs order apl =
     fold (\<lambda>(_, lbRef) lbRefs. lbRefs @ [lbRef]) (order (lb_ref_map (al_Items apl))) []"

definition CountAllPortsByBindingType :: "PortAllocationList \<Rightarrow> (BindingType, nat) gomap" where
  "CountAllPortsByBindingType apl =
     fold (\<lambda>allocation counts.
       fold (\<lambda>binding counts. gm_incr (pb_BindingType binding) counts) (bindings allocation) counts)
       (al_Items apl) []"

definition GetAllocationsByPhase ::
  "PortAllocationList \<Rightarrow> AllocationPhase \<Rightarrow> PortAllocation list" where
  "GetAllocationsByPhase apl phase =
     fold (\<lambda>allocation acc.
       if st_Phase (pa_Status allocation) = phase then acc @ [allocation] else acc)
       (al_Items apl) []"

definition CountAllocationsByPhase :: "PortAllocationList \<Rightarrow> (AllocationPhase, nat) gomap" where
  "CountAllocationsByPhase apl =
     fold (\<lambda>allocation counts. gm_incr (st_Phase (pa_Status allocation)) counts) (al_Items apl) []"

text \<open>
  HasPortConflicts returns from inside two nested loops: the inner loop yields the map
  for the next allocation, or nothing once a conflict is found.
\<close>

fun conflict_in_bindings :: "PortBinding list \<Rightarrow> (int32, bool) gomap \<Rightarrow> (int32, bool) gomap option" where
  "conflict_in_bindings [] lbPortMap = Some lbPortMap"
| "conflict_in_bindings (binding # rest) lbPortMap =
     (if gm_get False lbPortMap (pb_LBPort binding) then None
      else conflict_in_bindings rest (gm_put (pb_LBPort binding) True lbPortMap))"

fun conflict_in_items :: "PortAllocation list \<Rightarrow> (int32, bool) gomap \<Rightarrow> bool" where
  "conflict_in_items [] lbPortMap = False"
| "conflict_in_items (allocation # rest) lbPortMap =
     (case conflict_in_bindings (bindings allocation) lbPortMap of
        None \<Rightarrow> True
      | Some lbPortMap' \<Rightarrow> conflict_in_items rest lbPortMap')"

definition HasPortConflicts :: "PortAllocationList \<Rightarrow> bool" where
  "HasPortConflicts apl = conflict_in_items (al_Items apl) []"

section \<open>What a selecting query promises\<close>

text \<open>
  The contract of every query that returns allocations: it selects, in list order, the
  items that satisfy a predicate. What clients rely on follows from that once.
\<close>

locale allocation_query =
  fixes query :: "PortAllocationList \<Rightarrow> PortAllocation list"
    and selects :: "PortAllocation \<Rightarrow> bool"
  assumes query_selects: "query apl = filter selects (al_Items apl)"
begin

lemma query_member: "a \<in> set (query apl) \<longleftrightarrow> a \<in> set (al_Items apl) \<and> selects a"
  by (simp add: query_selects)

lemma query_subseq: "subseq (query apl) (al_Items apl)"
  by (simp add: query_selects)

lemma query_idem: "query \<lparr>al_Items = query apl\<rparr> = query apl"
  by (simp add: query_selects)

lemma query_append:
  "query \<lparr>al_Items = xs @ ys\<rparr> = query \<lparr>al_Items = xs\<rparr> @ query \<lparr>al_Items = ys\<rparr>"
  by (simp add: query_selects)

lemma query_length: "length (query apl) = card {i. i < length (al_Items apl) \<and> selects (al_Items apl ! i)}"
  by (simp add: query_selects length_filter_conv_card)

end

lemma fold_append_if:
  "fold (\<lambda>x acc. if P x then acc @ [x] else acc) xs ys = ys @ filter P xs"
  by (induction xs arbitrary: ys) auto

lemma statuses_all_bound_iff:
  "statuses_all_bound ss \<longleftrightarrow> (\<forall>s\<in>set ss. bs_Phase s = AllocationPhaseBound)"
  by (induction ss) auto

lemma append_on_pod_port_eq:
  "append_on_pod_port p a bs acc = (if \<exists>b\<in>set bs. pb_PodPort b = p then acc @ [a] else acc)"
  by (induction bs) auto

lemma append_on_lb_port_eq:
  "append_on_lb_port p a bs acc = (if \<exists>b\<in>set bs. pb_LBPort b = p then acc @ [a] else acc)"
  by (induction bs) auto

definition is_bound :: "PortAllocation \<Rightarrow> bool" where
  "is_bound a \<longleftrightarrow> st_Phase (pa_Status a) = AllocationPhaseBound \<and>
     (\<forall>s\<in>set (st_BindingStatuses (pa_Status a)). bs_Phase s = AllocationPhaseBound)"

interpretation bound_query: allocation_query GetBoundAllocations is_bound
proof
  fix apl
  have "GetBoundAllocations apl =
      fold (\<lambda>a acc. if is_bound a then acc @ [a] else acc) (al_Items apl) []"
    unfolding GetBoundAllocations_def is_bound_def statuses_all_bound_iff
    by (rule fold_cong) auto
  then show "GetBoundAllocations apl = filter is_bound (al_Items apl)"
    by (simp add: fold_append_if)
qed

interpretation pending_query: allocation_query GetPendingAllocations
    "\<lambda>a. st_Phase (pa_Status a) = AllocationPhasePending"
  by unfold_locales (simp add: GetPendingAllocations_def fold_append_if)

interpretation failed_query: allocation_query GetFailedAllocations
    "\<lambda>a. st_Phase (pa_Status a) = AllocationPhaseFailed"
  by unfold_locales (simp add: GetFailedAllocations_def fold_append_if)

interpretation pod_port_query: allocation_query "\<lambda>apl. FindAllocationsByPodPort apl p"
    "\<lambda>a. \<exists>b\<in>set (bindings a). pb_PodPort b = p" for p
  by unfold_locales
    (simp add: FindAllocationsByPodPort_def append_on_pod_port_eq fold_append_if)

interpretation lb_port_query: allocation_query "\<lambda>apl. FindAllocationsByLBPort apl p"
    "\<lambda>a. \<exists>b\<in>set (bindings a). pb_LBPort b = p" for p
  by unfold_locales
    (simp add: FindAllocationsByLBPort_def append_on_lb_port_eq fold_append_if)

interpretation pod_info_query: allocation_query "\<lambda>apl. FindAllocationsByPodInfo apl ns nm"
    "\<lambda>a. pi_Namespace (pod_info a) = ns \<and> pi_Name (pod_info a) = nm" for ns nm
  by unfold_locales (simp add: FindAllocationsByPodInfo_def fold_append_if)

interpretation phase_query: allocation_query "\<lambda>apl. GetAllocationsByPhase apl ph"
    "\<lambda>a. st_Phase (pa_Status a) = ph" for ph
  by unfold_locales (simp add: GetAllocationsByPhase_def fold_append_if)

section \<open>The set of ports in use on a load balancer\<close>

lemma fold_bindings:
  "fold (\<lambda>a acc. fold g (bindings a) acc) as z = fold g (all_bindings as) z"
  by (induction as arbitrary: z) simp_all

lemma gm_get_put_all:
  "gm_get False (fold (\<lambda>b m. if P b then gm_put (f b) True m else m) bs m0) k
     \<longleftrightarrow> gm_get False m0 k \<or> (\<exists>b\<in>set bs. P b \<and> f b = k)"
  by (induction bs arbitrary: m0) (auto simp: go_simps)

text \<open>The ports of load balancer \<open>lid\<close> that some binding of the allocations occupies.\<close>

definition ports_on_lb :: "PortAllocation list \<Rightarrow> string \<Rightarrow> int32 set" where
  "ports_on_lb as lid = {pb_LBPort b | b. b \<in> set (all_bindings as) \<and> binding_lb b = lid}"

lemma ports_on_lb_eq: "ports_on_lb as lid = pb_LBPort ` {b \<in> set (all_bindings as). binding_lb b = lid}"
  by (auto simp: ports_on_lb_def)

lemma ports_on_lb_code:
  "ports_on_lb as lid = set (map pb_LBPort (filter (\<lambda>b. binding_lb b = lid) (all_bindings as)))"
  by (auto simp: ports_on_lb_def)

lemma finite_ports_on_lb [simp]: "finite (ports_on_lb as lid)"
  by (simp add: ports_on_lb_eq)

lemma ports_on_lb_mono: "set as \<subseteq> set as' \<Longrightarrow> ports_on_lb as lid \<subseteq> ports_on_lb as' lid"
  by (auto simp: ports_on_lb_def set_all_bindings)

lemma ports_on_lb_cong: "set as = set as' \<Longrightarrow> ports_on_lb as lid = ports_on_lb as' lid"
  by (simp add: ports_on_lb_def set_all_bindings)

lemma card_ports_on_lb:
  "card (ports_on_lb as lid) \<le> length (filter (\<lambda>b. binding_lb b = lid) (all_bindings as))"
  by (metis card_length length_map ports_on_lb_code)

lemma GetAllocatedPortsByLB_lookup:
  "gm_get False (GetAllocatedPortsByLB apl lid) p \<longleftrightarrow> p \<in> ports_on_lb (al_Items apl) lid"
proof -
  have "GetAllocatedPortsByLB apl lid =
      fold (\<lambda>b m. if binding_lb b = lid then gm_put (pb_LBPort b) True m else m)
        (all_bindings (al_Items apl)) []"
    by (simp add: GetAllocatedPortsByLB_def fold_bindings)
  then show ?thesis
    by (auto simp: gm_get_put_all go_simps ports_on_lb_def)
qed

section \<open>Port conflicts\<close>

lemma conflict_in_bindings_None:
  "conflict_in_bindings bs m = None \<longleftrightarrow>
     \<not> distinct (map pb_LBPort bs) \<or> (\<exists>b\<in>set bs. gm_get False m (pb_LBPort b))"
  by (induction bs arbitrary: m) (auto simp: go_simps image_iff dest: sym)

lemma conflict_in_bindings_Some:
  "conflict_in_bindings bs m = Some m' \<Longrightarrow>
     gm_get False m' k \<longleftrightarrow> gm_get False m k \<or> k \<in> pb_LBPort ` set bs"
  by (induction bs arbitrary: m) (auto simp: go_simps split: if_splits)

lemma conflict_in_items_iff:
  "conflict_in_items as m \<longleftrightarrow>
     \<not> distinct (map pb_LBPort (all_bindings as)) \<or>
     (\<exists>b\<in>set (all_bindings as). gm_get False m (pb_LBPort b))"
proof (induction as arbitrary: m)
  case Nil
  then show ?case by simp
next
  case (Cons a as)
  show ?case
  proof (cases "conflict_in_bindings (bindings a) m")
    case None
    then have "conflict_in_items (a # as) m" by simp
    moreover from None have "\<not> distinct (map pb_LBPort (bindings a)) \<or>
        (\<exists>b\<in>set (bindings a). gm_get False m (pb_LBPort b))"
      by (simp add: conflict_in_bindings_None)
    ultimately show ?thesis by auto
  next
    case (Some m')
    then have here: "distinct (map pb_LBPort (bindings a))"
      "\<forall>b\<in>set (bindings a). \<not> gm_get False m (pb_LBPort b)"
      using conflict_in_bindings_None [of "bindings a" m] by auto
    have "conflict_in_items (a # as) m \<longleftrightarrow> \<not> distinct (map pb_LBPort (all_bindings as)) \<or>
        (\<exists>b\<in>set (all_bindings as). gm_get False m' (pb_LBPort b))"
      using Some Cons.IH by simp
    also have "\<dots> \<longleftrightarrow> \<not> distinct (map pb_LBPort (all_bindings as)) \<or>
        (\<exists>b\<in>set (all_bindings as). gm_get False m (pb_LBPort b) \<or>
           pb_LBPort b \<in> pb_LBPort ` set (bindings a))"
      using conflict_in_bindings_Some [OF Some] by simp
    finally show ?thesis using here by (auto simp: image_iff dest: sym simp del: conflict_in_items.simps)
  qed
qed

lemma HasPortConflicts_iff:
  "HasPortConflicts apl \<longleftrightarrow> \<not> distinct (map pb_LBPort (all_bindings (al_Items apl)))"
  by (simp add: HasPortConflicts_def conflict_in_items_iff go_simps)

text \<open>The slots of the allocations: which port of which load balancer a binding occupies.\<close>

abbreviation slot_of :: "PortBinding \<Rightarrow> string \<times> int32" where
  "slot_of b \<equiv> (binding_lb b, pb_LBPort b)"

definition slots :: "PortAllocation list \<Rightarrow> (string \<times> int32) list" where
  "slots as = map slot_of (all_bindings as)"

lemma slots_simps [simp]:
  "slots [] = []"
  "slots (a # as) = map slot_of (bindings a) @ slots as"
  "slots (as @ as') = slots as @ slots as'"
  by (simp_all add: slots_def)

lemma slots_concat: "slots as = concat (map (\<lambda>a. map slot_of (bindings a)) as)"
  by (induction as) simp_all

lemma distinct_slots_filter: "distinct (slots as) \<Longrightarrow> distinct (slots (filter P as))"
  unfolding slots_concat by (rule distinct_concat_map_filter)

lemma set_slots: "set (slots as) = {(lid, p). p \<in> ports_on_lb as lid}"
  by (auto simp: slots_def ports_on_lb_def)

lemma slots_map_cong:
  assumes "\<And>a. a \<in> set as \<Longrightarrow> bindings (f a) = bindings a"
  shows "slots (map f as) = slots as"
  using assms by (induction as) simp_all

lemma no_conflict_distinct_slots:
  "\<not> HasPortConflicts apl \<Longrightarrow> distinct (slots (al_Items apl))"
  by (auto simp: HasPortConflicts_iff slots_def distinct_map inj_on_def)

section \<open>Counting queries\<close>

lemma gm_wf_fold_incr: "gm_wf m \<Longrightarrow> gm_wf (fold (\<lambda>x m. gm_incr (f x) m) xs m)"
  by (induction xs arbitrary: m) (auto simp: go_simps)

lemma gm_get_fold_incr:
  "gm_get 0 (fold (\<lambda>x m. gm_incr (f x) m) xs m) k = length (filter (\<lambda>x. f x = k) xs) + gm_get 0 m k"
  by (induction xs arbitrary: m) (auto simp: go_simps)

lemma sum_list_fold_incr:
  "gm_wf m \<Longrightarrow>
     sum_list (map snd (fold (\<lambda>x m. gm_incr (f x) m) xs m)) = length xs + sum_list (map snd m)"
  by (induction xs arbitrary: m) (auto simp: go_simps sum_list_incr)

lemma CountAllPortsByBindingType_fold:
  "CountAllPortsByBindingType apl =
     fold (\<lambda>b m. gm_incr (pb_BindingType b) m) (all_bindings (al_Items apl)) []"
  by (simp add: CountAllPortsByBindingType_def fold_bindings)

section \<open>The references of all load balancers\<close>

lemma gm_wf_fold_put: "gm_wf m \<Longrightarrow> gm_wf (fold (\<lambda>x m. gm_put (f x) (g x) m) xs m)"
  by (induction xs arbitrary: m) (auto simp: go_simps)

lemma map_of_fold_put:
  "map_of (fold (\<lambda>x m. gm_put (f x) (g x) m) xs m) k =
     (case filter (\<lambda>x. f x = k) (rev xs) of [] \<Rightarrow> map_of m k | x # _ \<Rightarrow> Some (g x))"
proof (induction xs rule: rev_induct)
  case Nil
  then show ?case by simp
next
  case (snoc x xs)
  then show ?case by (simp add: go_simps)
qed

lemma lb_ref_map_fold:
  "lb_ref_map as = fold (\<lambda>b m. gm_put (binding_lb b) (pb_LoadBalancerRef b) m) (all_bindings as) []"
  by (simp add: lb_ref_map_def fold_bindings)

lemma lb_ref_map_wf: "gm_wf (lb_ref_map as)"
  unfolding lb_ref_map_fold by (rule gm_wf_fold_put) (simp add: go_simps)

lemma fold_append_map: "fold (\<lambda>(_, v) acc. acc @ [v]) m acc = acc @ map snd m"
  by (induction m arbitrary: acc) auto

lemma GetAllLoadBalancerRefs_eq:
  "GetAllLoadBalancerRefs order apl = map snd (order (lb_ref_map (al_Items apl)))"
  by (simp add: GetAllLoadBalancerRefs_def fold_append_map)

lemma lb_ref_map_entry:
  "map_of (lb_ref_map as) lid = Some r \<Longrightarrow>
     \<exists>b\<in>set (all_bindings as). binding_lb b = lid \<and> pb_LoadBalancerRef b = r"
proof -
  assume "map_of (lb_ref_map as) lid = Some r"
  then obtain x xs where f: "filter (\<lambda>b. binding_lb b = lid) (rev (all_bindings as)) = x # xs"
    and r: "r = pb_LoadBalancerRef x"
    by (auto simp: lb_ref_map_fold map_of_fold_put split: list.splits)
  have "x \<in> set (filter (\<lambda>b. binding_lb b = lid) (rev (all_bindings as)))"
    unfolding f by simp
  with r show ?thesis by auto
qed

lemma lb_ref_map_keys: "fst ` set (lb_ref_map as) = binding_lb ` set (all_bindings as)"
proof -
  have "fst ` set (fold (\<lambda>b m. gm_put (binding_lb b) (pb_LoadBalancerRef b) m) bs m)
      = fst ` set m \<union> binding_lb ` set bs" for bs :: "PortBinding list" and m
    by (induction bs arbitrary: m) (auto simp: dom_update)
  from this [of "all_bindings as" "[]"] show ?thesis by (simp add: lb_ref_map_fold)
qed

lemma lb_ref_map_id:
  assumes "(lid, r) \<in> set (lb_ref_map as)"
  shows "lb_ID r = lid"
proof -
  have "map_of (lb_ref_map as) lid = Some r"
    using assms lb_ref_map_wf [of as] by (simp add: gm_wf_def)
  then show ?thesis by (auto dest: lb_ref_map_entry)
qed

lemma GetAllLoadBalancerRefs_ids:
  assumes "range_order order"
  shows "distinct (map lb_ID (GetAllLoadBalancerRefs order apl))"
    and "lb_ID ` set (GetAllLoadBalancerRefs order apl) = binding_lb ` set (all_bindings (al_Items apl))"
proof -
  let ?m = "lb_ref_map (al_Items apl)"
  have d: "distinct ?m"
    using lb_ref_map_wf [of "al_Items apl"] by (simp add: gm_wf_def distinct_map)
  then have ord: "distinct (order ?m)" "set (order ?m) = set ?m"
    using assms by (auto simp: range_order_def)
  have ids: "map (lb_ID \<circ> snd) (order ?m) = map fst (order ?m)"
    using ord(2) by (auto simp: lb_ref_map_id)
  have "inj_on fst (set ?m)"
    using lb_ref_map_wf [of "al_Items apl"] by (simp add: gm_wf_def distinct_map)
  with ord have "distinct (map fst (order ?m))" by (simp add: distinct_map)
  then show "distinct (map lb_ID (GetAllLoadBalancerRefs order apl))"
    by (simp add: GetAllLoadBalancerRefs_eq ids)
  have "lb_ID ` set (map snd (order ?m)) = set (map (lb_ID \<circ> snd) (order ?m))"
    by (simp add: image_comp)
  also have "\<dots> = fst ` set ?m" unfolding ids by (simp add: ord(2))
  also have "\<dots> = binding_lb ` set (all_bindings (al_Items apl))" by (rule lb_ref_map_keys)
  finally show "lb_ID ` set (GetAllLoadBalancerRefs order apl) =
      binding_lb ` set (all_bindings (al_Items apl))"
    by (simp add: GetAllLoadBalancerRefs_eq)
qed

lemma GetAllLoadBalancerRefs_refs:
  assumes "range_order order"
  shows "set (GetAllLoadBalancerRefs order apl) \<subseteq> pb_LoadBalancerRef ` set (all_bindings (al_Items apl))"
proof
  fix r
  let ?m = "lb_ref_map (al_Items apl)"
  assume "r \<in> set (GetAllLoadBalancerRefs order apl)"
  then have "r \<in> snd ` set (order ?m)" by (simp add: GetAllLoadBalancerRefs_eq)
  moreover have "distinct ?m"
    using lb_ref_map_wf [of "al_Items apl"] by (simp add: gm_wf_def distinct_map)
  ultimately have "r \<in> snd ` set ?m" using assms by (simp add: range_order_def)
  then obtain lid where "(lid, r) \<in> set ?m" by force
  then have "map_of ?m lid = Some r"
    using lb_ref_map_wf [of "al_Items apl"] by (simp add: gm_wf_def)
  then show "r \<in> pb_LoadBalancerRef ` set (all_bindings (al_Items apl))"
    by (auto dest: lb_ref_map_entry)
qed

definition true_set :: "(int32, bool) gomap \<Rightarrow> bool" where
  "true_set m \<longleftrightarrow> gm_wf m \<and> (\<forall>k v. map_of m k = Some v \<longrightarrow> v)"

lemma true_set_Nil [simp]: "true_set []"
  by (simp add: true_set_def go_simps)

lemma true_set_put [simp]: "true_set m \<Longrightarrow> true_set (gm_put k True m)"
  by (auto simp: true_set_def go_simps)

lemma true_set_fold:
  "true_set m \<Longrightarrow> true_set (fold (\<lambda>b m. if P b then gm_put (f b) True m else m) bs m)"
  by (induction bs arbitrary: m) auto

lemma true_set_lookup:
  "true_set m \<Longrightarrow> map_of m k = (if gm_get False m k then Some True else None)"
  by (auto simp: true_set_def gm_get_def split: option.splits)

lemma GetAllocatedPortsByLB_true_set: "true_set (GetAllocatedPortsByLB apl lid)"
  unfolding GetAllocatedPortsByLB_def fold_bindings by (rule true_set_fold) simp

definition two_lbs_one_port :: PortAllocationList where
  "two_lbs_one_port = \<lparr>al_Items =
     [sample_alloc ''p'' ''a'' ''ns'' [(''lb-1'', 30000)], sample_alloc ''p'' ''b'' ''ns'' [(''lb-2'', 30000)]]\<rparr>"

lemma two_lbs_one_port_flagged:
  "HasPortConflicts two_lbs_one_port \<and> distinct (slots (al_Items two_lbs_one_port))"
  by (simp add: HasPortConflicts_iff two_lbs_one_port_def slots_def sample_alloc_def
      sample_binding_def sample_lb_def)

section \<open>Properties\<close>

text \<open>
  GetAllocatedPortsByLB returns the set of ports that are in use on the given load
  balancer as a Go map: a key is present exactly for the LB ports of the bindings that
  refer to it, always with the value true, and each key is there once.
\<close>

theorem GetAllocatedPortsByLB_correct:
  "gm_wf (GetAllocatedPortsByLB apl lid) \<and>
   map_of (GetAllocatedPortsByLB apl lid) p =
     (if \<exists>a b. a \<in> set (al_Items apl) \<and> b \<in> set (bindings a) \<and>
         lb_ID (pb_LoadBalancerRef b) = lid \<and> pb_LBPort b = p then Some True else None)"
proof -
  have "p \<in> ports_on_lb (al_Items apl) lid \<longleftrightarrow> (\<exists>a b. a \<in> set (al_Items apl) \<and> b \<in> set (bindings a) \<and>
      lb_ID (pb_LoadBalancerRef b) = lid \<and> pb_LBPort b = p)"
    by (auto simp: ports_on_lb_def set_all_bindings)
  then show ?thesis
    using GetAllocatedPortsByLB_true_set [of apl lid]
    by (simp add: true_set_lookup GetAllocatedPortsByLB_lookup true_set_def [THEN iffD1, THEN conjunct1])
qed

text \<open>
  C40. HasPortConflicts, with its early return out of the nested loops, says yes exactly
  when two bindings of the list have the same LB port, whichever load balancers they
  are on. So an answer of no rules out a double booking of a slot, but an answer of yes
  does not show one: two allocations that hold the same port number on two different
  load balancers are reported although no slot is held twice.
\<close>

theorem HasPortConflicts_correct:
  "(HasPortConflicts apl \<longleftrightarrow> \<not> distinct (map pb_LBPort (all_bindings (al_Items apl)))) \<and>
   (\<not> distinct (slots (al_Items apl)) \<longrightarrow> HasPortConflicts apl) \<and>
   (\<exists>l. HasPortConflicts l \<and> distinct (slots (al_Items l)))"
proof (intro conjI impI)
  show "HasPortConflicts apl \<longleftrightarrow> \<not> distinct (map pb_LBPort (all_bindings (al_Items apl)))"
    by (rule HasPortConflicts_iff)
  show "HasPortConflicts apl" if "\<not> distinct (slots (al_Items apl))"
    using that no_conflict_distinct_slots by blast
  show "\<exists>l. HasPortConflicts l \<and> distinct (slots (al_Items l))"
    by (rule exI [of _ two_lbs_one_port]) (simp add: two_lbs_one_port_flagged)
qed

theorem HasPortConflicts_correct_witness:
  "HasPortConflicts \<lparr>al_Items = [sample_alloc ''p'' ''a'' ''ns'' [(''lb-1'', 30000), (''lb-1'', 30000)]]\<rparr>"
  by (rule HasPortConflicts_correct [THEN conjunct2, THEN conjunct1, rule_format])
    (simp add: slots_def sample_alloc_def sample_binding_def)

text \<open>
  GetAllLoadBalancerRefs lists one reference for each load balancer that occurs in a
  binding, whatever order the runtime ranges over the map in: the IDs are distinct and
  are exactly those of the bindings, and each reference is one that a binding carries.
\<close>

theorem GetAllLoadBalancerRefs_unique:
  assumes "range_order order"
  shows "distinct (map lb_ID (GetAllLoadBalancerRefs order apl)) \<and>
    lb_ID ` set (GetAllLoadBalancerRefs order apl) =
      (\<lambda>b. lb_ID (pb_LoadBalancerRef b)) ` set (all_bindings (al_Items apl)) \<and>
    set (GetAllLoadBalancerRefs order apl) \<subseteq> pb_LoadBalancerRef ` set (all_bindings (al_Items apl))"
  using GetAllLoadBalancerRefs_ids [OF assms] GetAllLoadBalancerRefs_refs [OF assms] by auto

theorem GetAllLoadBalancerRefs_unique_witness:
  "lb_ID ` set (GetAllLoadBalancerRefs rev
      \<lparr>al_Items = [sample_alloc ''p'' ''a'' ''ns'' [(''lb-1'', 30000), (''lb-2'', 30000), (''lb-1'', 30001)]]\<rparr>)
    = {''lb-1'', ''lb-2''}"
proof -
  have "range_order (rev :: (string \<times> LoadBalancerRef) list \<Rightarrow> _)" by (simp add: range_order_def)
  from GetAllLoadBalancerRefs_unique [OF this, THEN conjunct2, THEN conjunct1]
  show ?thesis by (simp add: sample_alloc_def sample_binding_def sample_lb_def insert_commute)
qed

text \<open>
  The counting queries: CountAllocationsByPhase and CountAllPortsByBindingType hold
  for every key the number of allocations in that phase, of bindings of that type, and
  the counters add up to the number of allocations and of bindings.
\<close>

theorem counting_queries_correct:
  "gm_get 0 (CountAllocationsByPhase apl) ph = length (GetAllocationsByPhase apl ph) \<and>
   sum_list (map snd (CountAllocationsByPhase apl)) = length (al_Items apl) \<and>
   gm_get 0 (CountAllPortsByBindingType apl) ty =
     length (filter (\<lambda>b. pb_BindingType b = ty) (all_bindings (al_Items apl))) \<and>
   sum_list (map snd (CountAllPortsByBindingType apl)) = length (all_bindings (al_Items apl))"
  by (simp add: CountAllocationsByPhase_def CountAllPortsByBindingType_fold
      gm_get_fold_incr sum_list_fold_incr phase_query.query_selects go_simps)

text \<open>
  The selecting queries agree with each other: pending and failed allocations are
  those of the phase query, the bound ones are those of the phase query whose every
  binding status is bound too, and the three port and pod searches select the items of
  the list, in its order and without repetition of a position, that have such a port or pod.
\<close>

theorem selecting_queries_correct:
  "GetPendingAllocations apl = GetAllocationsByPhase apl AllocationPhasePending \<and>
   GetFailedAllocations apl = GetAllocationsByPhase apl AllocationPhaseFailed \<and>
   GetBoundAllocations apl = filter (\<lambda>a. statuses_all_bound (st_BindingStatuses (pa_Status a)))
     (GetAllocationsByPhase apl AllocationPhaseBound) \<and>
   FindAllocationsByPodPort apl p = filter (\<lambda>a. p \<in> pb_PodPort ` set (bindings a)) (al_Items apl) \<and>
   FindAllocationsByLBPort apl p = filter (\<lambda>a. p \<in> pb_LBPort ` set (bindings a)) (al_Items apl) \<and>
   FindAllocationsByPodInfo apl ns nm = filter (\<lambda>a. pi_Name (pod_info a) = nm)
     (filter (\<lambda>a. pi_Namespace (pod_info a) = ns) (al_Items apl))"
proof -
  have img: "(\<exists>b\<in>S. f b = p) \<longleftrightarrow> p \<in> f ` S" for f :: "PortBinding \<Rightarrow> int32" and S
    by auto
  show ?thesis
    unfolding pending_query.query_selects failed_query.query_selects bound_query.query_selects
      phase_query.query_selects pod_port_query.query_selects lb_port_query.query_selects
      pod_info_query.query_selects img
    by (auto simp: is_bound_def statuses_all_bound_iff conj_commute intro!: filter_cong)
qed

end
