(* ===== verification/KubeClient.thy ===== *)
theory KubeClient
  imports AllocationList
begin

text \<open>
  The Kubernetes client (controller-runtime's \<open>client.Client\<close>) is not part of the
  repository. It is a parameter of every definition that uses it: a record of the calls
  the code makes, over a world \<open>'s\<close> that nothing is assumed of and an API error type
  \<open>'e\<close>. Every call may fail and may change the world. The documented behaviour that
  some properties rely on is stated below as named predicates over a client and a view
  of the world as a cluster; no definition uses them.
\<close>

section \<open>The client parameter\<close>

record ('s, 'e) kube_client =
  kc_GetPool :: "namespaced_name \<Rightarrow> 's \<Rightarrow> ('e + ApolloNetworkPool) \<times> 's"
  kc_GetAllocation :: "namespaced_name \<Rightarrow> 's \<Rightarrow> ('e + PortAllocation) \<times> 's"
  kc_GetPod :: "namespaced_name \<Rightarrow> 's \<Rightarrow> ('e + Pod) \<times> 's"
  kc_ListAllocations ::
    "(string, string) gomap \<Rightarrow> nat option \<Rightarrow> 's \<Rightarrow> ('e + PortAllocationList) \<times> 's"
  kc_CreateAllocation :: "PortAllocation \<Rightarrow> 's \<Rightarrow> ('e + PortAllocation) \<times> 's"
  kc_DeleteAllocation :: "PortAllocation \<Rightarrow> 's \<Rightarrow> ('e + unit) \<times> 's"
  kc_PatchPod :: "Pod \<Rightarrow> Pod \<Rightarrow> 's \<Rightarrow> ('e + Pod) \<times> 's"
  kc_UpdatePoolStatus :: "ApolloNetworkPool \<Rightarrow> 's \<Rightarrow> ('e + ApolloNetworkPool) \<times> 's"
  kc_IsNotFound :: "'e \<Rightarrow> bool"
  kc_IsConflict :: "'e \<Rightarrow> bool"
  kc_Now :: "'s \<Rightarrow> time"

section \<open>Errors\<close>

text \<open>
  One constructor per error the code builds, with the values its message shows. A
  constructor that holds an error is a \<open>fmt.Errorf\<close> with \<open>%w\<close>: the cause stays
  reachable for \<open>errors.As\<close>. \<open>NeverReturns\<close> is no error of the code: it marks a
  call whose loop does not end, and is passed on like the calls it happens in.
\<close>

datatype 'e error =
    ApiError 'e
  | FailedToGetPool string "'e error"
  | FailedToListAllocations string "'e error"
  | FailedToGetPoolAndAllocations "'e error"
  | FailedToSelectLoadBalancer "'e error"
  | FailedToFindPorts string "'e error"
  | NoLoadBalancersConfigured
  | NoLoadBalancerHasPorts int
  | PortCountNotPositive int
  | OnlyFoundPorts nat int string int32 int32
  | NeverReturns
  | AllocationCannotBeNil
  | FailedToCheckExisting "'e error"
  | FailedToCreateAllocation "'e error"
  | AllocationBeingDeleted string string
  | AllocationAlreadyExists string string
  | PodAllocationBeingDeleted string string string string
  | PodHasActiveAllocation string string string string
  | FailedToGetAllocation string "'e error"
  | AllocationNotFound string string string
  | AllocationNotOfPod string string string
  | AllocationNotOfPool string string
  | AllocationAlreadyDeleting string
  | FailedToDeleteAllocation string "'e error"
  | PoolAnnotationMissing
  | FailedToParsePoolsJSON
  | NoValidPools
  | FailedToUnmarshalPorts
  | PoolFailed string "'e error"
  | AllAllocationsFailed "'e error list"
  | FailedToUpdateStatus "'e error"

fun api_cause :: "'e error \<Rightarrow> 'e option" where
  "api_cause (ApiError e) = Some e"
| "api_cause (FailedToGetPool _ e) = api_cause e"
| "api_cause (FailedToListAllocations _ e) = api_cause e"
| "api_cause (FailedToGetPoolAndAllocations e) = api_cause e"
| "api_cause (FailedToSelectLoadBalancer e) = api_cause e"
| "api_cause (FailedToFindPorts _ e) = api_cause e"
| "api_cause (FailedToCheckExisting e) = api_cause e"
| "api_cause (FailedToCreateAllocation e) = api_cause e"
| "api_cause (FailedToGetAllocation _ e) = api_cause e"
| "api_cause (FailedToDeleteAllocation _ e) = api_cause e"
| "api_cause (PoolFailed _ e) = api_cause e"
| "api_cause (FailedToUpdateStatus e) = api_cause e"
| "api_cause _ = None"

fun never_returns :: "'e error \<Rightarrow> bool" where
  "never_returns NeverReturns = True"
| "never_returns (FailedToFindPorts _ e) = never_returns e"
| "never_returns _ = False"

section \<open>Retrying on conflict\<close>

text \<open>
  \<open>retry.RetryOnConflict(retry.DefaultRetry, fn)\<close> of client-go is a parameter too: a
  function that runs \<open>fn\<close> over the state \<open>'c\<close> the closure reads and writes. What
  the documentation promises: it runs \<open>fn\<close> again, up to the given number of steps,
  exactly while the error is a conflict, and returns what the last run returned.
\<close>

type_synonym ('c, 'x) retrier = "('c \<Rightarrow> 'x option \<times> 'c) \<Rightarrow> 'c \<Rightarrow> 'x option \<times> 'c"

fun retry_runs ::
  "('x \<Rightarrow> bool) \<Rightarrow> ('c \<Rightarrow> 'x option \<times> 'c) \<Rightarrow> nat \<Rightarrow> 'c \<Rightarrow> 'x option \<times> 'c" where
  "retry_runs conflict fn 0 c = fn c"
| "retry_runs conflict fn (Suc n) c =
     (case fn c of
        (Some e, c') \<Rightarrow> if conflict e then retry_runs conflict fn n c' else (Some e, c')
      | (None, c') \<Rightarrow> (None, c'))"

definition is_conflict :: "('s, 'e) kube_client \<Rightarrow> 'e error \<Rightarrow> bool" where
  "is_conflict api e = (case api_cause e of None \<Rightarrow> False | Some a \<Rightarrow> kc_IsConflict api a)"

text \<open>DefaultRetry has five steps: one run and four retries.\<close>

definition retries_on_conflict :: "('s, 'e) kube_client \<Rightarrow> ('c, 'e error) retrier \<Rightarrow> bool" where
  "retries_on_conflict api retry \<longleftrightarrow> (\<forall>fn c. retry fn c = retry_runs (is_conflict api) fn 4 c)"

lemma retry_runs_invariant:
  assumes "P c"
    and "\<And>c e c'. P c \<Longrightarrow> fn c = (Some e, c') \<Longrightarrow> conflict e \<Longrightarrow> P c'"
  shows "\<exists>c0. P c0 \<and> retry_runs conflict fn n c = fn c0"
  using assms(1)
proof (induction n arbitrary: c)
  case 0
  then show ?case by auto
next
  case (Suc n)
  show ?case
  proof (cases "\<exists>e c'. fn c = (Some e, c') \<and> conflict e")
    case True
    then obtain e c' where f: "fn c = (Some e, c')" "conflict e" by blast
    with Suc.prems assms(2) have "P c'" by blast
    from Suc.IH [OF this] f show ?thesis by simp
  next
    case False
    then have "retry_runs conflict fn (Suc n) c = fn c"
      by (auto split: prod.splits option.splits)
    with Suc.prems show ?thesis by auto
  qed
qed

lemma retries_on_conflict_invariant:
  assumes "retries_on_conflict api retry" and "P c"
    and "\<And>c e c'. P c \<Longrightarrow> fn c = (Some e, c') \<Longrightarrow> is_conflict api e \<Longrightarrow> P c'"
  shows "\<exists>c0. P c0 \<and> retry fn c = fn c0"
  using retry_runs_invariant [of P c fn "is_conflict api" 4] assms
  by (auto simp: retries_on_conflict_def)

text \<open>Without a conflict the closure runs once.\<close>

lemma retries_on_conflict_once:
  assumes "retries_on_conflict api retry"
    and "\<And>e c'. fn c = (Some e, c') \<Longrightarrow> \<not> is_conflict api e"
  shows "retry fn c = fn c"
proof -
  have four: "(4::nat) = Suc 3" by simp
  have "retry fn c = retry_runs (is_conflict api) fn (Suc 3) c"
    using assms(1) unfolding retries_on_conflict_def four by blast
  also have "\<dots> = fn c"
    using assms(2) by (subst retry_runs.simps(2)) (auto split: prod.splits option.splits)
  finally show ?thesis .
qed

section \<open>Documented behaviour of the API server\<close>

text \<open>What is stored: the objects of the three kinds.\<close>

record cluster =
  cl_Pools :: "ApolloNetworkPool list"
  cl_Allocs :: "PortAllocation list"
  cl_Pods :: "Pod list"

text \<open>
  The server stores what the schema of the resource knows and drops the rest. The schema of
  pools gives the metadata of the allocations that a status lists as an object without
  properties (apollo.io\_apollonetworkpools.yaml, line 190), so that their names, labels and
  times are not stored; a map without entries is left out and read back as nil. Theory Wire
  derives this from the JSON and the schema.
\<close>

definition nameless :: "PortAllocation \<Rightarrow> PortAllocation" where
  "nameless a = a\<lparr>pa_ObjectMeta := zero_object_meta\<rparr>"

definition stored_entry :: "LoadBalancerAllocateStatus \<Rightarrow> LoadBalancerAllocateStatus" where
  "stored_entry e = e\<lparr>las_AllocatedPorts := map nameless (las_AllocatedPorts e)\<rparr>"

definition status_map :: "ApolloNetworkPoolStatus \<Rightarrow> (string, LoadBalancerAllocateStatus) gomap" where
  "status_map st = (case nps_Allocations st of None \<Rightarrow> [] | Some m \<Rightarrow> m)"

definition stored_status :: "ApolloNetworkPoolStatus \<Rightarrow> ApolloNetworkPoolStatus" where
  "stored_status st = st\<lparr>nps_Allocations :=
     (if status_map st = [] then None else Some (map (\<lambda>(lid, e). (lid, stored_entry e)) (status_map st)))\<rparr>"

lemma nameless_simps [simp]:
  "pa_Spec (nameless a) = pa_Spec a" "pa_Status (nameless a) = pa_Status a" "nameless (nameless a) = nameless a"
  by (simp_all add: nameless_def)

lemma stored_entry_simps [simp]:
  "las_AllocatedPorts (stored_entry e) = map nameless (las_AllocatedPorts e)"
  "las_AllocatedCount (stored_entry e) = las_AllocatedCount e" "las_IsSynced (stored_entry e) = las_IsSynced e"
  "las_LastUpdated (stored_entry e) = las_LastUpdated e" "stored_entry (stored_entry e) = stored_entry e"
  by (simp_all add: stored_entry_def)

lemma map_of_stored_status:
  "map_of (status_map (stored_status st)) lid = map_option stored_entry (map_of (status_map st) lid)"
  by (simp add: stored_status_def status_map_def map_of_map split: option.split)

lemma stored_status_IsSynced [simp]: "nps_IsSynced (stored_status st) = nps_IsSynced st"
  by (simp add: stored_status_def)

lemma status_map_Some [simp]: "status_map \<lparr>nps_Allocations = Some m, nps_IsSynced = b\<rparr> = m"
  by (simp add: status_map_def)

lemma stored_status_idem: "stored_status (stored_status st) = stored_status st"
  by (simp add: stored_status_def status_map_def split: option.split)

text \<open>\<open>client.MatchingLabels\<close>: every given label is there with the given value.\<close>

definition selected_by :: "(string, string) gomap \<Rightarrow> PortAllocation \<Rightarrow> bool" where
  "selected_by sel a \<longleftrightarrow>
     (\<forall>(k, v) \<in> set sel. map_of (om_Labels (pa_ObjectMeta a)) k = Some v)"

text \<open>Reading never changes what is stored.\<close>

definition reads_preserve :: "('s, 'e) kube_client \<Rightarrow> ('s \<Rightarrow> cluster) \<Rightarrow> bool" where
  "reads_preserve api view \<longleftrightarrow>
     (\<forall>k s r s'. kc_GetPool api k s = (r, s') \<longrightarrow> view s' = view s) \<and>
     (\<forall>k s r s'. kc_GetAllocation api k s = (r, s') \<longrightarrow> view s' = view s) \<and>
     (\<forall>k s r s'. kc_GetPod api k s = (r, s') \<longrightarrow> view s' = view s) \<and>
     (\<forall>sel lim s r s'. kc_ListAllocations api sel lim s = (r, s') \<longrightarrow> view s' = view s)"

text \<open>
  A list that succeeds returns the stored objects that match (a reader that is not
  behind), each once. With a limit it returns no others, and all of them when they are no
  more than the limit.
\<close>

definition lists_current :: "('s, 'e) kube_client \<Rightarrow> ('s \<Rightarrow> cluster) \<Rightarrow> bool" where
  "lists_current api view \<longleftrightarrow>
     (\<forall>sel lim s l s'. kc_ListAllocations api sel lim s = (Inr l, s') \<longrightarrow>
        set (al_Items l) \<subseteq> {a \<in> set (cl_Allocs (view s)). selected_by sel a} \<and>
        (distinct (cl_Allocs (view s)) \<longrightarrow> distinct (al_Items l)) \<and>
        ((case lim of None \<Rightarrow> True
          | Some n \<Rightarrow> length (filter (selected_by sel) (cl_Allocs (view s))) \<le> n) \<longrightarrow>
         set (al_Items l) = {a \<in> set (cl_Allocs (view s)). selected_by sel a}))"

text \<open>
  A get returns the stored object with the key (pools are cluster-scoped: the namespace
  of the key is ignored and theirs is empty), or not-found when there is none.
\<close>

definition gets_current :: "('s, 'e) kube_client \<Rightarrow> ('s \<Rightarrow> cluster) \<Rightarrow> bool" where
  "gets_current api view \<longleftrightarrow>
     (\<forall>k s p s'. kc_GetPool api k s = (Inr p, s') \<longrightarrow>
        p \<in> set (cl_Pools (view s)) \<and> om_Name (np_ObjectMeta p) = nn_Name k) \<and>
     (\<forall>k s a s'. kc_GetAllocation api k s = (Inr a, s') \<longrightarrow>
        a \<in> set (cl_Allocs (view s)) \<and> alloc_key a = k) \<and>
     (\<forall>k s e s'. kc_GetAllocation api k s = (Inl e, s') \<and> kc_IsNotFound api e \<longrightarrow>
        k \<notin> alloc_key ` set (cl_Allocs (view s)))"

text \<open>
  A create that succeeds stores the object with the content it was given under a key that
  was free and changes nothing else (the server fills in metadata of its own and may
  reset the status); one that fails stores nothing.
\<close>

definition same_content :: "PortAllocation \<Rightarrow> PortAllocation \<Rightarrow> bool" where
  "same_content a b \<longleftrightarrow>
     pa_Spec b = pa_Spec a \<and> alloc_key b = alloc_key a \<and>
     om_Labels (pa_ObjectMeta b) = om_Labels (pa_ObjectMeta a) \<and>
     om_DeletionTimestamp (pa_ObjectMeta b) = om_DeletionTimestamp (pa_ObjectMeta a)"

definition creates :: "('s, 'e) kube_client \<Rightarrow> ('s \<Rightarrow> cluster) \<Rightarrow> bool" where
  "creates api view \<longleftrightarrow>
     (\<forall>a s b s'. kc_CreateAllocation api a s = (Inr b, s') \<longrightarrow>
        same_content a b \<and> alloc_key a \<notin> alloc_key ` set (cl_Allocs (view s)) \<and>
        view s' = (view s)\<lparr>cl_Allocs := b # cl_Allocs (view s)\<rparr>) \<and>
     (\<forall>a s e s'. kc_CreateAllocation api a s = (Inl e, s') \<longrightarrow> view s' = view s)"

text \<open>
  A delete that succeeds removes the object with the key, or marks it when a finalizer
  holds it back; one that fails changes nothing.
\<close>

definition mark_deleting :: "time \<Rightarrow> PortAllocation \<Rightarrow> PortAllocation" where
  "mark_deleting t a = a\<lparr>pa_ObjectMeta := (pa_ObjectMeta a)\<lparr>om_DeletionTimestamp := Some t\<rparr>\<rparr>"

definition deletes :: "('s, 'e) kube_client \<Rightarrow> ('s \<Rightarrow> cluster) \<Rightarrow> bool" where
  "deletes api view \<longleftrightarrow>
     (\<forall>a s s'. kc_DeleteAllocation api a s = (Inr (), s') \<longrightarrow>
        view s' = (view s)\<lparr>cl_Allocs := filter (\<lambda>b. alloc_key b \<noteq> alloc_key a) (cl_Allocs (view s))\<rparr> \<or>
        (\<exists>t. view s' = (view s)\<lparr>cl_Allocs :=
           map (\<lambda>b. if alloc_key b = alloc_key a then mark_deleting t b else b)
             (cl_Allocs (view s))\<rparr>)) \<and>
     (\<forall>a s e s'. kc_DeleteAllocation api a s = (Inl e, s') \<longrightarrow> view s' = view s)"

text \<open>
  No read fails: lists always answer, a pool that exists is found, and an allocation is not
  found only when it is not there.
\<close>

definition never_fails :: "('s, 'e) kube_client \<Rightarrow> ('s \<Rightarrow> cluster) \<Rightarrow> bool" where
  "never_fails api view \<longleftrightarrow>
     (\<forall>sel lim s. \<exists>l s'. kc_ListAllocations api sel lim s = (Inr l, s')) \<and>
     (\<forall>k s. nn_Name k \<in> (\<lambda>p. om_Name (np_ObjectMeta p)) ` set (cl_Pools (view s)) \<longrightarrow>
        (\<exists>p s'. kc_GetPool api k s = (Inr p, s'))) \<and>
     (\<forall>k s e s'. kc_GetAllocation api k s = (Inl e, s') \<longrightarrow> kc_IsNotFound api e)"

text \<open>
  The server creates an object in the namespaces that \<open>N\<close> allows, when its key is free, and in
  no others. For a namespaced resource \<open>N\<close> does not allow the empty namespace.
\<close>

definition creates_in :: "('s, 'e) kube_client \<Rightarrow> ('s \<Rightarrow> cluster) \<Rightarrow> (string \<Rightarrow> bool) \<Rightarrow> bool" where
  "creates_in api view N \<longleftrightarrow>
     (\<forall>a s. N (om_Namespace (pa_ObjectMeta a)) \<and> alloc_key a \<notin> alloc_key ` set (cl_Allocs (view s)) \<longrightarrow>
        (\<exists>b s'. kc_CreateAllocation api a s = (Inr b, s'))) \<and>
     (\<forall>a s b s'. kc_CreateAllocation api a s = (Inr b, s') \<longrightarrow> N (om_Namespace (pa_ObjectMeta a)))"

definition consistent_client :: "('s, 'e) kube_client \<Rightarrow> ('s \<Rightarrow> cluster) \<Rightarrow> bool" where
  "consistent_client api view \<longleftrightarrow>
     reads_preserve api view \<and> lists_current api view \<and> gets_current api view \<and>
     creates api view \<and> deletes api view"

lemma mark_deleting_simps [simp]:
  "pa_Spec (mark_deleting t a) = pa_Spec a"
  "alloc_key (mark_deleting t a) = alloc_key a"
  "om_Labels (pa_ObjectMeta (mark_deleting t a)) = om_Labels (pa_ObjectMeta a)"
  by (simp_all add: mark_deleting_def meta_key_def)

section \<open>Consequences the components use\<close>

lemma list_view:
  assumes "consistent_client api view" and "kc_ListAllocations api sel lim s = (r, s')"
  shows "view s' = view s"
  using assms unfolding consistent_client_def reads_preserve_def by blast

lemma get_pool_view:
  assumes "consistent_client api view" and "kc_GetPool api k s = (r, s')"
  shows "view s' = view s"
  using assms unfolding consistent_client_def reads_preserve_def by blast

lemma get_allocation_view:
  assumes "consistent_client api view" and "kc_GetAllocation api k s = (r, s')"
  shows "view s' = view s"
  using assms unfolding consistent_client_def reads_preserve_def by blast

lemma list_items:
  assumes "consistent_client api view" and "kc_ListAllocations api sel None s = (Inr l, s')"
  shows "set (al_Items l) = {a \<in> set (cl_Allocs (view s)). selected_by sel a}"
proof -
  have "lists_current api view" using assms(1) by (simp add: consistent_client_def)
  from this [unfolded lists_current_def, rule_format, OF assms(2)] show ?thesis by simp
qed

lemma list_distinct:
  assumes "consistent_client api view" and "kc_ListAllocations api sel None s = (Inr l, s')"
    and "distinct (cl_Allocs (view s))"
  shows "distinct (al_Items l)"
proof -
  have "lists_current api view" using assms(1) by (simp add: consistent_client_def)
  from this [unfolded lists_current_def, rule_format, OF assms(2)] assms(3) show ?thesis by simp
qed

lemma get_pool_found:
  assumes "consistent_client api view" and "kc_GetPool api k s = (Inr p, s')"
  shows "p \<in> set (cl_Pools (view s))" and "om_Name (np_ObjectMeta p) = nn_Name k"
  using assms unfolding consistent_client_def gets_current_def by blast+

lemma get_allocation_found:
  assumes "consistent_client api view" and "kc_GetAllocation api k s = (Inr a, s')"
  shows "a \<in> set (cl_Allocs (view s))" and "alloc_key a = k"
  using assms unfolding consistent_client_def gets_current_def by blast+

lemma create_Inr:
  assumes "consistent_client api view" and "kc_CreateAllocation api a s = (Inr b, s')"
  shows "same_content a b" and "alloc_key a \<notin> alloc_key ` set (cl_Allocs (view s))"
    and "view s' = (view s)\<lparr>cl_Allocs := b # cl_Allocs (view s)\<rparr>"
  using assms unfolding consistent_client_def creates_def by blast+

lemma create_Inl:
  assumes "consistent_client api view" and "kc_CreateAllocation api a s = (Inl e, s')"
  shows "view s' = view s"
  using assms unfolding consistent_client_def creates_def by blast

lemma delete_Inr:
  assumes "consistent_client api view" and "kc_DeleteAllocation api a s = (Inr (), s')"
  obtains (removed) "view s' = (view s)\<lparr>cl_Allocs :=
      filter (\<lambda>b. alloc_key b \<noteq> alloc_key a) (cl_Allocs (view s))\<rparr>"
  | (marked) t where "view s' = (view s)\<lparr>cl_Allocs :=
      map (\<lambda>b. if alloc_key b = alloc_key a then mark_deleting t b else b) (cl_Allocs (view s))\<rparr>"
  using assms unfolding consistent_client_def deletes_def by blast

lemma delete_Inl:
  assumes "consistent_client api view" and "kc_DeleteAllocation api a s = (Inl e, s')"
  shows "view s' = view s"
  using assms unfolding consistent_client_def deletes_def by blast

end
