(* ===== verification/Ledger.thy ===== *)
theory Ledger
  imports KubeClient
begin

text \<open>
  The abstract specification of what the allocator maintains: for every pool, which pod
  holds which slots (load balancer and port). The concrete state is the list of stored
  allocations; the abstraction function reads the ledger off it. The invariant says that
  in every pool no slot is held twice and no pod has two allocations. The lemmas give the
  effect on both of storing an allocation, removing one and marking one as deleting.
\<close>

section \<open>The allocations of a pool\<close>

definition in_pool :: "string \<Rightarrow> PortAllocation \<Rightarrow> bool" where
  "in_pool pool a \<longleftrightarrow> map_of (om_Labels (pa_ObjectMeta a)) LabelPoolNameKey = Some pool"

definition pool_allocs :: "cluster \<Rightarrow> string \<Rightarrow> PortAllocation list" where
  "pool_allocs c pool = filter (in_pool pool) (cl_Allocs c)"

definition pod_of :: "PortAllocation \<Rightarrow> string \<times> string" where
  "pod_of a = (pi_Namespace (pod_info a), pi_Name (pod_info a))"

lemma selected_by_pool [simp]: "selected_by [(LabelPoolNameKey, pool)] a = in_pool pool a"
  by (simp add: selected_by_def in_pool_def)

lemma set_pool_allocs: "a \<in> set (pool_allocs c pool) \<longleftrightarrow> a \<in> set (cl_Allocs c) \<and> in_pool pool a"
  by (auto simp: pool_allocs_def)

lemma in_pool_cong:
  "om_Labels (pa_ObjectMeta a) = om_Labels (pa_ObjectMeta b) \<Longrightarrow> in_pool pool a = in_pool pool b"
  by (simp add: in_pool_def)

lemma in_pool_mark [simp]: "in_pool pool (mark_deleting t a) = in_pool pool a"
  by (simp add: in_pool_def)

lemma pod_of_mark [simp]: "pod_of (mark_deleting t a) = pod_of a"
  by (simp add: pod_of_def)

section \<open>The invariant and the abstraction\<close>

definition pool_ok :: "cluster \<Rightarrow> string \<Rightarrow> bool" where
  "pool_ok c pool \<longleftrightarrow>
     distinct (slots (pool_allocs c pool)) \<and> distinct (map pod_of (pool_allocs c pool))"

definition ledger_ok :: "cluster \<Rightarrow> bool" where
  "ledger_ok c \<longleftrightarrow> (\<forall>pool. pool_ok c pool)"

type_synonym ledger = "string \<Rightarrow> (string \<times> string) \<rightharpoonup> (string \<times> int32) list"

definition ledger_of :: "cluster \<Rightarrow> ledger" where
  "ledger_of c pool = map_of (map (\<lambda>a. (pod_of a, map slot_of (bindings a))) (pool_allocs c pool))"

text \<open>The two operations of the specification.\<close>

definition reserve :: "ledger \<Rightarrow> string \<Rightarrow> string \<times> string \<Rightarrow> (string \<times> int32) list \<Rightarrow> ledger" where
  "reserve L pool pod held = L(pool := (L pool)(pod \<mapsto> held))"

definition free :: "ledger \<Rightarrow> string \<Rightarrow> string \<times> string \<Rightarrow> ledger" where
  "free L pool pod = L(pool := (L pool)(pod := None))"

text \<open>What the invariant means in the ledger: distinct pods hold disjoint sets of distinct slots.\<close>

definition exclusive :: "ledger \<Rightarrow> bool" where
  "exclusive L \<longleftrightarrow>
     (\<forall>pool pod held. L pool pod = Some held \<longrightarrow> distinct held \<and>
        (\<forall>pod' held'. pod' \<noteq> pod \<longrightarrow> L pool pod' = Some held' \<longrightarrow> set held \<inter> set held' = {}))"

lemma ledger_lookup:
  "ledger_of c pool pod = Some held \<Longrightarrow>
     \<exists>a\<in>set (pool_allocs c pool). pod_of a = pod \<and> map slot_of (bindings a) = held"
  by (auto simp: ledger_of_def dest!: map_of_SomeD)

lemma ledger_dom: "ledger_of c pool pod = None \<longleftrightarrow> pod \<notin> pod_of ` set (pool_allocs c pool)"
  by (auto simp: ledger_of_def map_of_eq_None_iff image_image)

lemma distinct_slots_disjoint:
  assumes "distinct (slots as)" and "a \<in> set as" and "b \<in> set as" and "a \<noteq> b"
  shows "set (map slot_of (bindings a)) \<inter> set (map slot_of (bindings b)) = {}"
  using assms
proof (induction as)
  case Nil
  then show ?case by simp
next
  case (Cons x xs)
  have "set (map slot_of (bindings y)) \<subseteq> set (slots xs)" if "y \<in> set xs" for y
    using that by (auto simp: slots_def set_all_bindings)
  with Cons show ?case by fastforce
qed

lemma distinct_slots_one: "distinct (slots as) \<Longrightarrow> a \<in> set as \<Longrightarrow> distinct (map slot_of (bindings a))"
  by (induction as) auto

lemma ledger_ok_exclusive:
  assumes "ledger_ok c"
  shows "exclusive (ledger_of c)"
proof -
  have d: "distinct (slots (pool_allocs c pool))" for pool
    using assms by (simp add: ledger_ok_def pool_ok_def)
  have "set held \<inter> set held' = {}"
    if h: "ledger_of c pool pod = Some held" "ledger_of c pool pod' = Some held'" "pod' \<noteq> pod"
    for pool pod held pod' held'
  proof -
    from ledger_lookup [OF h(1)] obtain a where a: "a \<in> set (pool_allocs c pool)" "pod_of a = pod"
      "map slot_of (bindings a) = held" by blast
    from ledger_lookup [OF h(2)] obtain b where b: "b \<in> set (pool_allocs c pool)" "pod_of b = pod'"
      "map slot_of (bindings b) = held'" by blast
    from a b h(3) have "a \<noteq> b" by auto
    from distinct_slots_disjoint [OF d a(1) b(1) this] a(3) b(3) show ?thesis by simp
  qed
  moreover have "distinct held" if "ledger_of c pool pod = Some held" for pool pod held
    using ledger_lookup [OF that] distinct_slots_one [OF d] by auto
  ultimately show ?thesis unfolding exclusive_def by blast
qed

section \<open>Storing an allocation\<close>

abbreviation store_alloc :: "PortAllocation \<Rightarrow> cluster \<Rightarrow> cluster" where
  "store_alloc a c \<equiv> c\<lparr>cl_Allocs := a # cl_Allocs c\<rparr>"

lemma pool_allocs_store:
  "pool_allocs (store_alloc a c) pool = (if in_pool pool a then a # pool_allocs c pool else pool_allocs c pool)"
  by (simp add: pool_allocs_def)

definition grantable :: "cluster \<Rightarrow> string \<Rightarrow> PortAllocation \<Rightarrow> bool" where
  "grantable c pool a \<longleftrightarrow>
     om_Labels (pa_ObjectMeta a) = [(LabelPoolNameKey, pool), (LabelPodNameKey, snd (pod_of a))] \<and>
     pod_of a \<notin> pod_of ` set (pool_allocs c pool) \<and>
     distinct (map slot_of (bindings a)) \<and>
     set (map slot_of (bindings a)) \<inter> set (slots (pool_allocs c pool)) = {}"

lemma grantable_in_pool: "grantable c pool a \<Longrightarrow> in_pool p a \<longleftrightarrow> p = pool"
  by (auto simp: grantable_def in_pool_def)

lemma ledger_ok_store:
  assumes "ledger_ok c" and "grantable c pool a"
  shows "ledger_ok (store_alloc a c)"
  using assms grantable_in_pool [OF assms(2)]
  by (auto simp: ledger_ok_def pool_ok_def pool_allocs_store grantable_def)

lemma ledger_store:
  assumes "grantable c pool a"
  shows "ledger_of (store_alloc a c) = reserve (ledger_of c) pool (pod_of a) (map slot_of (bindings a))"
  using grantable_in_pool [OF assms]
  by (auto simp: fun_eq_iff ledger_of_def reserve_def pool_allocs_store)

section \<open>Removing and marking\<close>

abbreviation remove_key :: "namespaced_name \<Rightarrow> cluster \<Rightarrow> cluster" where
  "remove_key k c \<equiv> c\<lparr>cl_Allocs := filter (\<lambda>b. alloc_key b \<noteq> k) (cl_Allocs c)\<rparr>"

abbreviation mark_key :: "time \<Rightarrow> namespaced_name \<Rightarrow> cluster \<Rightarrow> cluster" where
  "mark_key t k c \<equiv> c\<lparr>cl_Allocs := map (\<lambda>b. if alloc_key b = k then mark_deleting t b else b) (cl_Allocs c)\<rparr>"

lemma pool_allocs_remove:
  "pool_allocs (remove_key k c) pool = filter (\<lambda>b. alloc_key b \<noteq> k) (pool_allocs c pool)"
  by (simp add: pool_allocs_def conj_commute)

lemma pool_allocs_mark:
  "pool_allocs (mark_key t k c) pool =
     map (\<lambda>b. if alloc_key b = k then mark_deleting t b else b) (pool_allocs c pool)"
proof -
  have "filter (in_pool pool) (map (\<lambda>b. if alloc_key b = k then mark_deleting t b else b) as) =
      map (\<lambda>b. if alloc_key b = k then mark_deleting t b else b) (filter (in_pool pool) as)" for as
    by (induction as) auto
  then show ?thesis by (simp add: pool_allocs_def)
qed

lemma distinct_map_filter_sub: "distinct (map f xs) \<Longrightarrow> distinct (map f (filter P xs))"
  by (induction xs) auto

lemma ledger_ok_remove: "ledger_ok c \<Longrightarrow> ledger_ok (remove_key k c)"
  by (simp add: ledger_ok_def pool_ok_def pool_allocs_remove distinct_slots_filter distinct_map_filter_sub)

lemma slots_mark [simp]: "slots (map (\<lambda>b. if P b then mark_deleting t b else b) as) = slots as"
  by (rule slots_map_cong) simp

lemma pods_mark [simp]:
  "map (pod_of \<circ> (\<lambda>b. if P b then mark_deleting t b else b)) as = map pod_of as"
  by simp

lemma ledger_ok_mark: "ledger_ok c \<Longrightarrow> ledger_ok (mark_key t k c)"
  by (simp add: ledger_ok_def pool_ok_def pool_allocs_mark)

lemma mark_if [simp]:
  "pod_of (if P then mark_deleting t b else b) = pod_of b"
  "pa_Spec (if P then mark_deleting t b else b) = pa_Spec b"
  by simp_all

lemma ledger_mark: "ledger_of (mark_key t k c) = ledger_of c"
  by (simp add: fun_eq_iff ledger_of_def pool_allocs_mark comp_def del: if_split)

text \<open>
  Removing by key takes the one entry out of the ledger when the keys of the stored
  allocations are distinct, as they are in the API server.
\<close>

lemma map_of_filter_key:
  assumes "distinct (map pod_of as)" and "a \<in> set as"
    and "\<And>b. b \<in> set as \<Longrightarrow> alloc_key b = alloc_key a \<Longrightarrow> b = a"
  shows "map_of (map (\<lambda>a. (pod_of a, f a)) (filter (\<lambda>b. alloc_key b \<noteq> alloc_key a) as)) =
    (map_of (map (\<lambda>a. (pod_of a, f a)) as))(pod_of a := None)"
proof
  fix pod
  have keep: "alloc_key b \<noteq> alloc_key a \<longleftrightarrow> pod_of b \<noteq> pod_of a" if "b \<in> set as" for b
    using that assms by (auto simp: distinct_map inj_on_def)
  have "map_of (map (\<lambda>a. (pod_of a, f a)) (filter (\<lambda>b. alloc_key b \<noteq> alloc_key a) bs)) pod =
      ((map_of (map (\<lambda>a. (pod_of a, f a)) bs))(pod_of a := None)) pod"
    if "set bs \<subseteq> set as" for bs
    using that keep by (induction bs) auto
  then show "map_of (map (\<lambda>a. (pod_of a, f a)) (filter (\<lambda>b. alloc_key b \<noteq> alloc_key a) as)) pod =
      ((map_of (map (\<lambda>a. (pod_of a, f a)) as))(pod_of a := None)) pod"
    by simp
qed

definition keys_distinct :: "cluster \<Rightarrow> bool" where
  "keys_distinct c \<longleftrightarrow> distinct (map alloc_key (cl_Allocs c))"

lemma keys_distinctD:
  "keys_distinct c \<Longrightarrow> a \<in> set (cl_Allocs c) \<Longrightarrow> b \<in> set (cl_Allocs c) \<Longrightarrow> alloc_key a = alloc_key b \<Longrightarrow> a = b"
  by (auto simp: keys_distinct_def distinct_map inj_on_def)

lemma ledger_remove:
  assumes "ledger_ok c" and "keys_distinct c" and "a \<in> set (cl_Allocs c)" and "in_pool pool a"
  shows "ledger_of (remove_key (alloc_key a) c) = free (ledger_of c) pool (pod_of a)"
proof
  fix q
  have one: "b = a" if "b \<in> set (cl_Allocs c)" "alloc_key b = alloc_key a" for b
    using keys_distinctD [OF assms(2) that(1) assms(3) that(2)] .
  show "ledger_of (remove_key (alloc_key a) c) q = free (ledger_of c) pool (pod_of a) q"
  proof (cases "q = pool")
    case True
    have "distinct (map pod_of (pool_allocs c pool))" "a \<in> set (pool_allocs c pool)"
      using assms by (auto simp: ledger_ok_def pool_ok_def set_pool_allocs)
    from map_of_filter_key [OF this] one True show ?thesis
      by (simp add: ledger_of_def free_def pool_allocs_remove set_pool_allocs)
  next
    case False
    then have "\<not> in_pool q a" using assms(4) by (simp add: in_pool_def)
    then have "filter (\<lambda>b. alloc_key b \<noteq> alloc_key a) (pool_allocs c q) = pool_allocs c q"
      using one by (intro filter_True ballI notI) (metis set_pool_allocs)
    with False show ?thesis by (simp add: ledger_of_def free_def pool_allocs_remove)
  qed
qed

end
