(* ===== verification/MemClient.thy ===== *)
theory MemClient
  imports KubeClient SampleData
begin

text \<open>
  A client for the witnesses to run on: operations over a cluster held in memory (the
  role the fake client plays in the repository's tests), shown to behave as
  \<^const>\<open>consistent_client\<close> asks. No component refers to this theory in a definition.
\<close>

section \<open>An in-memory client\<close>

datatype mem_error = MemNotFound | MemAlreadyExists | MemConflict

type_synonym mem_client = "(cluster, mem_error) kube_client"

definition mem_get_pool :: "namespaced_name \<Rightarrow> cluster \<Rightarrow> (mem_error + ApolloNetworkPool) \<times> cluster" where
  "mem_get_pool k c =
     (case filter (\<lambda>p. om_Name (np_ObjectMeta p) = nn_Name k) (cl_Pools c) of
        [] \<Rightarrow> (Inl MemNotFound, c) | p # _ \<Rightarrow> (Inr p, c))"

definition mem_get_alloc :: "namespaced_name \<Rightarrow> cluster \<Rightarrow> (mem_error + PortAllocation) \<times> cluster" where
  "mem_get_alloc k c =
     (case filter (\<lambda>a. alloc_key a = k) (cl_Allocs c) of
        [] \<Rightarrow> (Inl MemNotFound, c) | a # _ \<Rightarrow> (Inr a, c))"

definition mem_get_pod :: "namespaced_name \<Rightarrow> cluster \<Rightarrow> (mem_error + Pod) \<times> cluster" where
  "mem_get_pod k c =
     (case filter (\<lambda>p. meta_key (po_ObjectMeta p) = k) (cl_Pods c) of
        [] \<Rightarrow> (Inl MemNotFound, c) | p # _ \<Rightarrow> (Inr p, c))"

definition mem_list ::
  "(string, string) gomap \<Rightarrow> nat option \<Rightarrow> cluster \<Rightarrow> (mem_error + PortAllocationList) \<times> cluster" where
  "mem_list sel lim c =
     (let matching = filter (selected_by sel) (cl_Allocs c) in
      (Inr \<lparr>al_Items = (case lim of None \<Rightarrow> matching | Some n \<Rightarrow> take n matching)\<rparr>, c))"

definition mem_create :: "PortAllocation \<Rightarrow> cluster \<Rightarrow> (mem_error + PortAllocation) \<times> cluster" where
  "mem_create a c =
     (if alloc_key a \<in> alloc_key ` set (cl_Allocs c) then (Inl MemAlreadyExists, c)
      else (Inr a, c\<lparr>cl_Allocs := a # cl_Allocs c\<rparr>))"

definition mem_delete :: "PortAllocation \<Rightarrow> cluster \<Rightarrow> (mem_error + unit) \<times> cluster" where
  "mem_delete a c =
     (if alloc_key a \<in> alloc_key ` set (cl_Allocs c)
      then (Inr (), c\<lparr>cl_Allocs := filter (\<lambda>b. alloc_key b \<noteq> alloc_key a) (cl_Allocs c)\<rparr>)
      else (Inl MemNotFound, c))"

definition mem_patch_pod :: "Pod \<Rightarrow> Pod \<Rightarrow> cluster \<Rightarrow> (mem_error + Pod) \<times> cluster" where
  "mem_patch_pod base new c =
     (Inr new, c\<lparr>cl_Pods := map (\<lambda>p. if meta_key (po_ObjectMeta p) = meta_key (po_ObjectMeta new)
        then p\<lparr>po_ObjectMeta := (po_ObjectMeta p)\<lparr>om_Finalizers := om_Finalizers (po_ObjectMeta new)\<rparr>\<rparr>
        else p) (cl_Pods c)\<rparr>)"

definition mem_update_status :: "ApolloNetworkPool \<Rightarrow> cluster \<Rightarrow> (mem_error + ApolloNetworkPool) \<times> cluster" where
  "mem_update_status np c =
     (Inr np, c\<lparr>cl_Pools := map (\<lambda>p. if om_Name (np_ObjectMeta p) = om_Name (np_ObjectMeta np)
        then p\<lparr>np_Status := stored_status (np_Status np)\<rparr> else p) (cl_Pools c)\<rparr>)"

definition mem_api :: mem_client where
  "mem_api =
     \<lparr>kc_GetPool = mem_get_pool, kc_GetAllocation = mem_get_alloc, kc_GetPod = mem_get_pod,
      kc_ListAllocations = mem_list, kc_CreateAllocation = mem_create,
      kc_DeleteAllocation = mem_delete, kc_PatchPod = mem_patch_pod,
      kc_UpdatePoolStatus = mem_update_status,
      kc_IsNotFound = (\<lambda>e. e = MemNotFound), kc_IsConflict = (\<lambda>e. e = MemConflict),
      kc_Now = (\<lambda>_. 0)\<rparr>"

lemma mem_api_sel [simp]:
  "kc_GetPool mem_api = mem_get_pool" "kc_GetAllocation mem_api = mem_get_alloc"
  "kc_GetPod mem_api = mem_get_pod" "kc_ListAllocations mem_api = mem_list"
  "kc_CreateAllocation mem_api = mem_create" "kc_DeleteAllocation mem_api = mem_delete"
  "kc_PatchPod mem_api = mem_patch_pod" "kc_UpdatePoolStatus mem_api = mem_update_status"
  "kc_IsNotFound mem_api e \<longleftrightarrow> e = MemNotFound" "kc_IsConflict mem_api e \<longleftrightarrow> e = MemConflict"
  "kc_Now mem_api c = 0"
  by (simp_all add: mem_api_def)

lemmas mem_defs =
  mem_api_def mem_get_pool_def mem_get_alloc_def mem_get_pod_def mem_list_def
  mem_create_def mem_delete_def mem_patch_pod_def mem_update_status_def

text \<open>The retry that the witnesses run with: the documented one.\<close>

definition mem_retry :: "('c, mem_error error) retrier" where
  "mem_retry fn c = retry_runs (is_conflict mem_api) fn 4 c"

lemma mem_retries [simp]: "retries_on_conflict mem_api mem_retry"
  by (simp add: retries_on_conflict_def mem_retry_def)

lemma mem_retry_once: "mem_retry fn c = (case fn c of
    (Some e, c') \<Rightarrow> if is_conflict mem_api e then retry_runs (is_conflict mem_api) fn 3 c' else (Some e, c')
  | (None, c') \<Rightarrow> (None, c'))"
proof -
  have "(4::nat) = Suc 3" by simp
  then show ?thesis unfolding mem_retry_def by (metis retry_runs.simps(2))
qed

lemma filter_Cons_mem: "filter P xs = y # ys \<Longrightarrow> y \<in> set xs \<and> P y"
  by (auto dest: filter_eq_ConsD)

lemma mem_get_alloc_Inr: "mem_get_alloc k c = (Inr a, c') \<Longrightarrow> a \<in> set (cl_Allocs c) \<and> alloc_key a = k"
  by (auto simp: mem_get_alloc_def split: list.splits dest: filter_Cons_mem)

lemma mem_get_alloc_Inl: "mem_get_alloc k c = (Inl e, c') \<Longrightarrow> k \<notin> alloc_key ` set (cl_Allocs c)"
  by (auto simp: mem_get_alloc_def filter_empty_conv split: list.splits)

lemma mem_get_pool_Inr:
  "mem_get_pool k c = (Inr p, c') \<Longrightarrow> p \<in> set (cl_Pools c) \<and> om_Name (np_ObjectMeta p) = nn_Name k"
  by (auto simp: mem_get_pool_def split: list.splits dest: filter_Cons_mem)

lemma mem_reads: "reads_preserve mem_api (\<lambda>c. c)"
  by (auto simp: reads_preserve_def mem_defs Let_def split: list.splits)

lemma mem_lists: "lists_current mem_api (\<lambda>c. c)"
  by (auto simp: lists_current_def mem_defs Let_def split: option.splits dest: in_set_takeD)

lemma mem_gets: "gets_current mem_api (\<lambda>c. c)"
  unfolding gets_current_def
  by (simp add: mem_api_def) (blast dest: mem_get_pool_Inr mem_get_alloc_Inr mem_get_alloc_Inl)

lemma mem_creates: "creates mem_api (\<lambda>c. c)"
  by (auto simp: creates_def mem_api_def mem_create_def same_content_def split: if_splits)

lemma mem_deletes: "deletes mem_api (\<lambda>c. c)"
  by (auto simp: deletes_def mem_api_def mem_delete_def split: if_splits)

lemma mem_consistent [simp]: "consistent_client mem_api (\<lambda>c. c)"
  by (simp add: consistent_client_def mem_reads mem_lists mem_gets mem_creates mem_deletes)

lemma mem_never_fails [simp]: "never_fails mem_api (\<lambda>c. c)"
proof -
  have "\<exists>p c'. mem_get_pool k c = (Inr p, c')"
    if "nn_Name k \<in> (\<lambda>p. om_Name (np_ObjectMeta p)) ` set (cl_Pools c)" for k c
    using that by (auto simp: mem_get_pool_def filter_empty_conv split: list.splits)
  moreover have "e = MemNotFound" if "mem_get_alloc k c = (Inl e, c')" for k c e c'
    using that by (auto simp: mem_get_alloc_def split: list.splits)
  ultimately show ?thesis
    by (auto simp: never_fails_def mem_list_def Let_def)
qed

text \<open>It takes any namespace.\<close>

lemma mem_creates_in: "creates_in mem_api (\<lambda>c. c) (\<lambda>ns. True)"
  by (auto simp: creates_in_def mem_api_def mem_create_def)

definition demo_cluster :: "ApolloNetworkPool list \<Rightarrow> PortAllocation list \<Rightarrow> cluster" where
  "demo_cluster pools as = \<lparr>cl_Pools = pools, cl_Allocs = as, cl_Pods = []\<rparr>"

end
