(* ===== verification/Manager.thy ===== *)
theory Manager
  imports Ledger MemClient
begin

text \<open>
  What the reconcilers share of controller-runtime: the result of a reconcile call, the
  request it is made for, and the objects that watches and caches hand over as
  interface values; and the documented behaviour of the two writes only they make, the
  status update of a pool and the patch of a pod.
\<close>

section \<open>Requests, results and objects\<close>

text \<open>\<open>ctrl.Result\<close>; the time is in nanoseconds, Go's \<open>time.Duration\<close>.\<close>

record ctrl_result =
  cr_RequeueAfter :: int

definition zero_result :: ctrl_result where
  "zero_result = \<lparr>cr_RequeueAfter = 0\<rparr>"

definition Minute :: int where
  "Minute = 60 * 1000000000"

type_synonym request = namespaced_name

text \<open>An interface value, for the type assertions of the code: its dynamic type and value.\<close>

datatype api_object = PodObject Pod | PoolObject ApolloNetworkPool | AllocationObject PortAllocation | OtherObject string

section \<open>Documented behaviour of the writes\<close>

text \<open>
  A status update that succeeds replaces the status of the stored pool of that name by what
  the server keeps of the new one, and nothing else but server-side metadata; one that fails
  changes nothing.
\<close>

definition pool_with_status :: "ApolloNetworkPool \<Rightarrow> ApolloNetworkPool \<Rightarrow> ApolloNetworkPool \<Rightarrow> bool" where
  "pool_with_status np p q \<longleftrightarrow>
     np_Spec q = np_Spec p \<and> om_Name (np_ObjectMeta q) = om_Name (np_ObjectMeta p) \<and>
     om_Namespace (np_ObjectMeta q) = om_Namespace (np_ObjectMeta p) \<and>
     np_Status q =
       (if om_Name (np_ObjectMeta p) = om_Name (np_ObjectMeta np) then stored_status (np_Status np) else np_Status p)"

definition updates_status :: "('s, 'e) kube_client \<Rightarrow> ('s \<Rightarrow> cluster) \<Rightarrow> bool" where
  "updates_status api view \<longleftrightarrow>
     (\<forall>np s r s'. kc_UpdatePoolStatus api np s = (Inr r, s') \<longrightarrow>
        list_all2 (pool_with_status np) (cl_Pools (view s)) (cl_Pools (view s')) \<and>
        cl_Allocs (view s') = cl_Allocs (view s) \<and> cl_Pods (view s') = cl_Pods (view s)) \<and>
     (\<forall>np s e s'. kc_UpdatePoolStatus api np s = (Inl e, s') \<longrightarrow> view s' = view s)"

text \<open>
  A get of a pod returns the stored pod with the key, or not-found when there is none.
\<close>

definition gets_pods :: "('s, 'e) kube_client \<Rightarrow> ('s \<Rightarrow> cluster) \<Rightarrow> bool" where
  "gets_pods api view \<longleftrightarrow>
     (\<forall>k s p s'. kc_GetPod api k s = (Inr p, s') \<longrightarrow>
        p \<in> set (cl_Pods (view s)) \<and> meta_key (po_ObjectMeta p) = k) \<and>
     (\<forall>k s e s'. kc_GetPod api k s = (Inl e, s') \<and> kc_IsNotFound api e \<longrightarrow>
        k \<notin> (\<lambda>p. meta_key (po_ObjectMeta p)) ` set (cl_Pods (view s)))"

text \<open>
  A merge patch sends the difference of the two objects. The code only ever changes the
  finalizers, and then a patch that succeeds gives the stored pod of that key the new
  finalizers (the server removes a pod that is being deleted when it has none left), and
  leaves everything else alone; one that fails changes nothing.
\<close>

definition patched_pod :: "Pod \<Rightarrow> Pod \<Rightarrow> Pod \<Rightarrow> bool" where
  "patched_pod new p q \<longleftrightarrow>
     meta_key (po_ObjectMeta q) = meta_key (po_ObjectMeta p) \<and>
     om_Annotations (po_ObjectMeta q) = om_Annotations (po_ObjectMeta p) \<and>
     om_DeletionTimestamp (po_ObjectMeta q) = om_DeletionTimestamp (po_ObjectMeta p) \<and>
     po_Spec q = po_Spec p \<and> po_Status q = po_Status p \<and>
     om_Finalizers (po_ObjectMeta q) =
       (if meta_key (po_ObjectMeta p) = meta_key (po_ObjectMeta new)
        then om_Finalizers (po_ObjectMeta new) else om_Finalizers (po_ObjectMeta p))"

definition patches_pods :: "('s, 'e) kube_client \<Rightarrow> ('s \<Rightarrow> cluster) \<Rightarrow> bool" where
  "patches_pods api view \<longleftrightarrow>
     (\<forall>base new s r s'. kc_PatchPod api base new s = (Inr r, s') \<longrightarrow>
        (\<exists>kept. list_all2 (patched_pod new) kept (cl_Pods (view s')) \<and>
           (kept = cl_Pods (view s) \<or>
            om_Finalizers (po_ObjectMeta new) = [] \<and> om_DeletionTimestamp (po_ObjectMeta new) \<noteq> None \<and>
            kept = filter (\<lambda>p. meta_key (po_ObjectMeta p) \<noteq> meta_key (po_ObjectMeta new)) (cl_Pods (view s)))) \<and>
        cl_Allocs (view s') = cl_Allocs (view s) \<and> cl_Pools (view s') = cl_Pools (view s)) \<and>
     (\<forall>base new s e s'. kc_PatchPod api base new s = (Inl e, s') \<longrightarrow> view s' = view s)"

lemma mem_updates_status: "updates_status mem_api (\<lambda>c. c)"
  by (auto simp: updates_status_def mem_update_status_def pool_with_status_def list_all2_conv_all_nth)

lemma mem_gets_pods: "gets_pods mem_api (\<lambda>c. c)"
  by (auto simp: gets_pods_def mem_get_pod_def filter_empty_conv split: list.splits dest: filter_Cons_mem)

lemma mem_patches_pods: "patches_pods mem_api (\<lambda>c. c)"
  by (auto simp: patches_pods_def mem_patch_pod_def patched_pod_def meta_key_def list_all2_conv_all_nth)

lemma get_pod_view:
  assumes "consistent_client api view" and "kc_GetPod api k s = (r, s')"
  shows "view s' = view s"
  using assms unfolding consistent_client_def reads_preserve_def by blast

section \<open>Finalizers\<close>

text \<open>
  The functions of controllerutil that read and change the finalizers of a pod are a
  parameter, with the behaviour their documentation gives.
\<close>

record finalizer_ops =
  fz_Contains :: "Pod \<Rightarrow> string \<Rightarrow> bool"
  fz_Add :: "Pod \<Rightarrow> string \<Rightarrow> Pod"
  fz_Remove :: "Pod \<Rightarrow> string \<Rightarrow> Pod"

definition with_finalizers :: "string list \<Rightarrow> Pod \<Rightarrow> Pod" where
  "with_finalizers fs p = p\<lparr>po_ObjectMeta := (po_ObjectMeta p)\<lparr>om_Finalizers := fs\<rparr>\<rparr>"

definition finalizer_laws :: "finalizer_ops \<Rightarrow> bool" where
  "finalizer_laws fz \<longleftrightarrow>
     (\<forall>p f. fz_Contains fz p f \<longleftrightarrow> f \<in> set (om_Finalizers (po_ObjectMeta p))) \<and>
     (\<forall>p f. fz_Add fz p f =
        (if f \<in> set (om_Finalizers (po_ObjectMeta p)) then p
         else with_finalizers (om_Finalizers (po_ObjectMeta p) @ [f]) p)) \<and>
     (\<forall>p f. fz_Remove fz p f = with_finalizers (filter (\<lambda>g. g \<noteq> f) (om_Finalizers (po_ObjectMeta p))) p)"

definition mem_finalizers :: finalizer_ops where
  "mem_finalizers =
     \<lparr>fz_Contains = (\<lambda>p f. f \<in> set (om_Finalizers (po_ObjectMeta p))),
      fz_Add = (\<lambda>p f. if f \<in> set (om_Finalizers (po_ObjectMeta p)) then p
        else with_finalizers (om_Finalizers (po_ObjectMeta p) @ [f]) p),
      fz_Remove = (\<lambda>p f. with_finalizers (filter (\<lambda>g. g \<noteq> f) (om_Finalizers (po_ObjectMeta p))) p)\<rparr>"

lemma mem_finalizer_laws [simp]: "finalizer_laws mem_finalizers"
  by (simp add: finalizer_laws_def mem_finalizers_def)

lemma mem_contains: "fz_Contains mem_finalizers p f \<longleftrightarrow> f \<in> set (om_Finalizers (po_ObjectMeta p))"
  by (simp add: mem_finalizers_def)

lemma with_finalizers_simps [simp]:
  "om_Finalizers (po_ObjectMeta (with_finalizers fs p)) = fs"
  "meta_key (po_ObjectMeta (with_finalizers fs p)) = meta_key (po_ObjectMeta p)"
  "om_DeletionTimestamp (po_ObjectMeta (with_finalizers fs p)) = om_DeletionTimestamp (po_ObjectMeta p)"
  by (simp_all add: with_finalizers_def meta_key_def)

end
