(* ===== verification/PortSearch.thy ===== *)
theory PortSearch
  imports MemClient
begin

text \<open>
  The port arithmetic of the allocator (pkg/allocator/allocate.go): how many ports a load
  balancer has in use (getLBPortUsage), whether enough are left (hasAvailablePorts) and
  which ones (findAvailablePorts), over a snapshot of a pool and its allocations. All of
  it is \<open>int32\<close> arithmetic. The last section states the contract the rest of the
  allocator relies on as a locale and interprets it.
\<close>

section \<open>The operations\<close>

record poolAndAllocations =
  pna_pool :: ApolloNetworkPool
  pna_allocations :: PortAllocationList

definition getLBPortUsage :: "PortAllocationList \<Rightarrow> LoadBalancerRef \<Rightarrow> int32" where
  "getLBPortUsage allocationList lb =
     fold (\<lambda>allocation usage.
       fold (\<lambda>binding usage.
           if lb_ID (pb_LoadBalancerRef binding) = lb_ID lb then usage + 1 else usage)
         (as_PortBindings (pa_Spec allocation)) usage)
       (al_Items allocationList) 0"

definition hasAvailablePorts :: "poolAndAllocations \<Rightarrow> LoadBalancerRef \<Rightarrow> int \<Rightarrow> bool" where
  "hasAvailablePorts existAllocation lb portCount =
     (let usage = getLBPortUsage (pna_allocations existAllocation) lb;
          range = port_range (pna_pool existAllocation);
          totalPorts = pr_Max range - pr_Min range + 1 - to_int32 (int (length (pr_ExcludedPorts range)));
          availablePorts = totalPorts - usage
      in to_int32 portCount <=s availablePorts)"

text \<open>
  The search loop. \<open>port++\<close> wraps around at the largest \<open>int32\<close>, so when Max is
  that value the condition \<open>port <= Max\<close> never fails and only finding enough ports
  ends the loop: the result is \<open>None\<close> when it does not end.
\<close>

partial_function (option) search_loop ::
  "(int32, bool) gomap \<Rightarrow> int32 \<Rightarrow> int \<Rightarrow> int32 \<Rightarrow> int32 list \<Rightarrow> int32 list option" where
  "search_loop allocatedPorts maxPort count port availablePorts =
     (if port <=s maxPort \<and> int (length availablePorts) < count
      then search_loop allocatedPorts maxPort count (port + 1)
             (if \<not> gm_get False allocatedPorts port then availablePorts @ [port] else availablePorts)
      else Some availablePorts)"

definition excluded_or_allocated :: "poolAndAllocations \<Rightarrow> LoadBalancerRef \<Rightarrow> (int32, bool) gomap" where
  "excluded_or_allocated existAllocation lb =
     (let allocatedPorts =
        (if length (al_Items (pna_allocations existAllocation)) > 0
         then GetAllocatedPortsByLB (pna_allocations existAllocation) (lb_ID lb) else [])
      in fold (\<lambda>port m. gm_put port True m)
           (pr_ExcludedPorts (port_range (pna_pool existAllocation))) allocatedPorts)"

definition findAvailablePorts ::
  "poolAndAllocations \<Rightarrow> LoadBalancerRef \<Rightarrow> int \<Rightarrow> 'e error + int32 list" where
  "findAvailablePorts existAllocation lb count =
     (if count \<le> 0 then Inl (PortCountNotPositive count)
      else
        let allocatedPorts = excluded_or_allocated existAllocation lb;
            range = port_range (pna_pool existAllocation)
        in case search_loop allocatedPorts (pr_Max range) count (pr_Min range) [] of
             None \<Rightarrow> Inl NeverReturns
           | Some availablePorts \<Rightarrow>
               if int (length availablePorts) < count
               then Inl (OnlyFoundPorts (length availablePorts) count (lb_ID lb)
                           (pr_Min range) (pr_Max range))
               else Inr availablePorts)"

section \<open>The abstract specification: the free ports of a load balancer\<close>

definition taken_ports :: "poolAndAllocations \<Rightarrow> string \<Rightarrow> int32 set" where
  "taken_ports sn lid =
     ports_on_lb (al_Items (pna_allocations sn)) lid \<union>
     set (pr_ExcludedPorts (port_range (pna_pool sn)))"

definition ports_between :: "int32 \<Rightarrow> int32 \<Rightarrow> int32 list" where
  "ports_between lo hi = map word_of_int [sint lo..sint hi]"

text \<open>The ports that may be handed out, in ascending order.\<close>

definition free_ports :: "poolAndAllocations \<Rightarrow> string \<Rightarrow> int32 list" where
  "free_ports sn lid =
     filter (\<lambda>p. p \<notin> taken_ports sn lid)
       (ports_between (pr_Min (port_range (pna_pool sn))) (pr_Max (port_range (pna_pool sn))))"

lemma finite_taken_ports [simp]: "finite (taken_ports sn lid)"
  by (simp add: taken_ports_def)

lemma excluded_or_allocated_lookup:
  "gm_get False (excluded_or_allocated sn lb) p \<longleftrightarrow> p \<in> taken_ports sn (lb_ID lb)"
proof -
  have put_all: "gm_get False (fold (\<lambda>p m. gm_put p True m) ps m) k \<longleftrightarrow>
      gm_get False m k \<or> k \<in> set ps" for ps :: "int32 list" and m k
    by (induction ps arbitrary: m) (auto simp: go_simps)
  show ?thesis
    by (auto simp: excluded_or_allocated_def Let_def put_all GetAllocatedPortsByLB_lookup
        taken_ports_def go_simps ports_on_lb_def)
qed

lemma set_ports_between: "set (ports_between lo hi) = {p. lo <=s p \<and> p <=s hi}"
proof -
  have "x \<in> word_of_int ` {sint lo..sint hi}" if "sint lo \<le> sint x" "sint x \<le> sint hi" for x :: int32
    using that by (intro image_eqI [of _ _ "sint x"]) auto
  moreover have "sint (word_of_int i :: int32) = i" if "sint lo \<le> i" "i \<le> sint hi" for i
    using that sint32_range [of lo] sint32_range [of hi] by (intro sint32_word_of_int) auto
  ultimately show ?thesis
    by (auto simp: ports_between_def word_sle_eq)
qed

lemma sint_ports_between: "map sint (ports_between lo hi) = [sint lo..sint hi]"
proof -
  have "sint (word_of_int i :: int32) = i" if "i \<in> set [sint lo..sint hi]" for i
    using that sint32_range [of lo] sint32_range [of hi] by (intro sint32_word_of_int) auto
  then have "map (\<lambda>i. sint (word_of_int i :: int32)) [sint lo..sint hi] = [sint lo..sint hi]"
    by (intro map_idI) auto
  then show ?thesis by (simp add: ports_between_def comp_def)
qed

lemma distinct_ports_between [simp]: "distinct (ports_between lo hi)"
  using distinct_map [of sint "ports_between lo hi"] by (simp add: sint_ports_between)

lemma length_ports_between: "int (length (ports_between lo hi)) = max 0 (sint hi - sint lo + 1)"
  by (simp add: ports_between_def)

lemma ports_between_empty: "sint hi < sint lo \<Longrightarrow> ports_between lo hi = []"
  by (simp add: ports_between_def)

lemma ports_between_Cons:
  assumes "sint lo \<le> sint hi" and "sint hi < 2 ^ 31 - 1"
  shows "ports_between lo hi = lo # ports_between (lo + 1) hi"
  using assms sint32_succ [of lo] by (simp add: ports_between_def upto_rec1)

lemma set_free_ports:
  "p \<in> set (free_ports sn lid) \<longleftrightarrow>
     pr_Min (port_range (pna_pool sn)) <=s p \<and> p <=s pr_Max (port_range (pna_pool sn)) \<and>
     p \<notin> taken_ports sn lid"
  by (auto simp: free_ports_def set_ports_between)

lemma distinct_free_ports [simp]: "distinct (free_ports sn lid)"
  by (simp add: free_ports_def)

lemma sorted_free_ports: "sorted_wrt (\<lambda>p q. sint p < sint q) (free_ports sn lid)"
proof -
  have "sorted_wrt (<) (map sint (ports_between lo hi))" for lo hi
    by (simp add: sint_ports_between)
  then show ?thesis
    unfolding free_ports_def by (intro sorted_wrt_filter) (simp add: sorted_wrt_map)
qed

section \<open>The loop finds the first free ports\<close>

lemma search_loop_take:
  assumes "sint maxPort < 2 ^ 31 - 1"
  shows "search_loop m maxPort count port acc =
     Some (acc @ take (nat (count - int (length acc)))
       (filter (\<lambda>p. \<not> gm_get False m p) (ports_between port maxPort)))"
proof (induction "nat (sint maxPort - sint port + 1)" arbitrary: port acc rule: less_induct)
  case less
  show ?case
  proof (cases "port <=s maxPort \<and> int (length acc) < count")
    case False
    then show ?thesis
      by (subst search_loop.simps) (auto simp: word_sle_eq ports_between_empty)
  next
    case True
    then have le: "sint port \<le> sint maxPort" by (simp add: word_sle_eq)
    have smaller: "nat (sint maxPort - sint (port + 1) + 1) < nat (sint maxPort - sint port + 1)"
      using le assms sint32_succ [of port] by simp
    have unfold: "ports_between port maxPort = port # ports_between (port + 1) maxPort"
      using ports_between_Cons [OF le assms] .
    have "nat (count - int (length acc)) = Suc (nat (count - int (length (acc @ [port]))))"
      using True by (simp add: Suc_nat_eq_nat_zadd1)
    then show ?thesis
      using True less [OF smaller] unfold by (subst search_loop.simps) simp
  qed
qed

text \<open>
  Whatever the bound, the loop ends as soon as some port is free: between two free ports
  it walks at most once around all of them.
\<close>

lemma search_loop_returns:
  assumes "\<not> gm_get False m q"
  shows "\<exists>r. search_loop m maxPort count port acc = Some r"
proof (induction "nat (count - int (length acc))" arbitrary: port acc rule: less_induct)
  case outer: less
  show ?case
  proof (induction "unat (q - port)" arbitrary: port rule: less_induct)
    case inner: less
    show ?case
    proof (cases "port <=s maxPort \<and> int (length acc) < count")
      case False
      then show ?thesis by (subst search_loop.simps) auto
    next
      case go: True
      show ?thesis
      proof (cases "gm_get False m port")
        case False
        from go have "nat (count - int (length (acc @ [port]))) < nat (count - int (length acc))"
          by simp
        from outer [OF this, of "port + 1"] False go show ?thesis
          by (subst search_loop.simps) auto
      next
        case True
        with assms have "q - port \<noteq> 0" by auto
        then have "unat (q - port - 1) < unat (q - port)"
          by (metis unat_minus_one diff_less unat_gt_0 word_neq_0_conv zero_less_one)
        then have "unat (q - (port + 1)) < unat (q - port)" by (simp add: diff_diff_add)
        from inner [OF this] go True show ?thesis by (subst search_loop.simps) auto
      qed
    qed
  qed
qed

lemma search_loop_stuck:
  assumes "\<And>p. gm_get False m p" and "search_loop m maxPort count port acc = Some r"
    and "\<And>p. p <=s maxPort"
  shows "count \<le> int (length acc)"
proof -
  have "m' = m \<and> mx = maxPort \<longrightarrow> c \<le> int (length a)"
    if "search_loop m' mx c p a = Some r" for m' mx c p a
  proof (rule search_loop.raw_induct [where P = "\<lambda>m' mx c p a r. m' = m \<and> mx = maxPort \<longrightarrow> c \<le> int (length a)",
        OF _ that])
    fix f m' mx c p a r
    assume IH: "\<And>m' mx c p a r. f m' mx c p a = Some r \<Longrightarrow> m' = m \<and> mx = maxPort \<longrightarrow> c \<le> int (length a)"
      and eq: "(if p <=s mx \<and> int (length a) < c
         then f m' mx c (p + 1) (if \<not> gm_get False m' p then a @ [p] else a) else Some a) = Some r"
    show "m' = m \<and> mx = maxPort \<longrightarrow> c \<le> int (length a)"
    proof
      assume here: "m' = m \<and> mx = maxPort"
      show "c \<le> int (length a)"
      proof (rule ccontr)
        assume "\<not> c \<le> int (length a)"
        with eq here assms(1,3) have "f m maxPort c (p + 1) a = Some r" by simp
        with IH [of m maxPort c "p + 1" a r] \<open>\<not> c \<le> int (length a)\<close> show False by simp
      qed
    qed
  qed
  with assms(2) show ?thesis by blast
qed

section \<open>Ranges\<close>

text \<open>
  A range whose bounds are port numbers in order. Nothing in the code or the CRD enforces
  it; the properties that need it say so.
\<close>

definition sane_range :: "PortRange \<Rightarrow> bool" where
  "sane_range r \<longleftrightarrow> 0 \<le> sint (pr_Min r) \<and> sint (pr_Min r) \<le> sint (pr_Max r) \<and> sint (pr_Max r) \<le> 65535"

definition lb_bindings :: "PortAllocation list \<Rightarrow> string \<Rightarrow> PortBinding list" where
  "lb_bindings as lid = filter (\<lambda>b. binding_lb b = lid) (all_bindings as)"

text \<open>Fewer entries than an \<open>int32\<close> can count.\<close>

definition countable_ports :: "poolAndAllocations \<Rightarrow> string \<Rightarrow> bool" where
  "countable_ports sn lid \<longleftrightarrow>
     int (length (lb_bindings (al_Items (pna_allocations sn)) lid)) +
     int (length (pr_ExcludedPorts (port_range (pna_pool sn)))) < 2 ^ 31"

lemma getLBPortUsage_count:
  "getLBPortUsage l lb = of_nat (length (lb_bindings (al_Items l) (lb_ID lb)))"
proof -
  have "fold (\<lambda>b u. if binding_lb b = lb_ID lb then u + 1 else u) bs z =
      z + of_nat (length (filter (\<lambda>b. binding_lb b = lb_ID lb) bs))"
    for bs and z :: int32
    by (induction bs arbitrary: z) auto
  from this [of "all_bindings (al_Items l)" 0] show ?thesis
    by (simp add: getLBPortUsage_def fold_bindings lb_bindings_def)
qed

text \<open>What hasAvailablePorts computes, without the wrap-around.\<close>

definition ports_left :: "poolAndAllocations \<Rightarrow> string \<Rightarrow> int" where
  "ports_left sn lid =
     sint (pr_Max (port_range (pna_pool sn))) - sint (pr_Min (port_range (pna_pool sn))) + 1 -
     int (length (pr_ExcludedPorts (port_range (pna_pool sn)))) -
     int (length (lb_bindings (al_Items (pna_allocations sn)) lid))"

lemma hasAvailablePorts_iff:
  assumes "sane_range (port_range (pna_pool sn))" and "countable_ports sn (lb_ID lb)"
    and "0 \<le> n" and "n < 2 ^ 31"
  shows "hasAvailablePorts sn lb n \<longleftrightarrow> n \<le> ports_left sn (lb_ID lb)"
proof -
  let ?r = "port_range (pna_pool sn)"
  have "pr_Max ?r - pr_Min ?r + 1 - to_int32 (int (length (pr_ExcludedPorts ?r)))
      - getLBPortUsage (pna_allocations sn) lb = word_of_int (ports_left sn (lb_ID lb))"
    by (simp add: ports_left_def getLBPortUsage_count to_int32_def)
  moreover have "sint (word_of_int (ports_left sn (lb_ID lb)) :: int32) = ports_left sn (lb_ID lb)"
    using assms(1,2)
    by (intro sint32_word_of_int) (auto simp: ports_left_def sane_range_def countable_ports_def)
  ultimately show ?thesis
    using assms(3,4) sint32_to_int32 [of n]
    by (simp add: hasAvailablePorts_def Let_def word_sle_eq)
qed

lemma card_taken_ports:
  "card (taken_ports sn lid) \<le>
     length (lb_bindings (al_Items (pna_allocations sn)) lid) +
     length (pr_ExcludedPorts (port_range (pna_pool sn)))"
proof -
  have "card (taken_ports sn lid) \<le> card (ports_on_lb (al_Items (pna_allocations sn)) lid) +
      card (set (pr_ExcludedPorts (port_range (pna_pool sn))))"
    unfolding taken_ports_def by (rule card_Un_le)
  then show ?thesis
    using card_ports_on_lb [of "al_Items (pna_allocations sn)" lid]
      card_length [of "pr_ExcludedPorts (port_range (pna_pool sn))"]
    by (simp add: lb_bindings_def)
qed

lemma ports_left_le_free: "ports_left sn lid \<le> int (length (free_ports sn lid))"
proof -
  let ?lo = "pr_Min (port_range (pna_pool sn))" and ?hi = "pr_Max (port_range (pna_pool sn))"
  have "length (ports_between ?lo ?hi) - card (taken_ports sn lid) \<le> length (free_ports sn lid)"
    unfolding free_ports_def by (rule card_le_length_filter_compl) simp_all
  then have "int (length (ports_between ?lo ?hi)) - int (card (taken_ports sn lid)) \<le>
      int (length (free_ports sn lid))" by linarith
  then show ?thesis
    using card_taken_ports [of sn lid] by (simp add: ports_left_def length_ports_between)
qed

lemma length_take_less: "int (length (take (nat n) xs)) < n \<longleftrightarrow> int (length xs) < n"
  by (auto simp: min_def)

lemma findAvailablePorts_eq:
  assumes "sint (pr_Max (port_range (pna_pool sn))) < 2 ^ 31 - 1"
  shows "findAvailablePorts sn lb n =
     (let free = free_ports sn (lb_ID lb); range = port_range (pna_pool sn) in
      if n \<le> 0 then Inl (PortCountNotPositive n)
      else if int (length free) < n
      then Inl (OnlyFoundPorts (length free) n (lb_ID lb) (pr_Min range) (pr_Max range))
      else Inr (take (nat n) free))"
proof (cases "n \<le> 0")
  case True
  then show ?thesis by (simp add: findAvailablePorts_def)
next
  case False
  let ?free = "free_ports sn (lb_ID lb)"
  have loop: "search_loop (excluded_or_allocated sn lb) (pr_Max (port_range (pna_pool sn))) n
      (pr_Min (port_range (pna_pool sn))) [] = Some (take (nat n) ?free)"
    by (simp add: search_loop_take [OF assms] excluded_or_allocated_lookup free_ports_def)
  show ?thesis
  proof (cases "int (length ?free) < n")
    case True
    then have "take (nat n) ?free = ?free" by simp
    with True False loop show ?thesis by (simp add: findAvailablePorts_def Let_def)
  next
    case enough: False
    then have "\<not> int (length (take (nat n) ?free)) < n" by (simp only: length_take_less not_False_eq_True)
    with enough False loop show ?thesis
      by (simp only: findAvailablePorts_def Let_def if_False option.simps)
  qed
qed

lemma findAvailablePorts_Inr:
  assumes "sint (pr_Max (port_range (pna_pool sn))) < 2 ^ 31 - 1"
  shows "findAvailablePorts sn lb n = Inr ps \<longleftrightarrow>
     0 < n \<and> n \<le> int (length (free_ports sn (lb_ID lb))) \<and> ps = take (nat n) (free_ports sn (lb_ID lb))"
  by (auto simp: findAvailablePorts_eq [OF assms] Let_def split: if_splits)

section \<open>The contract of the port search\<close>

text \<open>
  What the selection of a load balancer and the allocation rely on: a search that
  succeeds hands out as many distinct free ports as were asked for, and where the
  capacity check says yes the search succeeds.
\<close>

locale port_capacity =
  fixes has :: "poolAndAllocations \<Rightarrow> LoadBalancerRef \<Rightarrow> int \<Rightarrow> bool"
    and find_ports :: "poolAndAllocations \<Rightarrow> LoadBalancerRef \<Rightarrow> int \<Rightarrow> 'e error + int32 list"
    and valid :: "poolAndAllocations \<Rightarrow> LoadBalancerRef \<Rightarrow> bool"
  assumes found_free: "valid sn lb \<Longrightarrow> find_ports sn lb n = Inr ps \<Longrightarrow>
      int (length ps) = n \<and> distinct ps \<and> set ps \<subseteq> set (free_ports sn (lb_ID lb))"
    and has_found: "valid sn lb \<Longrightarrow> 0 < n \<Longrightarrow> n < 2 ^ 31 \<Longrightarrow> has sn lb n \<Longrightarrow>
      \<exists>ps. find_ports sn lb n = Inr ps"
begin

lemma found_not_in_use:
  assumes "valid sn lb" and "find_ports sn lb n = Inr ps"
  shows "set ps \<inter> ports_on_lb (al_Items (pna_allocations sn)) (lb_ID lb) = {}"
  using found_free [OF assms] by (auto simp: set_free_ports taken_ports_def)

lemma found_not_excluded:
  assumes "valid sn lb" and "find_ports sn lb n = Inr ps"
  shows "set ps \<inter> set (pr_ExcludedPorts (port_range (pna_pool sn))) = {}"
  using found_free [OF assms] by (auto simp: set_free_ports taken_ports_def)

lemma found_in_range:
  assumes "valid sn lb" and "find_ports sn lb n = Inr ps" and "p \<in> set ps"
  shows "pr_Min (port_range (pna_pool sn)) <=s p \<and> p <=s pr_Max (port_range (pna_pool sn))"
  using found_free [OF assms(1,2)] assms(3) by (auto simp: set_free_ports)

lemma search_fails_only_if_lacking:
  assumes "valid sn lb" and "0 < n" and "n < 2 ^ 31" and "find_ports sn lb n = Inl e"
  shows "\<not> has sn lb n"
  using has_found [OF assms(1-3)] assms(4) by auto

end

text \<open>The snapshots the contract holds for.\<close>

definition snapshot_ok :: "poolAndAllocations \<Rightarrow> LoadBalancerRef \<Rightarrow> bool" where
  "snapshot_ok sn lb \<longleftrightarrow> sane_range (port_range (pna_pool sn)) \<and> countable_ports sn (lb_ID lb)"

lemma snapshot_ok_max: "snapshot_ok sn lb \<Longrightarrow> sint (pr_Max (port_range (pna_pool sn))) < 2 ^ 31 - 1"
  by (simp add: snapshot_ok_def sane_range_def)

interpretation ports: port_capacity hasAvailablePorts findAvailablePorts snapshot_ok
proof
  fix sn lb n ps
  assume ok: "snapshot_ok sn lb" and f: "findAvailablePorts sn lb n = Inr ps"
  from f show "int (length ps) = n \<and> distinct ps \<and> set ps \<subseteq> set (free_ports sn (lb_ID lb))"
    using set_take_subset [of "nat n" "free_ports sn (lb_ID lb)"]
    by (auto simp: findAvailablePorts_Inr [OF snapshot_ok_max [OF ok]])
next
  fix sn lb n
  assume ok: "snapshot_ok sn lb" and n: "0 < n" "n < 2 ^ 31" and h: "hasAvailablePorts sn lb n"
  from ok n h have "n \<le> ports_left sn (lb_ID lb)"
    by (simp add: hasAvailablePorts_iff snapshot_ok_def)
  also have "\<dots> \<le> int (length (free_ports sn (lb_ID lb)))" by (rule ports_left_le_free)
  finally show "\<exists>ps. findAvailablePorts sn lb n = Inr ps"
    using n by (simp add: findAvailablePorts_Inr [OF snapshot_ok_max [OF ok]])
qed

section \<open>When the capacity check is exact\<close>

text \<open>
  A ledger without waste: the excluded ports and the ports in use are distinct, inside
  the range and disjoint. The allocator keeps its own allocations so.
\<close>

definition tidy_ledger :: "poolAndAllocations \<Rightarrow> string \<Rightarrow> bool" where
  "tidy_ledger sn lid \<longleftrightarrow>
     (let r = port_range (pna_pool sn);
          used = map pb_LBPort (lb_bindings (al_Items (pna_allocations sn)) lid)
      in distinct (used @ pr_ExcludedPorts r) \<and>
         (\<forall>p \<in> set (used @ pr_ExcludedPorts r). pr_Min r <=s p \<and> p <=s pr_Max r))"

lemma tidy_free_ports:
  assumes "tidy_ledger sn lid" and "sint (pr_Min (port_range (pna_pool sn))) \<le> sint (pr_Max (port_range (pna_pool sn)))"
  shows "int (length (free_ports sn lid)) = ports_left sn lid"
proof -
  let ?r = "port_range (pna_pool sn)"
  let ?used = "map pb_LBPort (lb_bindings (al_Items (pna_allocations sn)) lid)"
  let ?all = "ports_between (pr_Min ?r) (pr_Max ?r)"
  have taken: "taken_ports sn lid = set (?used @ pr_ExcludedPorts ?r)"
    by (auto simp: taken_ports_def ports_on_lb_def lb_bindings_def)
  have "{p \<in> set ?all. p \<in> taken_ports sn lid} = set (?used @ pr_ExcludedPorts ?r)"
    using assms(1) unfolding taken tidy_ledger_def by (auto simp: Let_def set_ports_between)
  then have "length (filter (\<lambda>p. p \<in> taken_ports sn lid) ?all) = length (?used @ pr_ExcludedPorts ?r)"
    using assms(1) distinct_card [of "filter (\<lambda>p. p \<in> taken_ports sn lid) ?all"]
      distinct_card [of "?used @ pr_ExcludedPorts ?r"]
    by (simp add: tidy_ledger_def Let_def)
  moreover have "length ?all = length (filter (\<lambda>p. p \<in> taken_ports sn lid) ?all) +
      length (free_ports sn lid)"
    unfolding free_ports_def
    using sum_length_filter_compl [of "\<lambda>p. p \<in> taken_ports sn lid" ?all] by simp
  moreover have "int (length ?all) = sint (pr_Max ?r) - sint (pr_Min ?r) + 1"
    using assms(2) by (simp add: length_ports_between)
  ultimately show ?thesis by (simp add: ports_left_def)
qed

section \<open>Properties\<close>

definition demo_snapshot :: "int32 list \<Rightarrow> (string \<times> int32) list \<Rightarrow> poolAndAllocations" where
  "demo_snapshot excl held =
     \<lparr>pna_pool = sample_pool ''pool'' [''lb-1'', ''lb-2''] 30000 30003 excl,
      pna_allocations = \<lparr>al_Items = [sample_alloc ''pool'' ''pod-1'' ''ns'' held]\<rparr>\<rparr>"

lemmas demo_snapshot_defs =
  demo_snapshot_def sample_pool_def sample_alloc_def sample_binding_def sample_lb_def

lemma demo_range [simp]:
  "port_range (pna_pool (demo_snapshot excl held)) = \<lparr>pr_Min = 30000, pr_Max = 30003, pr_ExcludedPorts = excl\<rparr>"
  by (simp add: demo_snapshot_defs)

lemma sample_lb_ID [simp]: "lb_ID (sample_lb lid) = lid"
  by (simp add: sample_lb_def)

lemma demo_free_ports [simp]:
  "free_ports (demo_snapshot [30001] [(''lb-1'', 30000)]) ''lb-1'' = [30002, 30003]"
  by (simp add: free_ports_def taken_ports_def ports_on_lb_code ports_between_def upto_rec1
      demo_snapshot_defs)

lemma demo_snapshot_ok: "snapshot_ok (demo_snapshot [30001] [(''lb-1'', 30000)]) (sample_lb lid)"
  by (simp add: snapshot_ok_def sane_range_def countable_ports_def lb_bindings_def demo_snapshot_defs)

text \<open>
  C17. findAvailablePorts computes its specification on every pool whose Max is below the
  largest int32: an error for a count that is not positive, the documented error with the
  number of ports found when fewer than the count are free, and otherwise the first
  \<open>count\<close> free ports in ascending order, where a port is free when it is in the range, not
  excluded, and not held by a binding on that load balancer. In particular the loop ends.
\<close>

theorem findAvailablePorts_spec:
  assumes "sint (pr_Max (port_range (pna_pool sn))) < 2 ^ 31 - 1"
  shows "findAvailablePorts sn lb n =
     (if n \<le> 0 then Inl (PortCountNotPositive n)
      else if int (length (free_ports sn (lb_ID lb))) < n
      then Inl (OnlyFoundPorts (length (free_ports sn (lb_ID lb))) n (lb_ID lb)
             (pr_Min (port_range (pna_pool sn))) (pr_Max (port_range (pna_pool sn))))
      else Inr (take (nat n) (free_ports sn (lb_ID lb))))"
  by (simp only: findAvailablePorts_eq [OF assms] Let_def)

theorem findAvailablePorts_spec_witness:
  "findAvailablePorts (demo_snapshot [30001] [(''lb-1'', 30000)]) (sample_lb ''lb-1'') 2 = Inr [30002, 30003]
   \<and> findAvailablePorts (demo_snapshot [30001] [(''lb-1'', 30000)]) (sample_lb ''lb-1'') 3 =
     Inl (OnlyFoundPorts 2 3 ''lb-1'' 30000 30003)"
proof -
  let ?sn = "demo_snapshot [30001] [(''lb-1'', 30000)]"
  have m: "sint (pr_Max (port_range (pna_pool ?sn))) < 2 ^ 31 - 1" by simp
  note spec = findAvailablePorts_spec [OF m, of "sample_lb ''lb-1''"]
  show ?thesis unfolding spec by simp
qed

text \<open>
  The ports findAvailablePorts hands out are safe to bind: as many as asked for,
  strictly ascending (so distinct), within [Min, Max], none of them excluded and none of
  them held on that load balancer by any binding of the listed allocations.
\<close>

theorem findAvailablePorts_safe:
  assumes "sint (pr_Max (port_range (pna_pool sn))) < 2 ^ 31 - 1"
    and "findAvailablePorts sn lb n = Inr ps"
  shows "int (length ps) = n \<and> sorted_wrt (\<lambda>p q. sint p < sint q) ps \<and>
    (\<forall>p\<in>set ps. sint (pr_Min (port_range (pna_pool sn))) \<le> sint p \<and>
       sint p \<le> sint (pr_Max (port_range (pna_pool sn))) \<and>
       p \<notin> set (pr_ExcludedPorts (port_range (pna_pool sn))) \<and>
       (\<forall>a\<in>set (al_Items (pna_allocations sn)). \<forall>b\<in>set (bindings a).
          lb_ID (pb_LoadBalancerRef b) = lb_ID lb \<longrightarrow> pb_LBPort b \<noteq> p))"
proof -
  let ?free = "free_ports sn (lb_ID lb)"
  from assms have n: "0 < n" "n \<le> int (length ?free)" and ps: "ps = take (nat n) ?free"
    by (auto simp: findAvailablePorts_Inr)
  have "set ps \<subseteq> set ?free" unfolding ps by (rule set_take_subset)
  then have "\<forall>p\<in>set ps. p \<in> set ?free" by blast
  moreover have "sorted_wrt (\<lambda>p q. sint p < sint q) ps"
    unfolding ps by (intro sorted_wrt_take sorted_free_ports)
  ultimately show ?thesis
    using n ps by (auto simp: set_free_ports taken_ports_def ports_on_lb_def set_all_bindings word_sle_eq)
qed

theorem findAvailablePorts_safe_witness:
  "sorted_wrt (\<lambda>p q. sint p < sint q) [30002 :: int32, 30003]"
proof -
  let ?sn = "demo_snapshot [30001] [(''lb-1'', 30000)]"
  have m: "sint (pr_Max (port_range (pna_pool ?sn))) < 2 ^ 31 - 1" by simp
  have f: "findAvailablePorts ?sn (sample_lb ''lb-1'') 2 = Inr [30002, 30003]"
    by (simp add: findAvailablePorts_eq)
  from findAvailablePorts_safe [OF m f] show ?thesis by blast
qed

text \<open>
  hasAvailablePorts is sound for findAvailablePorts: on a pool with a valid port range
  and fewer entries than an int32 counts, whenever the capacity check accepts a positive
  count, the search for that many ports succeeds. So an allocation never selects a load
  balancer and then finds too few ports on it.
\<close>

theorem hasAvailablePorts_sound:
  assumes "snapshot_ok sn lb" and "0 < n" and "n < 2 ^ 31" and "hasAvailablePorts sn lb n"
  shows "\<exists>ps. findAvailablePorts sn lb n = Inr ps"
  using assms by (rule ports.has_found)

theorem hasAvailablePorts_sound_witness:
  "\<exists>ps. findAvailablePorts (demo_snapshot [30001] [(''lb-1'', 30000)]) (sample_lb ''lb-1'') 2 = Inr ps"
  by (rule hasAvailablePorts_sound [OF demo_snapshot_ok])
    (simp_all add: hasAvailablePorts_def getLBPortUsage_def to_int32_def word_sle_eq demo_snapshot_defs)

text \<open>
  Where the ledger is tidy (ports in use and excluded ports are distinct, in the range
  and disjoint, as the allocator keeps its own) the capacity check is exact: it accepts
  precisely the counts the search can serve. Without that it only errs on the safe side:
  an excluded port outside the range makes it turn down a request that the search could
  serve.
\<close>

theorem hasAvailablePorts_exact:
  assumes "snapshot_ok sn lb" and "tidy_ledger sn (lb_ID lb)" and "0 < n" and "n < 2 ^ 31"
  shows "hasAvailablePorts sn lb n \<longleftrightarrow>
    (\<exists>ps. (findAvailablePorts sn lb n :: 'e error + int32 list) = Inr ps)"
proof -
  have "hasAvailablePorts sn lb n \<longleftrightarrow> n \<le> ports_left sn (lb_ID lb)"
    using assms by (simp add: hasAvailablePorts_iff snapshot_ok_def)
  also have "\<dots> \<longleftrightarrow> n \<le> int (length (free_ports sn (lb_ID lb)))"
    using tidy_free_ports [OF assms(2)] assms(1) by (simp add: snapshot_ok_def sane_range_def)
  also have "\<dots> \<longleftrightarrow> (\<exists>ps. (findAvailablePorts sn lb n :: 'e error + int32 list) = Inr ps)"
    using assms(3) by (simp add: findAvailablePorts_Inr [OF snapshot_ok_max [OF assms(1)]])
  finally show ?thesis .
qed

theorem hasAvailablePorts_exact_witness:
  "\<not> hasAvailablePorts (demo_snapshot [30001] [(''lb-1'', 30000)]) (sample_lb ''lb-1'') 3"
proof -
  let ?sn = "demo_snapshot [30001] [(''lb-1'', 30000)]"
  have tidy: "tidy_ledger ?sn (lb_ID (sample_lb ''lb-1''))"
    by (simp add: tidy_ledger_def lb_bindings_def demo_snapshot_defs word_sle_eq)
  have "(findAvailablePorts ?sn (sample_lb ''lb-1'') 3 :: unit error + int32 list) \<noteq> Inr ps" for ps
    by (simp add: findAvailablePorts_Inr)
  with hasAvailablePorts_exact [OF demo_snapshot_ok tidy, of 3, where 'e = unit] show ?thesis by simp
qed

text \<open>
  C35. The search loop and the end of the int32 range. \<open>port++\<close> wraps around, so with
  Max at the largest int32 the loop condition on the port never fails: the loop still
  ends whenever some int32 is neither excluded nor in use, but the ports it returns may
  lie outside [Min, Max]. On a pool whose range is the single port 2147483647, which is
  in use, it returns the port -2147483648.
\<close>

theorem findAvailablePorts_wraps:
  "(p \<notin> taken_ports sn (lb_ID lb) \<longrightarrow> findAvailablePorts sn lb n \<noteq> Inl NeverReturns) \<and>
   findAvailablePorts
     \<lparr>pna_pool = sample_pool ''pool'' [''lb-1''] 2147483647 2147483647 [],
      pna_allocations = \<lparr>al_Items = [sample_alloc ''pool'' ''pod-1'' ''ns'' [(''lb-1'', 2147483647)]]\<rparr>\<rparr>
     (sample_lb ''lb-1'') 1 = Inr [- 2147483648]"
proof (intro conjI impI)
  assume "p \<notin> taken_ports sn (lb_ID lb)"
  then have "\<not> gm_get False (excluded_or_allocated sn lb) p"
    by (simp add: excluded_or_allocated_lookup)
  then obtain r where "search_loop (excluded_or_allocated sn lb) (pr_Max (port_range (pna_pool sn))) n
      (pr_Min (port_range (pna_pool sn))) [] = Some r"
    using search_loop_returns by blast
  then show "findAvailablePorts sn lb n \<noteq> Inl NeverReturns"
    by (simp add: findAvailablePorts_def Let_def)
next
  let ?sn = "\<lparr>pna_pool = sample_pool ''pool'' [''lb-1''] 2147483647 2147483647 [],
      pna_allocations = \<lparr>al_Items = [sample_alloc ''pool'' ''pod-1'' ''ns'' [(''lb-1'', 2147483647)]]\<rparr>\<rparr>"
  have taken: "taken_ports ?sn ''lb-1'' = {2147483647}"
    by (simp add: taken_ports_def ports_on_lb_code sample_pool_def sample_alloc_def
        sample_binding_def sample_lb_def)
  have "search_loop (excluded_or_allocated ?sn (sample_lb ''lb-1'')) 2147483647 1 2147483647 []
      = Some [- 2147483648]"
    by (simp add: search_loop.simps excluded_or_allocated_lookup taken sample_lb_def word_sle_eq)
  then show "findAvailablePorts ?sn (sample_lb ''lb-1'') 1 = Inr [- 2147483648]"
    by (simp add: findAvailablePorts_def Let_def sample_pool_def)
qed

theorem findAvailablePorts_wraps_witness:
  "findAvailablePorts (demo_snapshot [30001] []) (sample_lb ''lb-1'') 9 \<noteq> (Inl NeverReturns :: unit error + int32 list)"
  by (rule findAvailablePorts_wraps [THEN conjunct1, rule_format, of 30000])
    (simp add: taken_ports_def ports_on_lb_code demo_snapshot_defs)

end
