(* ===== verification/LbSelect.thy ===== *)
theory LbSelect
  imports PortSearch
begin

text \<open>
  The choice of a load balancer (pkg/allocator/lb.go) over the allocator's own state
  (PoolAllocator in pkg/allocator/core.go): round-robin with a cursor per pool, and least
  used. Both are shown to meet one contract, stated as a locale, which together with the
  contract of the port search gives that a selected load balancer can serve the request.
\<close>

unbundle bit_operations_syntax

section \<open>The allocator's state\<close>

type_synonym LoadBalancerStrategy = string

definition StrategyRoundRobin :: LoadBalancerStrategy where "StrategyRoundRobin = ''round-robin''"
definition StrategyLeastUsed :: LoadBalancerStrategy where "StrategyLeastUsed = ''least-used''"
definition StrategyWeighted :: LoadBalancerStrategy where "StrategyWeighted = ''weighted''"

lemmas strategy_defs = StrategyRoundRobin_def StrategyLeastUsed_def StrategyWeighted_def

text \<open>
  The client is a parameter of the operations. \<open>roundRobinIndex\<close> holds results of
  \<open>% len\<close> only, so its values are naturals; \<open>poolMutexes\<close> says of each mutex that has
  been created whether it is held.
\<close>

record PoolAllocator =
  al_strategy :: LoadBalancerStrategy
  al_roundRobinIndex :: "(string, nat) gomap"
  al_poolMutexes :: "(string, bool) gomap"

definition NewPoolAllocator :: "LoadBalancerStrategy \<Rightarrow> PoolAllocator" where
  "NewPoolAllocator strategy =
     \<lparr>al_strategy = strategy, al_roundRobinIndex = [], al_poolMutexes = []\<rparr>"

section \<open>The operations\<close>

definition sprintf_slash :: "string \<Rightarrow> string \<Rightarrow> string" where
  "sprintf_slash a b = a @ ''/'' @ b"

definition pool_index_key :: "ApolloNetworkPool \<Rightarrow> string" where
  "pool_index_key pool = sprintf_slash (om_Namespace (np_ObjectMeta pool)) (om_Name (np_ObjectMeta pool))"

text \<open>The loop over \<open>i\<close> that tries each load balancer, starting at the cursor.\<close>

function rr_search :: "poolAndAllocations \<Rightarrow> int \<Rightarrow> nat \<Rightarrow> nat \<Rightarrow> nat option" where
  "rr_search existAllocation portCount currentIndex i =
     (let lbs = load_balancers (pna_pool existAllocation) in
      if i < length lbs
      then let lbIndex = (currentIndex + i) mod length lbs in
           if hasAvailablePorts existAllocation (lbs ! lbIndex) portCount then Some lbIndex
           else rr_search existAllocation portCount currentIndex (Suc i)
      else None)"
  by pat_completeness auto
termination
  by (relation "measure (\<lambda>(sn, n, c, i). length (load_balancers (pna_pool sn)) - i)") auto

declare rr_search.simps [simp del]

definition selectRoundRobin ::
  "PoolAllocator \<Rightarrow> poolAndAllocations \<Rightarrow> int \<Rightarrow> ('e error + LoadBalancerRef) \<times> PoolAllocator" where
  "selectRoundRobin pa existAllocation portCount =
     (let lbs = load_balancers (pna_pool existAllocation) in
      if length lbs = 0 then (Inl NoLoadBalancersConfigured, pa)
      else
        let poolKey = pool_index_key (pna_pool existAllocation);
            currentIndex = gm_get 0 (al_roundRobinIndex pa) poolKey
        in case rr_search existAllocation portCount currentIndex 0 of
             Some lbIndex \<Rightarrow>
               (Inr (lbs ! lbIndex),
                pa\<lparr>al_roundRobinIndex := gm_put poolKey ((lbIndex + 1) mod length lbs) (al_roundRobinIndex pa)\<rparr>)
           | None \<Rightarrow> (Inl (NoLoadBalancerHasPorts portCount), pa))"

definition max_int32 :: int32 where
  "max_int32 = drop_bit 1 (NOT 0)"

definition least_used_step ::
  "poolAndAllocations \<Rightarrow> int \<Rightarrow> LoadBalancerRef \<Rightarrow> int32 \<times> LoadBalancerRef option
     \<Rightarrow> int32 \<times> LoadBalancerRef option" where
  "least_used_step existAllocation portCount lb = (\<lambda>(minUsage, bestLB).
     let usage = getLBPortUsage (pna_allocations existAllocation) lb in
     if usage <s minUsage \<and> hasAvailablePorts existAllocation lb portCount
     then (usage, Some lb) else (minUsage, bestLB))"

definition selectLeastUsed ::
  "PoolAllocator \<Rightarrow> poolAndAllocations \<Rightarrow> int \<Rightarrow> ('e error + LoadBalancerRef) \<times> PoolAllocator" where
  "selectLeastUsed pa existAllocation portCount =
     (let lbs = load_balancers (pna_pool existAllocation) in
      if length lbs = 0 then (Inl NoLoadBalancersConfigured, pa)
      else case snd (fold (least_used_step existAllocation portCount) lbs (max_int32, None)) of
             None \<Rightarrow> (Inl (NoLoadBalancerHasPorts portCount), pa)
           | Some bestLB \<Rightarrow> (Inr bestLB, pa))"

definition SelectLoadBalancer ::
  "PoolAllocator \<Rightarrow> poolAndAllocations \<Rightarrow> int \<Rightarrow> ('e error + LoadBalancerRef) \<times> PoolAllocator" where
  "SelectLoadBalancer pa allocations portCount =
     (if al_strategy pa = StrategyRoundRobin then selectRoundRobin pa allocations portCount
      else if al_strategy pa = StrategyLeastUsed then selectLeastUsed pa allocations portCount
      else selectRoundRobin pa allocations portCount)"

section \<open>The round-robin search\<close>

text \<open>The positions in the order in which the search tries them.\<close>

definition rr_order :: "nat \<Rightarrow> nat \<Rightarrow> nat list" where
  "rr_order cur n = map (\<lambda>i. (cur + i) mod n) [0..<n]"

lemma rr_search_find:
  assumes "lbs = load_balancers (pna_pool sn)"
  shows "rr_search sn n cur i =
    List.find (\<lambda>k. hasAvailablePorts sn (lbs ! k) n) (map (\<lambda>i. (cur + i) mod length lbs) [i..<length lbs])"
proof (induction "length lbs - i" arbitrary: i)
  case 0
  then show ?case by (simp add: rr_search.simps [of sn n cur i] assms)
next
  case (Suc m)
  then have i: "i < length lbs" and m: "m = length lbs - Suc i" by simp_all
  from i have "[i..<length lbs] = i # [Suc i..<length lbs]" by (rule upt_conv_Cons)
  with Suc.hyps(1) [OF m] i show ?case
    by (simp add: rr_search.simps [of sn n cur i] assms [symmetric] Let_def)
qed

lemma set_rr_order: "0 < n \<Longrightarrow> set (rr_order cur n) = {..<n}"
proof -
  assume n: "0 < n"
  have "\<exists>i<n. (cur + i) mod n = k" if k: "k < n" for k
  proof -
    let ?i = "(k + (n - cur mod n)) mod n"
    have "(cur + ?i) mod n = (cur mod n + (k + (n - cur mod n))) mod n"
      by (metis mod_add_left_eq mod_add_right_eq)
    also have "\<dots> = (k + n) mod n"
      using n mod_less_divisor [OF n, of cur] by (simp add: algebra_simps)
    also have "\<dots> = k" using k by simp
    finally show ?thesis using n by (intro exI [of _ ?i]) simp
  qed
  then show ?thesis using n by (auto simp: rr_order_def image_iff Bex_def) metis
qed

lemma rr_search_order:
  "rr_search sn n cur 0 = List.find (\<lambda>k. hasAvailablePorts sn (load_balancers (pna_pool sn) ! k) n)
     (rr_order cur (length (load_balancers (pna_pool sn))))"
  unfolding rr_order_def by (rule rr_search_find) simp

lemma rr_search_Some:
  assumes "rr_search sn n cur 0 = Some k"
  shows "k < length (load_balancers (pna_pool sn)) \<and>
    hasAvailablePorts sn (load_balancers (pna_pool sn) ! k) n"
proof -
  let ?lbs = "load_balancers (pna_pool sn)"
  from assms have "k \<in> set (rr_order cur (length ?lbs))" and h: "hasAvailablePorts sn (?lbs ! k) n"
    by (auto simp: rr_search_order find_Some_iff)
  then have "?lbs \<noteq> []" by (auto simp: rr_order_def)
  with \<open>k \<in> _\<close> h show ?thesis by (auto simp: set_rr_order)
qed

lemma rr_search_None:
  "rr_search sn n cur 0 = None \<longleftrightarrow>
     (\<forall>lb\<in>set (load_balancers (pna_pool sn)). \<not> hasAvailablePorts sn lb n)"
proof (cases "load_balancers (pna_pool sn) = []")
  case True
  then show ?thesis by (simp add: rr_search_order rr_order_def)
next
  case False
  then have "set (rr_order cur (length (load_balancers (pna_pool sn)))) = {..<length (load_balancers (pna_pool sn))}"
    by (intro set_rr_order) simp
  then show ?thesis by (auto simp: rr_search_order find_None_iff all_set_conv_all_nth)
qed

section \<open>The least-used search\<close>

lemma max_int32_value: "max_int32 = 2147483647"
  by (simp add: max_int32_def mask_eq_exp_minus_1)

lemma sint_max_int32: "sint max_int32 = 2 ^ 31 - 1"
  by (simp add: max_int32_value)

abbreviation usage_of :: "poolAndAllocations \<Rightarrow> LoadBalancerRef \<Rightarrow> int" where
  "usage_of sn lb \<equiv> sint (getLBPortUsage (pna_allocations sn) lb)"

text \<open>
  What the loop has found after a list of load balancers: nothing, and then none of them
  qualifies, or the first one of minimal usage among those that qualify.
\<close>

definition qualifies :: "poolAndAllocations \<Rightarrow> int \<Rightarrow> LoadBalancerRef \<Rightarrow> bool" where
  "qualifies sn n lb \<longleftrightarrow> hasAvailablePorts sn lb n \<and> usage_of sn lb < 2 ^ 31 - 1"

definition first_least_used ::
  "poolAndAllocations \<Rightarrow> int \<Rightarrow> LoadBalancerRef list \<Rightarrow> LoadBalancerRef \<Rightarrow> bool" where
  "first_least_used sn n lbs lb \<longleftrightarrow>
     (\<exists>before after. lbs = before @ lb # after \<and> qualifies sn n lb \<and>
        (\<forall>l\<in>set before. qualifies sn n l \<longrightarrow> usage_of sn lb < usage_of sn l) \<and>
        (\<forall>l\<in>set after. qualifies sn n l \<longrightarrow> usage_of sn lb \<le> usage_of sn l))"

definition least_used_found ::
  "poolAndAllocations \<Rightarrow> int \<Rightarrow> LoadBalancerRef list \<Rightarrow> int32 \<times> LoadBalancerRef option \<Rightarrow> bool" where
  "least_used_found sn n lbs acc \<longleftrightarrow>
     (case acc of
        (u, None) \<Rightarrow> u = max_int32 \<and> (\<forall>l\<in>set lbs. \<not> qualifies sn n l)
      | (u, Some lb) \<Rightarrow> sint u = usage_of sn lb \<and> first_least_used sn n lbs lb)"

lemma least_used_found_step:
  assumes "least_used_found sn n lbs acc"
  shows "least_used_found sn n (lbs @ [lb]) (least_used_step sn n lb acc)"
proof -
  obtain u best where acc: "acc = (u, best)" by (cases acc)
  show ?thesis
  proof (cases best)
    case None
    with assms acc have u: "u = max_int32" and no: "\<forall>l\<in>set lbs. \<not> qualifies sn n l"
      by (auto simp: least_used_found_def)
    show ?thesis
    proof (cases "qualifies sn n lb")
      case True
      with no have "first_least_used sn n (lbs @ [lb]) lb"
        unfolding first_least_used_def by (intro exI [of _ lbs] exI [of _ "[]"]) auto
      with True u None acc show ?thesis
        by (simp add: least_used_step_def least_used_found_def qualifies_def Let_def
            word_sless_alt sint_max_int32)
    next
      case False
      with no u None acc show ?thesis
        by (auto simp: least_used_step_def least_used_found_def qualifies_def Let_def
            word_sless_alt sint_max_int32)
    qed
  next
    case (Some b)
    with assms acc have u: "sint u = usage_of sn b" and b: "first_least_used sn n lbs b"
      by (auto simp: least_used_found_def)
    then obtain bef aft where parts: "lbs = bef @ b # aft" "qualifies sn n b"
      "\<forall>l\<in>set bef. qualifies sn n l \<longrightarrow> usage_of sn b < usage_of sn l"
      "\<forall>l\<in>set aft. qualifies sn n l \<longrightarrow> usage_of sn b \<le> usage_of sn l"
      by (auto simp: first_least_used_def)
    show ?thesis
    proof (cases "usage_of sn lb < usage_of sn b \<and> hasAvailablePorts sn lb n")
      case True
      with parts have "first_least_used sn n (lbs @ [lb]) lb"
        unfolding first_least_used_def
        by (intro exI [of _ lbs] exI [of _ "[]"]) (fastforce simp: qualifies_def)
      with True u Some acc show ?thesis
        by (simp add: least_used_step_def least_used_found_def Let_def word_sless_alt)
    next
      case False
      with parts have "first_least_used sn n (lbs @ [lb]) b"
        unfolding first_least_used_def
        by (intro exI [of _ bef] exI [of _ "aft @ [lb]"]) (auto simp: qualifies_def)
      with False u Some acc show ?thesis
        by (auto simp: least_used_step_def least_used_found_def Let_def word_sless_alt)
    qed
  qed
qed

lemma least_used_fold:
  "least_used_found sn n lbs (fold (least_used_step sn n) lbs (max_int32, None))"
proof (induction lbs rule: rev_induct)
  case Nil
  then show ?case by (simp add: least_used_found_def)
next
  case (snoc lb lbs)
  then show ?case by (simp add: least_used_found_step)
qed

lemma least_used_None:
  "snd (fold (least_used_step sn n) lbs (max_int32, None)) = None \<Longrightarrow> lb \<in> set lbs \<Longrightarrow> \<not> qualifies sn n lb"
  using least_used_fold [of sn n lbs]
  by (cases "fold (least_used_step sn n) lbs (max_int32, None)") (auto simp: least_used_found_def)

lemma least_used_Some:
  "snd (fold (least_used_step sn n) lbs (max_int32, None)) = Some lb \<Longrightarrow> first_least_used sn n lbs lb"
  using least_used_fold [of sn n lbs]
  by (cases "fold (least_used_step sn n) lbs (max_int32, None)") (auto simp: least_used_found_def)

lemma first_least_used_mem:
  "first_least_used sn n lbs lb \<Longrightarrow> lb \<in> set lbs \<and> hasAvailablePorts sn lb n"
  by (auto simp: first_least_used_def qualifies_def)

section \<open>The contract of a selection\<close>

text \<open>
  What the allocation relies on, whatever the strategy: a selected load balancer belongs
  to the pool and has room for the request; a selection fails only when none has; and a
  selection touches nothing of the allocator but the cursor of the pool's own key.
\<close>

locale lb_selector =
  fixes select :: "PoolAllocator \<Rightarrow> poolAndAllocations \<Rightarrow> int \<Rightarrow> ('e error + LoadBalancerRef) \<times> PoolAllocator"
    and has :: "poolAndAllocations \<Rightarrow> LoadBalancerRef \<Rightarrow> int \<Rightarrow> bool"
    and countable :: "poolAndAllocations \<Rightarrow> bool"
  assumes selected: "select pa sn n = (Inr lb, pa') \<Longrightarrow>
      lb \<in> set (load_balancers (pna_pool sn)) \<and> has sn lb n"
    and not_selected: "select pa sn n = (Inl e, pa') \<Longrightarrow> countable sn \<Longrightarrow>
      lb \<in> set (load_balancers (pna_pool sn)) \<Longrightarrow> \<not> has sn lb n"
    and select_error: "select pa sn n = (Inl e, pa') \<Longrightarrow> pa' = pa \<and>
      e = (if load_balancers (pna_pool sn) = [] then NoLoadBalancersConfigured else NoLoadBalancerHasPorts n)"
    and select_frame: "select pa sn n = (r, pa') \<Longrightarrow>
      al_strategy pa' = al_strategy pa \<and> al_poolMutexes pa' = al_poolMutexes pa \<and>
      (\<forall>k. k \<noteq> pool_index_key (pna_pool sn) \<longrightarrow>
         map_of (al_roundRobinIndex pa') k = map_of (al_roundRobinIndex pa) k)"
begin

lemma select_succeeds_iff:
  assumes "countable sn"
  shows "(\<exists>lb pa'. select pa sn n = (Inr lb, pa')) \<longleftrightarrow>
    (\<exists>lb\<in>set (load_balancers (pna_pool sn)). has sn lb n)"
proof
  assume "\<exists>lb\<in>set (load_balancers (pna_pool sn)). has sn lb n"
  then obtain lb where lb: "lb \<in> set (load_balancers (pna_pool sn))" "has sn lb n" by blast
  obtain r pa' where r: "select pa sn n = (r, pa')" by (cases "select pa sn n")
  with not_selected [OF _ assms lb(1)] lb(2) show "\<exists>lb pa'. select pa sn n = (Inr lb, pa')"
    by (cases r) blast+
qed (blast dest: selected)

end

definition usage_countable :: "poolAndAllocations \<Rightarrow> bool" where
  "usage_countable sn \<longleftrightarrow> int (length (all_bindings (al_Items (pna_allocations sn)))) < 2 ^ 31 - 1"

lemma usage_countable_qualifies:
  assumes "usage_countable sn"
  shows "qualifies sn n lb \<longleftrightarrow> hasAvailablePorts sn lb n"
proof -
  let ?k = "length (lb_bindings (al_Items (pna_allocations sn)) (lb_ID lb))"
  have "?k \<le> length (all_bindings (al_Items (pna_allocations sn)))"
    unfolding lb_bindings_def by (rule length_filter_le)
  with assms have "int ?k < 2 ^ 31 - 1" by (simp add: usage_countable_def)
  then show ?thesis
    using sint32_of_nat [of ?k] by (simp add: qualifies_def getLBPortUsage_count)
qed

interpretation round_robin: lb_selector selectRoundRobin hasAvailablePorts "\<lambda>_. True"
proof
  fix pa sn n lb pa'
  assume "selectRoundRobin pa sn n = (Inr lb, pa')"
  then show "lb \<in> set (load_balancers (pna_pool sn)) \<and> hasAvailablePorts sn lb n"
    by (auto simp: selectRoundRobin_def Let_def split: if_splits option.splits dest: rr_search_Some)
next
  fix pa sn n e pa' lb
  assume "selectRoundRobin pa sn n = (Inl e, pa')" "lb \<in> set (load_balancers (pna_pool sn))"
  then show "\<not> hasAvailablePorts sn lb n"
    by (auto simp: selectRoundRobin_def Let_def rr_search_None split: if_splits option.splits)
next
  fix pa sn n e pa'
  assume "selectRoundRobin pa sn n = (Inl e, pa')"
  then show "pa' = pa \<and> e =
      (if load_balancers (pna_pool sn) = [] then NoLoadBalancersConfigured else NoLoadBalancerHasPorts n)"
    by (auto simp: selectRoundRobin_def Let_def split: if_splits option.splits)
next
  fix pa sn n r pa'
  assume "selectRoundRobin pa sn n = (r, pa')"
  then show "al_strategy pa' = al_strategy pa \<and> al_poolMutexes pa' = al_poolMutexes pa \<and>
      (\<forall>k. k \<noteq> pool_index_key (pna_pool sn) \<longrightarrow>
         map_of (al_roundRobinIndex pa') k = map_of (al_roundRobinIndex pa) k)"
    by (auto simp: selectRoundRobin_def Let_def go_simps split: if_splits option.splits)
qed

interpretation least_used: lb_selector selectLeastUsed hasAvailablePorts usage_countable
proof
  fix pa sn n lb pa'
  assume "selectLeastUsed pa sn n = (Inr lb, pa')"
  then show "lb \<in> set (load_balancers (pna_pool sn)) \<and> hasAvailablePorts sn lb n"
    by (auto simp: selectLeastUsed_def Let_def split: if_splits option.splits
        dest: least_used_Some first_least_used_mem)
next
  fix pa sn n e pa' lb
  assume "selectLeastUsed pa sn n = (Inl e, pa')" "usage_countable sn"
    "lb \<in> set (load_balancers (pna_pool sn))"
  then show "\<not> hasAvailablePorts sn lb n"
    by (auto simp: selectLeastUsed_def Let_def usage_countable_qualifies [symmetric]
        split: if_splits option.splits dest: least_used_None)
next
  fix pa sn n e pa'
  assume "selectLeastUsed pa sn n = (Inl e, pa')"
  then show "pa' = pa \<and> e =
      (if load_balancers (pna_pool sn) = [] then NoLoadBalancersConfigured else NoLoadBalancerHasPorts n)"
    by (auto simp: selectLeastUsed_def Let_def split: if_splits option.splits)
next
  fix pa sn n r pa'
  assume "selectLeastUsed pa sn n = (r, pa')"
  then show "al_strategy pa' = al_strategy pa \<and> al_poolMutexes pa' = al_poolMutexes pa \<and>
      (\<forall>k. k \<noteq> pool_index_key (pna_pool sn) \<longrightarrow>
         map_of (al_roundRobinIndex pa') k = map_of (al_roundRobinIndex pa) k)"
    by (auto simp: selectLeastUsed_def Let_def split: if_splits option.splits)
qed

lemma SelectLoadBalancer_eq:
  "SelectLoadBalancer pa sn n =
     (if al_strategy pa = StrategyLeastUsed then selectLeastUsed pa sn n else selectRoundRobin pa sn n)"
  by (simp add: SelectLoadBalancer_def strategy_defs)

interpretation selection: lb_selector SelectLoadBalancer hasAvailablePorts usage_countable
proof
  fix pa sn n lb pa'
  assume "SelectLoadBalancer pa sn n = (Inr lb, pa')"
  then show "lb \<in> set (load_balancers (pna_pool sn)) \<and> hasAvailablePorts sn lb n"
    by (auto simp: SelectLoadBalancer_eq split: if_splits dest: round_robin.selected least_used.selected)
next
  fix pa sn n e pa' lb
  assume "SelectLoadBalancer pa sn n = (Inl e, pa')" "usage_countable sn"
    "lb \<in> set (load_balancers (pna_pool sn))"
  then show "\<not> hasAvailablePorts sn lb n"
    by (auto simp: SelectLoadBalancer_eq split: if_splits
        dest: round_robin.not_selected least_used.not_selected)
next
  fix pa sn n e pa'
  assume "SelectLoadBalancer pa sn n = (Inl e, pa')"
  then show "pa' = pa \<and> e =
      (if load_balancers (pna_pool sn) = [] then NoLoadBalancersConfigured else NoLoadBalancerHasPorts n)"
    by (cases "al_strategy pa = StrategyLeastUsed")
      (simp_all only: SelectLoadBalancer_eq simp_thms if_True if_False round_robin.select_error least_used.select_error)
next
  fix pa sn n r pa'
  assume "SelectLoadBalancer pa sn n = (r, pa')"
  then show "al_strategy pa' = al_strategy pa \<and> al_poolMutexes pa' = al_poolMutexes pa \<and>
      (\<forall>k. k \<noteq> pool_index_key (pna_pool sn) \<longrightarrow>
         map_of (al_roundRobinIndex pa') k = map_of (al_roundRobinIndex pa) k)"
    by (cases "al_strategy pa = StrategyLeastUsed")
      (simp_all add: SelectLoadBalancer_eq round_robin.select_frame least_used.select_frame)
qed

text \<open>
  Selection and port search together: on a snapshot that is valid for all its load
  balancers, a request is served exactly when some load balancer has room for it.
\<close>

locale lb_port_selection =
  lb_selector select has countable + port_capacity has find_ports valid
  for select :: "PoolAllocator \<Rightarrow> poolAndAllocations \<Rightarrow> int \<Rightarrow> ('e error + LoadBalancerRef) \<times> PoolAllocator"
    and has :: "poolAndAllocations \<Rightarrow> LoadBalancerRef \<Rightarrow> int \<Rightarrow> bool"
    and countable :: "poolAndAllocations \<Rightarrow> bool"
    and find_ports :: "poolAndAllocations \<Rightarrow> LoadBalancerRef \<Rightarrow> int \<Rightarrow> 'e error + int32 list"
    and valid :: "poolAndAllocations \<Rightarrow> LoadBalancerRef \<Rightarrow> bool"
begin

lemma selected_has_ports:
  assumes "\<And>lb. lb \<in> set (load_balancers (pna_pool sn)) \<Longrightarrow> valid sn lb"
    and "0 < n" and "n < 2 ^ 31" and "select pa sn n = (Inr lb, pa')"
  obtains ps where "find_ports sn lb n = Inr ps" and "int (length ps) = n" and "distinct ps"
    and "set ps \<inter> ports_on_lb (al_Items (pna_allocations sn)) (lb_ID lb) = {}"
proof -
  from selected [OF assms(4)] have lb: "valid sn lb" "has sn lb n" using assms(1) by auto
  from has_found [OF lb(1) assms(2,3) lb(2)] obtain ps where ps: "find_ports sn lb n = Inr ps" by blast
  from that [OF ps] found_free [OF lb(1) ps] found_not_in_use [OF lb(1) ps] show ?thesis by blast
qed

end

interpretation selection_ports:
  lb_port_selection SelectLoadBalancer hasAvailablePorts usage_countable findAvailablePorts snapshot_ok
  by unfold_locales

section \<open>Fairness of the cursor\<close>

text \<open>Selections one after the other, each on the snapshot of its moment.\<close>

fun select_run ::
  "PoolAllocator \<Rightarrow> poolAndAllocations list \<Rightarrow> int \<Rightarrow> ('e error + LoadBalancerRef) list \<times> PoolAllocator" where
  "select_run pa [] n = ([], pa)"
| "select_run pa (sn # sns) n =
     (let (r, pa') = selectRoundRobin pa sn n; (rs, pa'') = select_run pa' sns n in (r # rs, pa''))"

lemma fst_select_run_Cons:
  "(selectRoundRobin pa sn n :: ('e error + LoadBalancerRef) \<times> PoolAllocator) = (r, pa') \<Longrightarrow>
   (fst (select_run pa (sn # sns) n) :: ('e error + LoadBalancerRef) list) = r # fst (select_run pa' sns n)"
  by (simp add: split_beta Let_def)

declare select_run.simps(2) [simp del]

abbreviation cursor :: "PoolAllocator \<Rightarrow> ApolloNetworkPool \<Rightarrow> nat" where
  "cursor pa pool \<equiv> gm_get 0 (al_roundRobinIndex pa) (pool_index_key pool)"

lemma selectRoundRobin_all_open:
  assumes "lbs = load_balancers (pna_pool sn)" and "lbs \<noteq> []"
    and "\<forall>lb\<in>set lbs. hasAvailablePorts sn lb n"
  shows "\<exists>pa'. (selectRoundRobin pa sn n :: ('e error + LoadBalancerRef) \<times> PoolAllocator) =
       (Inr (lbs ! (cursor pa (pna_pool sn) mod length lbs)), pa') \<and>
     gm_get 0 (al_roundRobinIndex pa') (pool_index_key (pna_pool sn)) =
       Suc (cursor pa (pna_pool sn) mod length lbs) mod length lbs"
proof -
  let ?c = "cursor pa (pna_pool sn)"
  have len: "0 < length lbs" using assms(2) by simp
  then have "?c mod length lbs < length lbs" by simp
  then have "hasAvailablePorts sn (lbs ! (?c mod length lbs)) n"
    using assms(3) by simp
  then have "rr_search sn n ?c 0 = Some (?c mod length lbs)"
    using len assms(1) by (simp add: rr_search.simps [of sn n ?c 0] Let_def)
  then show ?thesis
    using assms(1,2) by (simp add: selectRoundRobin_def Let_def go_simps)
qed

lemma select_run_cycle:
  assumes "lbs \<noteq> []"
    and "\<forall>sn\<in>set sns. load_balancers (pna_pool sn) = lbs \<and> pool_index_key (pna_pool sn) = key \<and>
           (\<forall>lb\<in>set lbs. hasAvailablePorts sn lb n)"
    and "cur = gm_get 0 (al_roundRobinIndex pa) key"
  shows "fst (select_run pa sns n :: ('e error + LoadBalancerRef) list \<times> PoolAllocator) =
    map (\<lambda>j. Inr (lbs ! ((cur + j) mod length lbs))) [0..<length sns]"
  using assms(2,3)
proof (induction sns arbitrary: pa cur)
  case Nil
  then show ?case by simp
next
  case (Cons sn sns)
  have sn: "load_balancers (pna_pool sn) = lbs" "pool_index_key (pna_pool sn) = key"
    "\<forall>lb\<in>set lbs. hasAvailablePorts sn lb n"
    using Cons.prems(1) by auto
  obtain pa' where sel: "(selectRoundRobin pa sn n :: ('e error + LoadBalancerRef) \<times> PoolAllocator) =
      (Inr (lbs ! (cur mod length lbs)), pa')"
    and cur': "gm_get 0 (al_roundRobinIndex pa') key = Suc (cur mod length lbs) mod length lbs"
    using selectRoundRobin_all_open [OF sn(1) [symmetric] assms(1) sn(3), of pa, where 'e = 'e] Cons.prems(2) sn(2)
    by auto
  have tail: "fst (select_run pa' sns n :: ('e error + LoadBalancerRef) list \<times> PoolAllocator) =
      map (\<lambda>j. Inr (lbs ! ((Suc (cur mod length lbs) mod length lbs + j) mod length lbs))) [0..<length sns]"
    using Cons.IH [of "Suc (cur mod length lbs) mod length lbs" pa'] Cons.prems(1) cur' by simp
  have shift: "(Suc (cur mod length lbs) mod length lbs + j) mod length lbs = (cur + Suc j) mod length lbs" for j
    by (metis add_Suc_right add_Suc_shift mod_Suc_eq mod_add_left_eq)
  show ?case
    using tail shift by (simp add: fst_select_run_Cons [OF sel] map_upt_Suc del: upt_Suc)
qed

section \<open>Properties\<close>

text \<open>
  Round-robin: the loop over the load balancers returns the first one with room in
  cyclic order from the pool's cursor, moves the cursor of that pool just past it, and
  changes nothing when it fails. Every strategy other than least-used selects this way,
  the declared strategy ''weighted'' included.
\<close>

theorem selectRoundRobin_spec:
  "selectRoundRobin pa sn n =
     (let lbs = load_balancers (pna_pool sn); key = pool_index_key (pna_pool sn) in
      if lbs = [] then (Inl NoLoadBalancersConfigured, pa)
      else case List.find (\<lambda>k. hasAvailablePorts sn (lbs ! k) n)
             (rr_order (gm_get 0 (al_roundRobinIndex pa) key) (length lbs)) of
             None \<Rightarrow> (Inl (NoLoadBalancerHasPorts n), pa)
           | Some k \<Rightarrow> (Inr (lbs ! k),
               pa\<lparr>al_roundRobinIndex := gm_put key (Suc k mod length lbs) (al_roundRobinIndex pa)\<rparr>)) \<and>
   SelectLoadBalancer (pa\<lparr>al_strategy := StrategyWeighted\<rparr>) sn n =
     selectRoundRobin (pa\<lparr>al_strategy := StrategyWeighted\<rparr>) sn n"
  by (simp add: selectRoundRobin_def rr_search_order Let_def SelectLoadBalancer_def strategy_defs
      split: option.split)

text \<open>
  C33. Round-robin is fair: over consecutive selections in a pool whose load balancers all
  have room each time, the selected load balancers run through the pool's list in order
  from the cursor, again and again. So of any \<open>length lbs\<close> selections in a row each load
  balancer gets exactly one.
\<close>

theorem round_robin_fair:
  assumes "lbs \<noteq> []"
    and "\<forall>sn\<in>set sns. load_balancers (pna_pool sn) = lbs \<and> pool_index_key (pna_pool sn) = key \<and>
           (\<forall>lb\<in>set lbs. hasAvailablePorts sn lb n)"
  shows "(fst (select_run pa sns n) :: ('e error + LoadBalancerRef) list) =
      map (\<lambda>j. Inr (lbs ! ((gm_get 0 (al_roundRobinIndex pa) key + j) mod length lbs))) [0..<length sns] \<and>
    (length sns = length lbs \<longrightarrow>
       set (fst (select_run pa sns n) :: ('e error + LoadBalancerRef) list) = Inr ` set lbs)"
proof -
  let ?cur = "gm_get 0 (al_roundRobinIndex pa) key"
  have run: "(fst (select_run pa sns n) :: ('e error + LoadBalancerRef) list) = map (\<lambda>j. Inr (lbs ! ((?cur + j) mod length lbs))) [0..<length sns]"
    using assms by (intro select_run_cycle) auto
  have "set (map (\<lambda>j. Inr (lbs ! ((?cur + j) mod length lbs)) :: 'e error + LoadBalancerRef) [0..<length lbs]) =
      (\<lambda>k. Inr (lbs ! k)) ` set (rr_order ?cur (length lbs))"
    by (auto simp: rr_order_def)
  also have "\<dots> = Inr ` (\<lambda>k. lbs ! k) ` {..<length lbs}"
    using assms(1) by (simp add: set_rr_order image_image)
  also have "(\<lambda>k. lbs ! k) ` {..<length lbs} = set lbs"
    by (auto simp: set_conv_nth)
  finally show ?thesis using run by auto
qed

theorem round_robin_fair_witness:
  "fst (select_run (NewPoolAllocator StrategyRoundRobin)
     [demo_snapshot [] [], demo_snapshot [] [(''lb-1'', 30000)], demo_snapshot [] [(''lb-2'', 30000)]] 1)
   = ([Inr (sample_lb ''lb-1''), Inr (sample_lb ''lb-2''), Inr (sample_lb ''lb-1'')]
        :: (unit error + LoadBalancerRef) list)"
proof -
  let ?sns = "[demo_snapshot [] [], demo_snapshot [] [(''lb-1'', 30000)], demo_snapshot [] [(''lb-2'', 30000)]]"
  let ?lbs = "[sample_lb ''lb-1'', sample_lb ''lb-2'']"
  have "\<forall>sn\<in>set ?sns. load_balancers (pna_pool sn) = ?lbs \<and> pool_index_key (pna_pool sn) = ''/pool'' \<and>
      (\<forall>lb\<in>set ?lbs. hasAvailablePorts sn lb 1)"
    by (simp add: demo_snapshot_defs pool_index_key_def sprintf_slash_def zero_object_meta_def
        hasAvailablePorts_def getLBPortUsage_def to_int32_def word_sle_eq)
  from round_robin_fair [OF _ this, THEN conjunct1, of "NewPoolAllocator StrategyRoundRobin"]
  show ?thesis by (simp add: NewPoolAllocator_def go_simps upt_rec)
qed

text \<open>
  C34. Least-used: the selected load balancer has room, no load balancer of the pool with
  room holds fewer ports, and every one listed before it with room holds strictly more,
  so ties go to the first. The allocator's state is not changed.
\<close>

theorem selectLeastUsed_minimal:
  assumes "usage_countable sn" and "selectLeastUsed pa sn n = (Inr lb, pa')"
  shows "pa' = pa \<and> hasAvailablePorts sn lb n \<and>
    (\<exists>before after. load_balancers (pna_pool sn) = before @ lb # after \<and>
       (\<forall>l\<in>set before. hasAvailablePorts sn l n \<longrightarrow>
          length (lb_bindings (al_Items (pna_allocations sn)) (lb_ID lb)) <
          length (lb_bindings (al_Items (pna_allocations sn)) (lb_ID l))) \<and>
       (\<forall>l\<in>set after. hasAvailablePorts sn l n \<longrightarrow>
          length (lb_bindings (al_Items (pna_allocations sn)) (lb_ID lb)) \<le>
          length (lb_bindings (al_Items (pna_allocations sn)) (lb_ID l))))"
proof -
  let ?count = "\<lambda>l. length (lb_bindings (al_Items (pna_allocations sn)) (lb_ID l))"
  have usage: "usage_of sn l = int (?count l)" for l
  proof -
    have "?count l \<le> length (all_bindings (al_Items (pna_allocations sn)))"
      unfolding lb_bindings_def by (rule length_filter_le)
    with assms(1) show ?thesis
      using sint32_of_nat [of "?count l"] by (simp add: getLBPortUsage_count usage_countable_def)
  qed
  from assms(2) have pa: "pa' = pa" and f: "first_least_used sn n (load_balancers (pna_pool sn)) lb"
    by (auto simp: selectLeastUsed_def Let_def split: if_splits option.splits dest: least_used_Some)
  from f have "hasAvailablePorts sn lb n" by (simp add: first_least_used_mem)
  with pa f show ?thesis
    unfolding first_least_used_def usage_countable_qualifies [OF assms(1)] usage by auto
qed

theorem selectLeastUsed_minimal_witness:
  "hasAvailablePorts (demo_snapshot [] [(''lb-1'', 30000)]) (sample_lb ''lb-2'') 1"
proof -
  let ?sn = "demo_snapshot [] [(''lb-1'', 30000)]"
  have c: "usage_countable ?sn"
    by (simp add: usage_countable_def demo_snapshot_defs)
  have s: "selectLeastUsed (NewPoolAllocator StrategyLeastUsed) ?sn 1 =
      (Inr (sample_lb ''lb-2'') :: unit error + LoadBalancerRef, NewPoolAllocator StrategyLeastUsed)"
    by (simp add: selectLeastUsed_def least_used_step_def max_int32_value demo_snapshot_defs
        hasAvailablePorts_def getLBPortUsage_def to_int32_def word_sle_eq word_sless_alt)
  from selectLeastUsed_minimal [OF c s] show ?thesis by blast
qed

text \<open>
  C32. Selecting is complete and leads to ports: on a snapshot with a valid port range and
  countable usage, a positive request is given a load balancer of the pool exactly when
  some load balancer of the pool has room for it, and then the port search on the chosen
  one returns that many distinct ports that no listed allocation holds on it.
\<close>

theorem SelectLoadBalancer_complete:
  assumes "usage_countable sn" and "\<And>lb. lb \<in> set (load_balancers (pna_pool sn)) \<Longrightarrow> snapshot_ok sn lb"
    and "0 < n" and "n < 2 ^ 31"
  shows "((\<exists>lb pa'. (SelectLoadBalancer pa sn n :: ('e error + LoadBalancerRef) \<times> PoolAllocator) = (Inr lb, pa')) \<longleftrightarrow>
     (\<exists>lb\<in>set (load_balancers (pna_pool sn)). hasAvailablePorts sn lb n)) \<and>
    (\<forall>lb pa'. (SelectLoadBalancer pa sn n :: ('e error + LoadBalancerRef) \<times> PoolAllocator) = (Inr lb, pa') \<longrightarrow>
       lb \<in> set (load_balancers (pna_pool sn)) \<and>
       (\<exists>ps. findAvailablePorts sn lb n = (Inr ps :: 'e error + int32 list) \<and> int (length ps) = n \<and>
          distinct ps \<and> set ps \<inter> ports_on_lb (al_Items (pna_allocations sn)) (lb_ID lb) = {}))"
  using selection.select_succeeds_iff [OF assms(1)] selection.selected
    selection_ports.selected_has_ports [OF assms(2-4)]
  by metis

theorem SelectLoadBalancer_complete_witness:
  "\<exists>lb pa'. (SelectLoadBalancer (NewPoolAllocator StrategyWeighted) (demo_snapshot [30001] [(''lb-1'', 30000)]) 2
     :: (unit error + LoadBalancerRef) \<times> PoolAllocator) = (Inr lb, pa')"
proof -
  let ?sn = "demo_snapshot [30001] [(''lb-1'', 30000)]"
  have c: "usage_countable ?sn" by (simp add: usage_countable_def demo_snapshot_defs)
  have ok: "snapshot_ok ?sn lb" if "lb \<in> set (load_balancers (pna_pool ?sn))" for lb
    using that demo_snapshot_ok [of "lb_ID lb"] by (simp add: snapshot_ok_def)
  have "sample_lb ''lb-1'' \<in> set (load_balancers (pna_pool ?sn)) \<and> hasAvailablePorts ?sn (sample_lb ''lb-1'') 2"
    by (simp add: demo_snapshot_defs hasAvailablePorts_def getLBPortUsage_def to_int32_def word_sle_eq)
  then show ?thesis
    using SelectLoadBalancer_complete [OF c ok, of 2 "NewPoolAllocator StrategyWeighted", where 'e = unit]
    by auto
qed

end
