(* ===== verification/Allocator.thy ===== *)
theory Allocator
  imports LbSelect Ledger
begin

text \<open>
  The allocation path (pkg/allocator/core.go and allocate.go): AllocatePort takes the
  pool's mutex, and inside the retry on conflict checks for an allocation the pod already
  has, reads the pool and its allocations, selects a load balancer, finds ports, builds
  the allocation and creates it. Each function is translated whole, over the allocator's
  state and the client's world.
\<close>

section \<open>Reading the pool and its allocations\<close>

definition getPoolAndAllocations ::
  "('s, 'e) kube_client \<Rightarrow> string \<Rightarrow> string \<Rightarrow> 's \<Rightarrow> ('e error + poolAndAllocations) \<times> 's" where
  "getPoolAndAllocations api poolName namespace s =
     (case kc_GetPool api \<lparr>nn_Namespace = namespace, nn_Name = poolName\<rparr> s of
        (Inl err, s1) \<Rightarrow> (Inl (FailedToGetPool poolName (ApiError err)), s1)
      | (Inr pool, s1) \<Rightarrow>
          (case kc_ListAllocations api [(LabelPoolNameKey, om_Name (np_ObjectMeta pool))] None s1 of
             (Inl err, s2) \<Rightarrow>
               (Inl (FailedToListAllocations (om_Name (np_ObjectMeta pool)) (ApiError err)), s2)
           | (Inr allocations, s2) \<Rightarrow>
               (Inr \<lparr>pna_pool = pool, pna_allocations = allocations\<rparr>, s2)))"

text \<open>The loop over the listed allocations returns at the first one of the pod.\<close>

fun duplicate_error ::
  "string \<Rightarrow> string \<Rightarrow> string \<Rightarrow> PortAllocation list \<Rightarrow> 'e error option" where
  "duplicate_error poolName podName podNamespace [] = None"
| "duplicate_error poolName podName podNamespace (existing # rest) =
     (if pi_Name (pod_info existing) = podName \<and> pi_Namespace (pod_info existing) = podNamespace
      then (if om_DeletionTimestamp (pa_ObjectMeta existing) \<noteq> None
            then Some (PodAllocationBeingDeleted podNamespace podName
                         (om_Name (pa_ObjectMeta existing)) poolName)
            else Some (PodHasActiveAllocation podNamespace podName
                         (om_Name (pa_ObjectMeta existing)) poolName))
      else duplicate_error poolName podName podNamespace rest)"

definition checkForDuplicateAllocation ::
  "('s, 'e) kube_client \<Rightarrow> string \<Rightarrow> string \<Rightarrow> string \<Rightarrow> 's \<Rightarrow> 'e error option \<times> 's" where
  "checkForDuplicateAllocation api poolName podName podNamespace s =
     (case kc_ListAllocations api [(LabelPoolNameKey, poolName)] None s of
        (Inl err, s1) \<Rightarrow> (Some (FailedToListAllocations poolName (ApiError err)), s1)
      | (Inr allocations, s1) \<Rightarrow>
          (duplicate_error poolName podName podNamespace (al_Items allocations), s1))"

section \<open>Building the allocation\<close>

definition sprintf_dash :: "string \<Rightarrow> string \<Rightarrow> string" where
  "sprintf_dash a b = a @ ''-'' @ b"

definition make_binding :: "LoadBalancerRef \<Rightarrow> PodPortAllocation \<Rightarrow> int32 \<Rightarrow> PortBinding" where
  "make_binding selectedLB containerPort lbPort =
     \<lparr>pb_PodPort = pp_PodPort containerPort, pb_LBPort = lbPort,
      pb_Protocol = pp_Protocol containerPort, pb_PortName = pp_PortName containerPort,
      pb_BindingType = GetDefaultBindingType, pb_LoadBalancerRef = selectedLB,
      pb_BindingConfig = None\<rparr>"

text \<open>
  \<open>lbPorts[i]\<close> for each index of the container ports; findAvailablePorts has returned
  one port for each (\<open>findAvailablePorts_length\<close>), so no index is out of range.
\<close>

definition make_bindings ::
  "LoadBalancerRef \<Rightarrow> PodPortAllocation list \<Rightarrow> int32 list \<Rightarrow> PortBinding list" where
  "make_bindings selectedLB containerPorts lbPorts =
     map (\<lambda>i. make_binding selectedLB (containerPorts ! i) (lbPorts ! i)) [0..<length containerPorts]"

definition build_allocation ::
  "ApolloNetworkPool \<Rightarrow> string \<Rightarrow> string \<Rightarrow> PortBinding list \<Rightarrow> time \<Rightarrow> PortAllocation" where
  "build_allocation pool podName podNamespace portBindings now =
     \<lparr>pa_TypeMeta = zero_type_meta,
      pa_ObjectMeta = zero_object_meta
        \<lparr>om_Name := sprintf_dash (om_Name (np_ObjectMeta pool)) podName,
         om_Namespace := om_Namespace (np_ObjectMeta pool),
         om_Labels := [(LabelPoolNameKey, om_Name (np_ObjectMeta pool)), (LabelPodNameKey, podName)],
         om_Annotations := Some [(AnnotationBindingTypeKey, GetDefaultBindingType)]\<rparr>,
      pa_Spec = \<lparr>as_PodInfo = \<lparr>pi_Name = podName, pi_Namespace = podNamespace, pi_UID = '''', pi_PodIP = ''''\<rparr>,
                 as_PortBindings = portBindings\<rparr>,
      pa_Status = \<lparr>st_Phase = AllocationPhasePending, st_BindingStatuses = [],
        st_AllocatedAt = Some now, st_BoundAt = None, st_LastUpdated = None, st_Conditions = [],
        st_Message = '''', st_ObservedGeneration = 0\<rparr>\<rparr>"

definition tryAllocatePort ::
  "('s, 'e) kube_client \<Rightarrow> string \<Rightarrow> string \<Rightarrow> string \<Rightarrow> string \<Rightarrow> PodPortAllocation list \<Rightarrow>
   PoolAllocator \<Rightarrow> 's \<Rightarrow> ('e error + PortAllocation) \<times> PoolAllocator \<times> 's" where
  "tryAllocatePort api poolName namespace podName podNamespace containerPorts pa s =
     (case checkForDuplicateAllocation api poolName podName podNamespace s of
        (Some err, s1) \<Rightarrow> (Inl err, pa, s1)
      | (None, s1) \<Rightarrow>
          (case getPoolAndAllocations api poolName podNamespace s1 of
             (Inl err, s2) \<Rightarrow> (Inl (FailedToGetPoolAndAllocations err), pa, s2)
           | (Inr allocations, s2) \<Rightarrow>
               if length containerPorts = 0
               then (Inr (build_allocation (pna_pool allocations) podName podNamespace [] (kc_Now api s2)),
                     pa, s2)
               else
                 (case SelectLoadBalancer pa allocations (int (length containerPorts)) of
                    (Inl err, pa') \<Rightarrow> (Inl (FailedToSelectLoadBalancer err), pa', s2)
                  | (Inr selectedLB, pa') \<Rightarrow>
                      (case findAvailablePorts allocations selectedLB (int (length containerPorts)) of
                         Inl err \<Rightarrow> (Inl (FailedToFindPorts (lb_ID selectedLB) err), pa', s2)
                       | Inr lbPorts \<Rightarrow>
                           (Inr (build_allocation (pna_pool allocations) podName podNamespace
                                   (make_bindings selectedLB containerPorts lbPorts) (kc_Now api s2)),
                            pa', s2)))))"

section \<open>Creating it\<close>

text \<open>
  The argument is a pointer (\<open>None\<close> for nil). Create writes what the server stored back
  into the object; the result \<open>Inr\<close> is a nil error with that object.
\<close>

definition createAllocation ::
  "('s, 'e) kube_client \<Rightarrow> PortAllocation option \<Rightarrow> 's \<Rightarrow> ('e error + PortAllocation) \<times> 's" where
  "createAllocation api ptr s =
     (case ptr of
        None \<Rightarrow> (Inl AllocationCannotBeNil, s)
      | Some allocation \<Rightarrow>
          (case kc_GetAllocation api (alloc_key allocation) s of
             (Inl err, s1) \<Rightarrow>
               if \<not> kc_IsNotFound api err then (Inl (FailedToCheckExisting (ApiError err)), s1)
               else
                 (case kc_CreateAllocation api allocation s1 of
                    (Inl err, s2) \<Rightarrow> (Inl (FailedToCreateAllocation (ApiError err)), s2)
                  | (Inr created, s2) \<Rightarrow> (Inr created, s2))
           | (Inr existing, s1) \<Rightarrow>
               if om_DeletionTimestamp (pa_ObjectMeta existing) \<noteq> None
               then (Inl (AllocationBeingDeleted (om_Namespace (pa_ObjectMeta existing))
                            (om_Name (pa_ObjectMeta existing))), s1)
               else (Inl (AllocationAlreadyExists (om_Namespace (pa_ObjectMeta existing))
                            (om_Name (pa_ObjectMeta existing))), s1)))"

section \<open>The pool mutex and AllocatePort\<close>

text \<open>LoadOrStore: the mutex of the pool, created unlocked when it is not there yet.\<close>

definition getPoolMutex :: "PoolAllocator \<Rightarrow> string \<Rightarrow> string \<Rightarrow> string \<times> PoolAllocator" where
  "getPoolMutex pa poolName namespace =
     (let key = sprintf_slash namespace poolName in
      (key, case map_of (al_poolMutexes pa) key of
              None \<Rightarrow> pa\<lparr>al_poolMutexes := gm_put key False (al_poolMutexes pa)\<rparr>
            | Some _ \<Rightarrow> pa))"

definition mutex_held :: "string \<Rightarrow> PoolAllocator \<Rightarrow> bool" where
  "mutex_held key pa = gm_get False (al_poolMutexes pa) key"

definition set_mutex :: "string \<Rightarrow> bool \<Rightarrow> PoolAllocator \<Rightarrow> PoolAllocator" where
  "set_mutex key held pa = pa\<lparr>al_poolMutexes := gm_put key held (al_poolMutexes pa)\<rparr>"

text \<open>
  The closure that is retried reads and writes the variable \<open>allocation\<close>, the
  allocator and the world.
\<close>

type_synonym 's alloc_vars = "PortAllocation option \<times> PoolAllocator \<times> 's"

definition allocate_attempt ::
  "('s, 'e) kube_client \<Rightarrow> string \<Rightarrow> string \<Rightarrow> string \<Rightarrow> string \<Rightarrow> PodPortAllocation list \<Rightarrow>
   's alloc_vars \<Rightarrow> 'e error option \<times> 's alloc_vars" where
  "allocate_attempt api poolName namespace podName podNamespace containerPorts = (\<lambda>(_, pa, s).
     case tryAllocatePort api poolName namespace podName podNamespace containerPorts pa s of
       (Inl err, pa', s') \<Rightarrow> (Some err, None, pa', s')
     | (Inr allocation, pa', s') \<Rightarrow>
         (case createAllocation api (Some allocation) s' of
            (Inl err, s'') \<Rightarrow> (Some err, Some allocation, pa', s'')
          | (Inr created, s'') \<Rightarrow> (None, Some created, pa', s'')))"

text \<open>
  The result is \<open>Blocks\<close> where the mutex is held by somebody else, and where the port
  loop does not end (the mutex then stays held). The deferred unlock runs on a return and
  on a panic.
\<close>

definition AllocatePort ::
  "('s, 'e) kube_client \<Rightarrow> ('s alloc_vars, 'e error) retrier \<Rightarrow> string \<Rightarrow> string \<Rightarrow> string \<Rightarrow> string \<Rightarrow>
   PodPortAllocation list \<Rightarrow> PoolAllocator \<Rightarrow> 's \<Rightarrow>
   ('e error + PortAllocation, PoolAllocator \<times> 's) go" where
  "AllocatePort api retry poolName namespace podName podNamespace containerPorts pa s =
     (let (key, pa1) = getPoolMutex pa poolName namespace in
      if mutex_held key pa1 then Blocks (pa1, s)
      else
        case retry (allocate_attempt api poolName namespace podName podNamespace containerPorts)
               (None, set_mutex key True pa1, s) of
          (Some err, _, pa2, s2) \<Rightarrow>
            if never_returns err then Blocks (pa2, s2)
            else Returns (Inl err) (set_mutex key False pa2, s2)
        | (None, Some allocation, pa2, s2) \<Rightarrow> Returns (Inr allocation) (set_mutex key False pa2, s2)
        | (None, None, pa2, s2) \<Rightarrow> Panics (set_mutex key False pa2, s2))"

section \<open>What a built allocation holds\<close>

lemma search_loop_length:
  assumes "search_loop m maxPort count port acc = Some r" and "int (length acc) \<le> count"
  shows "int (length r) \<le> count"
proof -
  have "int (length a) \<le> c \<longrightarrow> int (length r) \<le> c"
    if "search_loop m' mx c p a = Some r" for m' mx c p a r
  proof (rule search_loop.raw_induct [where P = "\<lambda>m' mx c p a r. int (length a) \<le> c \<longrightarrow> int (length r) \<le> c",
        OF _ that])
    fix f m' mx c p a r
    assume IH: "\<And>m' mx c p a r. f m' mx c p a = Some r \<Longrightarrow> int (length a) \<le> c \<longrightarrow> int (length r) \<le> c"
      and eq: "(if p <=s mx \<and> int (length a) < c
         then f m' mx c (p + 1) (if \<not> gm_get False m' p then a @ [p] else a) else Some a) = Some r"
    show "int (length a) \<le> c \<longrightarrow> int (length r) \<le> c"
    proof (cases "p <=s mx \<and> int (length a) < c")
      case True
      with eq have "f m' mx c (p + 1) (if \<not> gm_get False m' p then a @ [p] else a) = Some r" by simp
      from IH [OF this] True show ?thesis by (auto split: if_splits)
    next
      case False
      with eq show ?thesis by auto
    qed
  qed
  with assms show ?thesis by blast
qed

lemma findAvailablePorts_length: "findAvailablePorts sn lb n = Inr ps \<Longrightarrow> int (length ps) = n"
  by (auto simp: findAvailablePorts_def Let_def split: if_splits option.splits
      dest!: search_loop_length)

lemma make_bindings_length [simp]: "length (make_bindings lb cps ps) = length cps"
  by (simp add: make_bindings_def)

lemma make_bindings_nth: "i < length cps \<Longrightarrow> make_bindings lb cps ps ! i = make_binding lb (cps ! i) (ps ! i)"
  by (simp add: make_bindings_def)

lemma make_bindings_slots:
  assumes "length ps = length cps"
  shows "map slot_of (make_bindings lb cps ps) = map (\<lambda>p. (lb_ID lb, p)) ps"
  using assms by (intro nth_equalityI) (auto simp: make_bindings_nth make_binding_def)

lemma build_allocation_simps [simp]:
  "bindings (build_allocation pool pod ns bs now) = bs"
  "pi_Name (pod_info (build_allocation pool pod ns bs now)) = pod"
  "pi_Namespace (pod_info (build_allocation pool pod ns bs now)) = ns"
  "alloc_key (build_allocation pool pod ns bs now) =
     \<lparr>nn_Namespace = om_Namespace (np_ObjectMeta pool),
      nn_Name = sprintf_dash (om_Name (np_ObjectMeta pool)) pod\<rparr>"
  "om_Labels (pa_ObjectMeta (build_allocation pool pod ns bs now)) =
     [(LabelPoolNameKey, om_Name (np_ObjectMeta pool)), (LabelPodNameKey, pod)]"
  "om_DeletionTimestamp (pa_ObjectMeta (build_allocation pool pod ns bs now)) = None"
  by (simp_all add: build_allocation_def meta_key_def zero_object_meta_def)

lemma duplicate_error_None:
  "duplicate_error pool pod ns as = None \<longleftrightarrow>
     (\<forall>a\<in>set as. \<not> (pi_Name (pod_info a) = pod \<and> pi_Namespace (pod_info a) = ns))"
  by (induction as) auto

section \<open>The steps against the cluster\<close>

lemma getPoolAndAllocations_view [view_simps]:
  assumes "consistent_client api view" and "getPoolAndAllocations api pool ns s = (r, s')"
  shows "view s' = view s"
  using assms
  by (auto simp: getPoolAndAllocations_def get_pool_view list_view split: prod.splits sum.splits)

lemma getPoolAndAllocations_Inr:
  assumes "consistent_client api view" and "getPoolAndAllocations api pool ns s = (Inr sn, s')"
  shows "pna_pool sn \<in> set (cl_Pools (view s))" and "om_Name (np_ObjectMeta (pna_pool sn)) = pool"
    and "set (al_Items (pna_allocations sn)) = set (pool_allocs (view s) pool)"
proof -
  from assms(2) obtain p s1 l where g: "kc_GetPool api \<lparr>nn_Namespace = ns, nn_Name = pool\<rparr> s = (Inr p, s1)"
    and l: "kc_ListAllocations api [(LabelPoolNameKey, om_Name (np_ObjectMeta p))] None s1 = (Inr l, s')"
    and sn: "sn = \<lparr>pna_pool = p, pna_allocations = l\<rparr>"
    by (auto simp: getPoolAndAllocations_def split: prod.splits sum.splits)
  have p: "p \<in> set (cl_Pools (view s))" "om_Name (np_ObjectMeta p) = pool"
    using get_pool_found [OF assms(1) g] by simp_all
  then show "pna_pool sn \<in> set (cl_Pools (view s))" "om_Name (np_ObjectMeta (pna_pool sn)) = pool"
    using sn by simp_all
  show "set (al_Items (pna_allocations sn)) = set (pool_allocs (view s) pool)"
  proof -
    have "set (al_Items l) = {a \<in> set (cl_Allocs (view s)). in_pool pool a}"
      using list_items [OF assms(1) l] get_pool_view [OF assms(1) g] p(2) by simp
    then show ?thesis unfolding sn by (simp add: pool_allocs_def)
  qed
qed

lemma checkForDuplicateAllocation_view [view_simps]:
  assumes "consistent_client api view" and "checkForDuplicateAllocation api pool pod ns s = (r, s')"
  shows "view s' = view s"
  using assms
  by (auto simp: checkForDuplicateAllocation_def list_view split: prod.splits sum.splits)

lemma checkForDuplicateAllocation_None:
  assumes "consistent_client api view" and "checkForDuplicateAllocation api pool pod ns s = (None, s')"
  shows "(ns, pod) \<notin> pod_of ` set (pool_allocs (view s) pool)"
proof -
  from assms(2) obtain l where l: "kc_ListAllocations api [(LabelPoolNameKey, pool)] None s = (Inr l, s')"
    and "duplicate_error pool pod ns (al_Items l) = (None :: 'b error option)"
    by (auto simp: checkForDuplicateAllocation_def split: prod.splits sum.splits)
  with list_items [OF assms(1) l] show ?thesis
    by (auto simp: duplicate_error_None set_pool_allocs pod_of_def)
qed

section \<open>What an allocation grants\<close>

text \<open>
  An allocation that may be stored for a pod and its container ports in a pool of the
  cluster: under the name the pool and the pod make up, labelled with the two, not marked
  as deleting, one binding per container port in order, all on one load balancer of the pool, on distinct ports
  that are in the pool's range, not excluded, and free in the pool's ledger.
\<close>

definition binds :: "PodPortAllocation \<Rightarrow> LoadBalancerRef \<Rightarrow> PortBinding \<Rightarrow> bool" where
  "binds cp lb b \<longleftrightarrow>
     pb_PodPort b = pp_PodPort cp \<and> pb_Protocol b = pp_Protocol cp \<and> pb_PortName b = pp_PortName cp \<and>
     pb_BindingType b = GetDefaultBindingType \<and> pb_LoadBalancerRef b = lb"

definition grants_in ::
  "cluster \<Rightarrow> ApolloNetworkPool \<Rightarrow> string \<Rightarrow> string \<Rightarrow> PodPortAllocation list \<Rightarrow> PortAllocation \<Rightarrow> bool" where
  "grants_in c pool podName podNamespace cps a \<longleftrightarrow>
     alloc_key a = \<lparr>nn_Namespace = om_Namespace (np_ObjectMeta pool),
                     nn_Name = sprintf_dash (om_Name (np_ObjectMeta pool)) podName\<rparr> \<and>
     pod_of a = (podNamespace, podName) \<and> om_DeletionTimestamp (pa_ObjectMeta a) = None \<and>
     grantable c (om_Name (np_ObjectMeta pool)) a \<and>
     (cps = [] \<longrightarrow> bindings a = []) \<and>
     (cps \<noteq> [] \<longrightarrow> (\<exists>lb\<in>set (load_balancers pool). list_all2 (\<lambda>cp b. binds cp lb b) cps (bindings a))) \<and>
     (\<forall>b\<in>set (bindings a).
        pr_Min (port_range pool) <=s pb_LBPort b \<and> pb_LBPort b <=s pr_Max (port_range pool) \<and>
        pb_LBPort b \<notin> set (pr_ExcludedPorts (port_range pool)))"

definition grants ::
  "cluster \<Rightarrow> string \<Rightarrow> string \<Rightarrow> string \<Rightarrow> PodPortAllocation list \<Rightarrow> PortAllocation \<Rightarrow> bool" where
  "grants c poolName podName podNamespace cps a \<longleftrightarrow>
     (\<exists>pool\<in>set (cl_Pools c). om_Name (np_ObjectMeta pool) = poolName \<and>
        grants_in c pool podName podNamespace cps a)"

text \<open>Every pool keeps clear of the end of the int32 range, where the port loop wraps around.\<close>

definition pools_bounded :: "cluster \<Rightarrow> bool" where
  "pools_bounded c \<longleftrightarrow> (\<forall>p\<in>set (cl_Pools c). sint (pr_Max (port_range p)) < 2 ^ 31 - 1)"

text \<open>The slots that are found are distinct and not in use in the snapshot.\<close>

lemma found_slots:
  assumes "sint (pr_Max (port_range (pna_pool sn))) < 2 ^ 31 - 1"
    and "findAvailablePorts sn lb (int (length cps)) = (Inr ps :: 'e error + int32 list)"
  shows "distinct (map slot_of (make_bindings lb cps ps)) \<and>
    set (map slot_of (make_bindings lb cps ps)) \<inter> set (slots (al_Items (pna_allocations sn))) = {}"
proof -
  have ps: "ps = take (length cps) (free_ports sn (lb_ID lb))"
    using assms(2) unfolding findAvailablePorts_Inr [OF assms(1)] by auto
  then have "distinct ps" "set ps \<subseteq> set (free_ports sn (lb_ID lb))"
    using set_take_subset by (simp_all, fast)
  moreover have "map slot_of (make_bindings lb cps ps) = map (\<lambda>p. (lb_ID lb, p)) ps"
    using findAvailablePorts_length [OF assms(2)] by (intro make_bindings_slots) simp
  ultimately show ?thesis
    by (auto simp: distinct_map inj_on_def set_slots set_free_ports taken_ports_def)
qed

lemma grants_in_built:
  assumes sn: "pna_pool sn = pool" "set (al_Items (pna_allocations sn)) = set (pool_allocs c (om_Name (np_ObjectMeta pool)))"
    and pod_free: "(ns, pod) \<notin> pod_of ` set (pool_allocs c (om_Name (np_ObjectMeta pool)))"
    and max: "sint (pr_Max (port_range pool)) < 2 ^ 31 - 1"
    and lb: "lb \<in> set (load_balancers pool)"
    and ps: "findAvailablePorts sn lb (int (length cps)) = (Inr ps :: 'e error + int32 list)"
  shows "grants_in c pool pod ns cps (build_allocation pool pod ns (make_bindings lb cps ps) now)"
proof -
  let ?bs = "make_bindings lb cps ps"
  have m: "sint (pr_Max (port_range (pna_pool sn))) < 2 ^ 31 - 1" using max sn(1) by simp
  have take: "0 < length cps" "ps = take (length cps) (free_ports sn (lb_ID lb))"
    using ps unfolding findAvailablePorts_Inr [OF m] by auto
  have "set (slots (al_Items (pna_allocations sn))) = set (slots (pool_allocs c (om_Name (np_ObjectMeta pool))))"
    unfolding set_slots ports_on_lb_cong [OF sn(2)] by (rule refl)
  with found_slots [OF m ps] pod_free
  have "grantable c (om_Name (np_ObjectMeta pool)) (build_allocation pool pod ns ?bs now)"
    by (simp add: grantable_def pod_of_def)
  moreover have "list_all2 (\<lambda>cp b. binds cp lb b) cps ?bs"
    by (simp add: list_all2_conv_all_nth make_bindings_nth make_binding_def binds_def)
  moreover have "pr_Min (port_range pool) <=s pb_LBPort b \<and> pb_LBPort b <=s pr_Max (port_range pool) \<and>
      pb_LBPort b \<notin> set (pr_ExcludedPorts (port_range pool))" if "b \<in> set ?bs" for b
  proof -
    have "pb_LBPort b \<in> set ps"
      using that findAvailablePorts_length [OF ps] by (auto simp: make_bindings_def make_binding_def)
    with take(2) have "pb_LBPort b \<in> set (free_ports sn (lb_ID lb))" by (metis in_set_takeD)
    then show ?thesis using sn(1) by (simp add: set_free_ports taken_ports_def)
  qed
  ultimately show ?thesis
    using take(1) lb by (auto simp: grants_in_def pod_of_def)
qed

lemma grants_in_empty:
  assumes "(ns, pod) \<notin> pod_of ` set (pool_allocs c (om_Name (np_ObjectMeta pool)))"
  shows "grants_in c pool pod ns [] (build_allocation pool pod ns [] now)"
  using assms by (auto simp: grants_in_def grantable_def pod_of_def)

section \<open>One attempt\<close>

lemma tryAllocatePort_view [view_simps]:
  assumes "consistent_client api view"
    and "tryAllocatePort api pool n pod ns cps pa s = (r, pa', s')"
  shows "view s' = view s"
  using assms(2) checkForDuplicateAllocation_view [OF assms(1)] getPoolAndAllocations_view [OF assms(1)]
  by (fastforce simp: tryAllocatePort_def split: prod.splits sum.splits option.splits if_splits)

lemma tryAllocatePort_frame:
  assumes "tryAllocatePort api pool n pod ns cps pa s = (r, pa', s')"
  shows "al_poolMutexes pa' = al_poolMutexes pa \<and> al_strategy pa' = al_strategy pa"
  using assms selection.select_frame
  by (fastforce simp: tryAllocatePort_def split: prod.splits sum.splits option.splits if_splits)

lemma tryAllocatePort_Inr:
  assumes "consistent_client api view" and "pools_bounded (view s)"
    and "tryAllocatePort api pool n pod ns cps pa s = (Inr a, pa', s')"
  shows "grants (view s) pool pod ns cps a"
proof -
  from assms(3) obtain s1 sn where
    chk: "checkForDuplicateAllocation api pool pod ns s = (None, s1)"
    and got: "getPoolAndAllocations api pool ns s1 = (Inr sn, s')"
    and a: "cps = [] \<and> a = build_allocation (pna_pool sn) pod ns [] (kc_Now api s') \<or>
      (\<exists>lb ps. SelectLoadBalancer pa sn (int (length cps)) = (Inr lb :: 'b error + LoadBalancerRef, pa') \<and>
        findAvailablePorts sn lb (int (length cps)) = (Inr ps :: 'b error + int32 list) \<and>
        a = build_allocation (pna_pool sn) pod ns (make_bindings lb cps ps) (kc_Now api s'))"
    by (auto simp: tryAllocatePort_def split: prod.splits sum.splits option.splits if_splits)
  have v: "view s1 = view s" by (rule checkForDuplicateAllocation_view [OF assms(1) chk])
  have pool: "pna_pool sn \<in> set (cl_Pools (view s))" "om_Name (np_ObjectMeta (pna_pool sn)) = pool"
    "set (al_Items (pna_allocations sn)) = set (pool_allocs (view s) pool)"
    using getPoolAndAllocations_Inr [OF assms(1) got] v by simp_all
  have free: "(ns, pod) \<notin> pod_of ` set (pool_allocs (view s) (om_Name (np_ObjectMeta (pna_pool sn))))"
    using checkForDuplicateAllocation_None [OF assms(1) chk] pool(2) by simp
  have max: "sint (pr_Max (port_range (pna_pool sn))) < 2 ^ 31 - 1"
    using assms(2) pool(1) by (simp add: pools_bounded_def)
  from a have "grants_in (view s) (pna_pool sn) pod ns cps a"
  proof (elim disjE exE conjE)
    assume "cps = []" "a = build_allocation (pna_pool sn) pod ns [] (kc_Now api s')"
    then show ?thesis using grants_in_empty [OF free] by simp
  next
    fix lb ps
    assume sel: "SelectLoadBalancer pa sn (int (length cps)) = (Inr lb :: 'b error + LoadBalancerRef, pa')"
      and fnd: "findAvailablePorts sn lb (int (length cps)) = (Inr ps :: 'b error + int32 list)"
      and a: "a = build_allocation (pna_pool sn) pod ns (make_bindings lb cps ps) (kc_Now api s')"
    have items: "set (al_Items (pna_allocations sn)) =
        set (pool_allocs (view s) (om_Name (np_ObjectMeta (pna_pool sn))))"
      using pool(2,3) by simp
    show ?thesis
      unfolding a using selection.selected [OF sel] by (intro grants_in_built [OF refl items free max _ fnd]) simp
  qed
  then show ?thesis using pool(1,2) by (auto simp: grants_def)
qed

lemma grants_same_content:
  assumes "grants c pool pod ns cps a" and "same_content a b"
  shows "grants c pool pod ns cps b"
  using assms
  by (auto simp: grants_def grants_in_def grantable_def same_content_def pod_of_def)

lemma createAllocation_Inl:
  assumes "consistent_client api view" and "createAllocation api p s = (Inl e, s')"
  shows "view s' = view s"
  using assms(2) get_allocation_view [OF assms(1)] create_Inl [OF assms(1)]
  by (fastforce simp: createAllocation_def split: option.splits prod.splits sum.splits if_splits)

lemma createAllocation_Inr:
  assumes "consistent_client api view" and "createAllocation api (Some a) s = (Inr b, s')"
  shows "same_content a b \<and> alloc_key a \<notin> alloc_key ` set (cl_Allocs (view s)) \<and>
    view s' = store_alloc b (view s)"
proof -
  from assms(2) obtain e s1 where g: "kc_GetAllocation api (alloc_key a) s = (Inl e, s1)"
    and c: "kc_CreateAllocation api a s1 = (Inr b, s')"
    by (auto simp: createAllocation_def split: prod.splits sum.splits if_splits)
  show ?thesis
    using create_Inr [OF assms(1) c] get_allocation_view [OF assms(1) g] by simp
qed

lemma allocate_attempt_Some:
  assumes "consistent_client api view"
    and "allocate_attempt api pool n pod ns cps (v, pa, s) = (Some e, v', pa', s')"
  shows "view s' = view s \<and> al_poolMutexes pa' = al_poolMutexes pa \<and> al_strategy pa' = al_strategy pa"
  using assms(2) tryAllocatePort_view [OF assms(1)] tryAllocatePort_frame createAllocation_Inl [OF assms(1)]
  by (fastforce simp: allocate_attempt_def split: prod.splits sum.splits)

lemma allocate_attempt_None:
  assumes "consistent_client api view" and "pools_bounded (view s)"
    and "allocate_attempt api pool n pod ns cps (v, pa, s) = (None, v', pa', s')"
  obtains a where "v' = Some a" and "grants (view s) pool pod ns cps a"
    and "alloc_key a \<notin> alloc_key ` set (cl_Allocs (view s))"
    and "view s' = store_alloc a (view s)"
    and "al_poolMutexes pa' = al_poolMutexes pa" and "al_strategy pa' = al_strategy pa"
proof -
  from assms(3) obtain a0 s1 a where t: "tryAllocatePort api pool n pod ns cps pa s = (Inr a0, pa', s1)"
    and c: "createAllocation api (Some a0) s1 = (Inr a, s')" and v': "v' = Some a"
    by (auto simp: allocate_attempt_def split: prod.splits sum.splits)
  have v: "view s1 = view s" by (rule tryAllocatePort_view [OF assms(1) t])
  have g: "grants (view s) pool pod ns cps a0"
    by (rule tryAllocatePort_Inr [OF assms(1,2) t])
  from createAllocation_Inr [OF assms(1) c] v have
    same: "same_content a0 a" and key: "alloc_key a0 \<notin> alloc_key ` set (cl_Allocs (view s))"
    and st: "view s' = store_alloc a (view s)" by simp_all
  have "alloc_key a = alloc_key a0" using same by (simp add: same_content_def)
  with that [OF v' grants_same_content [OF g same] _ st] key tryAllocatePort_frame [OF t] show ?thesis
    by simp
qed

lemma findAvailablePorts_terminates:
  assumes "sint (pr_Max (port_range (pna_pool sn))) < 2 ^ 31 - 1"
  shows "findAvailablePorts sn lb n \<noteq> Inl NeverReturns"
  by (simp add: findAvailablePorts_eq [OF assms] Let_def)

lemma findAvailablePorts_error:
  "findAvailablePorts sn lb n = Inl e \<Longrightarrow> e = NeverReturns \<or> \<not> never_returns e"
  by (auto simp: findAvailablePorts_def Let_def split: if_splits option.splits)

lemma duplicate_error_returns: "duplicate_error pool pod ns as = Some e \<Longrightarrow> \<not> never_returns e"
  by (induction as) (auto split: if_splits)

lemma checkForDuplicateAllocation_returns:
  "checkForDuplicateAllocation api pool pod ns s = (Some e, s') \<Longrightarrow> \<not> never_returns e"
  by (auto simp: checkForDuplicateAllocation_def split: prod.splits sum.splits
      dest: duplicate_error_returns)

lemma allocate_attempt_returns:
  assumes "consistent_client api view" and "pools_bounded (view s)"
    and "allocate_attempt api pool n pod ns cps (v, pa, s) = (Some e, v', pa', s')"
  shows "\<not> never_returns e"
proof (cases "fst (tryAllocatePort api pool n pod ns cps pa s)")
  case (Inl err)
  then have e: "e = err"
    using assms(3) by (auto simp: allocate_attempt_def split: prod.splits sum.splits)
  have find: "\<not> never_returns e'" if "getPoolAndAllocations api pool ns s1 = (Inr sn, s2)"
    "view s1 = view s" "findAvailablePorts sn lb k = (Inl e' :: 'b error + int32 list)" for s1 sn s2 lb k e'
  proof -
    have "sint (pr_Max (port_range (pna_pool sn))) < 2 ^ 31 - 1"
      using getPoolAndAllocations_Inr(1) [OF assms(1) that(1)] that(2) assms(2)
      by (simp add: pools_bounded_def)
    from findAvailablePorts_terminates [OF this] findAvailablePorts_error [OF that(3)] that(3)
    show ?thesis by metis
  qed
  show ?thesis
    using Inl find checkForDuplicateAllocation_view [OF assms(1)] checkForDuplicateAllocation_returns
    unfolding e by (fastforce simp: tryAllocatePort_def split: prod.splits sum.splits option.splits if_splits)
next
  case (Inr a)
  then show ?thesis
    using assms(3)
    by (auto simp: allocate_attempt_def createAllocation_def split: prod.splits sum.splits if_splits)
qed

section \<open>AllocatePort\<close>

lemma getPoolMutex_held [simp]:
  "mutex_held k (snd (getPoolMutex pa pool ns)) = mutex_held k pa"
  by (auto simp: getPoolMutex_def mutex_held_def Let_def go_simps gm_get_def split: option.splits)

lemma getPoolMutex_key [simp]: "fst (getPoolMutex pa pool ns) = sprintf_slash ns pool"
  by (simp add: getPoolMutex_def Let_def)

lemma getPoolMutex_strategy [simp]: "al_strategy (snd (getPoolMutex pa pool ns)) = al_strategy pa"
  by (simp add: getPoolMutex_def Let_def split: option.splits)

lemma mutex_held_set [simp]: "mutex_held k (set_mutex key b pa) = (if k = key then b else mutex_held k pa)"
  by (simp add: mutex_held_def set_mutex_def go_simps)

lemma set_mutex_strategy [simp]: "al_strategy (set_mutex key b pa) = al_strategy pa"
  by (simp add: set_mutex_def)

lemma mutex_held_cong: "al_poolMutexes pa = al_poolMutexes pb \<Longrightarrow> mutex_held k pa = mutex_held k pb"
  by (simp add: mutex_held_def)

text \<open>What a call may leave behind, for each way it can end.\<close>

definition allocate_post ::
  "string \<Rightarrow> string \<Rightarrow> string \<Rightarrow> string \<Rightarrow> PodPortAllocation list \<Rightarrow> ('s \<Rightarrow> cluster) \<Rightarrow>
   PoolAllocator \<Rightarrow> 's \<Rightarrow> ('e error + PortAllocation, PoolAllocator \<times> 's) go \<Rightarrow> bool" where
  "allocate_post pool n pod ns cps view pa s out =
     (case out of
        Returns r (pa', s') \<Rightarrow>
          \<not> mutex_held (sprintf_slash n pool) pa \<and> (\<forall>k. mutex_held k pa' = mutex_held k pa) \<and>
          (case r of
             Inl e \<Rightarrow> view s' = view s
           | Inr a \<Rightarrow> grants (view s) pool pod ns cps a \<and>
               alloc_key a \<notin> alloc_key ` set (cl_Allocs (view s)) \<and>
               view s' = store_alloc a (view s))
      | Blocks (pa', s') \<Rightarrow> mutex_held (sprintf_slash n pool) pa \<and> view s' = view s
      | Panics _ \<Rightarrow> False)"

lemma AllocatePort_post:
  assumes "consistent_client api view" and "retries_on_conflict api retry" and "pools_bounded (view s)"
  shows "allocate_post pool n pod ns cps view pa s (AllocatePort api retry pool n pod ns cps pa s)"
proof (cases "mutex_held (sprintf_slash n pool) pa")
  case True
  then show ?thesis
    by (simp add: AllocatePort_def allocate_post_def split_beta Let_def)
next
  case False
  let ?key = "sprintf_slash n pool"
  let ?pa1 = "set_mutex ?key True (snd (getPoolMutex pa pool n))"
  let ?fn = "allocate_attempt api pool n pod ns cps"
  let ?P = "\<lambda>(v, pb, t). view t = view s \<and> al_poolMutexes pb = al_poolMutexes ?pa1"
  have "\<exists>c0. ?P c0 \<and> retry ?fn (None, ?pa1, s) = ?fn c0"
    by (rule retries_on_conflict_invariant [OF assms(2)])
      (use allocate_attempt_Some [OF assms(1)] in \<open>auto split: prod.splits\<close>)
  then obtain v pb t where t: "view t = view s" and pb: "al_poolMutexes pb = al_poolMutexes ?pa1"
    and run: "retry ?fn (None, ?pa1, s) = ?fn (v, pb, t)" by auto
  have held: "mutex_held k (set_mutex ?key False pc) = mutex_held k pa"
    if "al_poolMutexes pc = al_poolMutexes pb" for k pc
    using that pb False mutex_held_cong [of pc ?pa1 k] by simp
  obtain r v' pc t' where out: "?fn (v, pb, t) = (r, v', pc, t')" by (cases "?fn (v, pb, t)") auto
  show ?thesis
  proof (cases r)
    case (Some e)
    with out have out: "?fn (v, pb, t) = (Some e, v', pc, t')" by simp
    from allocate_attempt_Some [OF assms(1) out] allocate_attempt_returns [OF assms(1) _ out] assms(3) t held
    show ?thesis
      using False by (auto simp: AllocatePort_def allocate_post_def split_beta Let_def run out)
  next
    case None
    with out have out: "?fn (v, pb, t) = (None, v', pc, t')" by simp
    from assms(3) t have "pools_bounded (view t)" by simp
    from allocate_attempt_None [OF assms(1) this out] obtain a where
      "v' = Some a" "grants (view t) pool pod ns cps a"
      "alloc_key a \<notin> alloc_key ` set (cl_Allocs (view t))" "view t' = store_alloc a (view t)"
      "al_poolMutexes pc = al_poolMutexes pb" by blast
    with t held show ?thesis
      using False by (simp add: AllocatePort_def allocate_post_def split_beta Let_def run out)
  qed
qed

lemma grants_grantable: "grants c pool pod ns cps a \<Longrightarrow> grantable c pool a \<and> pod_of a = (ns, pod)"
  by (auto simp: grants_def grants_in_def)

lemma AllocatePort_Inr:
  assumes "consistent_client api view" and "retries_on_conflict api retry" and "pools_bounded (view s)"
    and "AllocatePort api retry pool n pod ns cps pa s = Returns (Inr a) (pa', s')"
  shows "grants (view s) pool pod ns cps a" and "alloc_key a \<notin> alloc_key ` set (cl_Allocs (view s))"
    and "view s' = store_alloc a (view s)"
  using AllocatePort_post [OF assms(1-3), of pool n pod ns cps pa] assms(4)
  by (simp_all add: allocate_post_def)

text \<open>The state of the world a call leaves, however it ends.\<close>

fun go_state :: "('r, 'c) go \<Rightarrow> 'c" where
  "go_state (Returns _ c) = c"
| "go_state (Panics c) = c"
| "go_state (Blocks c) = c"

lemma AllocatePort_view_cases:
  assumes "consistent_client api view" and "retries_on_conflict api retry" and "pools_bounded (view s)"
    and "go_state (AllocatePort api retry pool n pod ns cps pa s) = (pa', s')"
  shows "view s' = view s \<or> (\<exists>a. grants (view s) pool pod ns cps a \<and>
    alloc_key a \<notin> alloc_key ` set (cl_Allocs (view s)) \<and> view s' = store_alloc a (view s))"
  using AllocatePort_post [OF assms(1-3), of pool n pod ns cps pa] assms(4)
  by (auto simp: allocate_post_def split: go.splits sum.splits)

text \<open>The equations that evaluate a whole call on the in-memory client.\<close>

lemmas mem_ops = mem_get_pool_def mem_get_alloc_def mem_list_def mem_create_def mem_delete_def

lemmas attempt_eval =
  tryAllocatePort_def checkForDuplicateAllocation_def getPoolAndAllocations_def
  mem_ops in_pool_def SelectLoadBalancer_def selectRoundRobin_def rr_search.simps
  hasAvailablePorts_def getLBPortUsage_def findAvailablePorts_def excluded_or_allocated_def
  GetAllocatedPortsByLB_def search_loop.simps make_bindings_def make_binding_def build_allocation_def
  to_int32_def word_sle_eq gm_get_def NewPoolAllocator_def strategy_defs pool_index_key_def
  sprintf_slash_def sprintf_dash_def meta_key_def demo_cluster_def sample_defs Let_def

lemmas call_eval =
  AllocatePort_def allocate_attempt_def createAllocation_def getPoolMutex_def mutex_held_def
  set_mutex_def mem_retry_once

end
