(* ===== verification/AllocatorSafety.thy ===== *)
theory AllocatorSafety
  imports Allocator
begin

text \<open>
  What the allocation path guarantees about the cluster: the ledger invariant, the
  refinement of the abstract reservation, when an allocation succeeds and when it is
  refused. The theorems hold for any client that behaves as documented.
\<close>

section \<open>Success\<close>

text \<open>The snapshot of a pool as the cluster has it.\<close>

definition snap :: "cluster \<Rightarrow> ApolloNetworkPool \<Rightarrow> poolAndAllocations" where
  "snap c p = \<lparr>pna_pool = p,
     pna_allocations = \<lparr>al_Items = pool_allocs c (om_Name (np_ObjectMeta p))\<rparr>\<rparr>"

text \<open>
  Some load balancer of the pool has that many ports left, in a valid range, and the
  counts fit an int32.
\<close>

definition has_room :: "cluster \<Rightarrow> ApolloNetworkPool \<Rightarrow> int \<Rightarrow> bool" where
  "has_room c p n \<longleftrightarrow>
     sane_range (port_range p) \<and> 0 < n \<and> n < 2 ^ 31 \<and>
     int (length (all_bindings (pool_allocs c (om_Name (np_ObjectMeta p))))) +
       int (length (pr_ExcludedPorts (port_range p))) < 2 ^ 31 - 1 \<and>
     (\<exists>lb\<in>set (load_balancers p). n \<le> ports_left (snap c p) (lb_ID lb))"

lemma length_all_bindings: "length (all_bindings as) = sum_list (map (\<lambda>a. length (bindings a)) as)"
  by (induction as) simp_all

lemma length_lb_bindings:
  "length (lb_bindings as lid) = sum_list (map (\<lambda>a. length (filter (\<lambda>b. binding_lb b = lid) (bindings a))) as)"
  by (induction as) (simp_all add: lb_bindings_def)

lemma sum_list_same_set:
  assumes "distinct xs" and "distinct ys" and "set xs = set ys"
  shows "sum_list (map f xs) = (sum_list (map f ys) :: nat)"
  using assms by (simp add: sum_list_distinct_conv_sum_set)

text \<open>A snapshot the client returns counts what the cluster holds.\<close>

lemma snapshot_counts:
  assumes "pna_pool sn = p" and "distinct (al_Items (pna_allocations sn))"
    and "distinct (pool_allocs c (om_Name (np_ObjectMeta p)))"
    and "set (al_Items (pna_allocations sn)) = set (pool_allocs c (om_Name (np_ObjectMeta p)))"
  shows "ports_left sn lid = ports_left (snap c p) lid"
    and "length (all_bindings (al_Items (pna_allocations sn))) =
      length (all_bindings (pool_allocs c (om_Name (np_ObjectMeta p))))"
  using sum_list_same_set [OF assms(2-4)] assms(1)
  by (simp_all add: ports_left_def length_lb_bindings length_all_bindings snap_def)

lemma select_and_find:
  assumes "pna_pool sn = p" and "distinct (al_Items (pna_allocations sn))"
    and "distinct (pool_allocs c (om_Name (np_ObjectMeta p)))"
    and "set (al_Items (pna_allocations sn)) = set (pool_allocs c (om_Name (np_ObjectMeta p)))"
    and "has_room c p n"
  shows "\<exists>lb pa' ps. SelectLoadBalancer pa sn n = (Inr lb :: 'e error + LoadBalancerRef, pa') \<and>
    findAvailablePorts sn lb n = (Inr ps :: 'e error + int32 list)"
proof -
  note counts = snapshot_counts [OF assms(1-4)]
  have few: "length (lb_bindings (al_Items (pna_allocations sn)) lid) \<le>
      length (all_bindings (al_Items (pna_allocations sn)))" for lid
    unfolding lb_bindings_def by (rule length_filter_le)
  have small: "int (length (all_bindings (al_Items (pna_allocations sn)))) +
      int (length (pr_ExcludedPorts (port_range p))) < 2 ^ 31 - 1"
    using assms(5) counts(2) by (simp add: has_room_def)
  have ok: "snapshot_ok sn lb" for lb
    using few [of "lb_ID lb"] small assms(1,5)
    by (simp add: snapshot_ok_def countable_ports_def has_room_def)
  have n: "0 < n" "n < 2 ^ 31" using assms(5) by (simp_all add: has_room_def)
  obtain lb where lb: "lb \<in> set (load_balancers p)" "n \<le> ports_left (snap c p) (lb_ID lb)"
    using assms(5) by (auto simp: has_room_def)
  have "hasAvailablePorts sn lb n"
    using ok [of lb] lb(2) n counts(1) [of "lb_ID lb"]
    by (simp add: hasAvailablePorts_iff snapshot_ok_def)
  moreover have "usage_countable sn" using small by (simp add: usage_countable_def)
  ultimately obtain lb' pa' where sel: "SelectLoadBalancer pa sn n = (Inr lb' :: 'e error + LoadBalancerRef, pa')"
    using selection.select_succeeds_iff [of sn pa n] lb(1) assms(1) by blast
  with ports.has_found [OF ok n] selection.selected [OF sel] show ?thesis by blast
qed

lemma pool_allocs_distinct: "keys_distinct c \<Longrightarrow> distinct (pool_allocs c pool) \<and> distinct (cl_Allocs c)"
  by (auto simp: keys_distinct_def pool_allocs_def distinct_map)

lemma tryAllocatePort_succeeds:
  assumes "consistent_client api view" and "never_fails api view"
    and "keys_distinct (view s)"
    and "p \<in> set (cl_Pools (view s))" and "om_Name (np_ObjectMeta p) = pool"
    and "\<And>q. q \<in> set (cl_Pools (view s)) \<Longrightarrow> om_Name (np_ObjectMeta q) = pool \<Longrightarrow> q = p"
    and "(ns, pod) \<notin> pod_of ` set (pool_allocs (view s) pool)"
    and "cps = [] \<or> has_room (view s) p (int (length cps))"
  shows "\<exists>a pa' s'. tryAllocatePort api pool n pod ns cps pa s = (Inr a, pa', s') \<and>
    alloc_key a = \<lparr>nn_Namespace = om_Namespace (np_ObjectMeta p), nn_Name = sprintf_dash pool pod\<rparr>"
proof -
  obtain l1 s1 where l1: "kc_ListAllocations api [(LabelPoolNameKey, pool)] None s = (Inr l1, s1)"
    using assms(2) unfolding never_fails_def by blast
  have v1: "view s1 = view s" by (rule list_view [OF assms(1) l1])
  have "duplicate_error pool pod ns (al_Items l1) = None"
    using assms(7) list_items [OF assms(1) l1]
    by (auto simp: duplicate_error_None set_pool_allocs pod_of_def image_iff)
  then have chk: "checkForDuplicateAllocation api pool pod ns s = (None, s1)"
    by (simp add: checkForDuplicateAllocation_def l1)
  have "pool \<in> (\<lambda>p. om_Name (np_ObjectMeta p)) ` set (cl_Pools (view s1))"
    using assms(4,5) v1 by auto
  then obtain q s2 where g: "kc_GetPool api \<lparr>nn_Namespace = ns, nn_Name = pool\<rparr> s1 = (Inr q, s2)"
    using assms(2) unfolding never_fails_def by (metis namespaced_name.select_convs(2))
  have q: "q = p"
    using get_pool_found [OF assms(1) g] v1 assms(6) by simp
  have v2: "view s2 = view s" using get_pool_view [OF assms(1) g] v1 by simp
  obtain l s3 where l: "kc_ListAllocations api [(LabelPoolNameKey, pool)] None s2 = (Inr l, s3)"
    using assms(2) unfolding never_fails_def by blast
  let ?sn = "\<lparr>pna_pool = p, pna_allocations = l\<rparr>"
  have got: "getPoolAndAllocations api pool ns s1 = (Inr ?sn, s3)"
    using assms(5) by (simp add: getPoolAndAllocations_def g q l)
  have items: "set (al_Items l) = set (pool_allocs (view s) (om_Name (np_ObjectMeta p)))"
    using getPoolAndAllocations_Inr(3) [OF assms(1) got] v1 assms(5) by simp
  have d: "distinct (al_Items l)" "distinct (pool_allocs (view s) (om_Name (np_ObjectMeta p)))"
    using list_distinct [OF assms(1) l] v2 pool_allocs_distinct [OF assms(3)] by auto
  show ?thesis
  proof (cases "cps = []")
    case True
    then show ?thesis
      using assms(5) by (simp add: tryAllocatePort_def chk got)
  next
    case False
    with assms(8) have "has_room (view s) p (int (length cps))" by simp
    from select_and_find [OF _ _ d(2) _ this, of ?sn pa, where 'e = 'b] d(1) items
    obtain lb pa' ps where "SelectLoadBalancer pa ?sn (int (length cps)) = (Inr lb :: 'b error + LoadBalancerRef, pa')"
      "findAvailablePorts ?sn lb (int (length cps)) = (Inr ps :: 'b error + int32 list)" by auto
    with False show ?thesis
      using assms(5) by (simp add: tryAllocatePort_def chk got)
  qed
qed

lemma createAllocation_succeeds:
  assumes "consistent_client api view" and "never_fails api view"
    and "creates_in api view N" and "N (om_Namespace (pa_ObjectMeta a))"
    and "alloc_key a \<notin> alloc_key ` set (cl_Allocs (view s))"
  shows "\<exists>b s'. createAllocation api (Some a) s = (Inr b, s')"
proof -
  obtain r s1 where g: "kc_GetAllocation api (alloc_key a) s = (r, s1)"
    by (cases "kc_GetAllocation api (alloc_key a) s")
  have "\<exists>e. r = Inl e"
  proof (cases r)
    case (Inr b)
    with g have "kc_GetAllocation api (alloc_key a) s = (Inr b, s1)" by simp
    from get_allocation_found [OF assms(1) this] assms(5) show ?thesis by (metis imageI)
  qed simp
  then obtain e where r: "r = Inl e" by blast
  then have nf: "kc_IsNotFound api e"
    using assms(2) g unfolding never_fails_def by blast
  have v: "view s1 = view s" by (rule get_allocation_view [OF assms(1) g])
  then obtain b s' where "kc_CreateAllocation api a s1 = (Inr b, s')"
    using assms(3-5) unfolding creates_in_def by metis
  with g r nf show ?thesis by (simp add: createAllocation_def)
qed

lemma AllocatePort_created:
  assumes "retries_on_conflict api retry"
    and "AllocatePort api retry pool n pod ns cps pa s = Returns (Inr a) c"
  obtains built t t' where "kc_CreateAllocation api built t = (Inr a, t')"
proof -
  let ?fn = "allocate_attempt api pool n pod ns cps"
  let ?start = "(None, set_mutex (sprintf_slash n pool) True (snd (getPoolMutex pa pool n)), s)"
  have "\<exists>c0. True \<and> retry ?fn ?start = ?fn c0"
    by (rule retries_on_conflict_invariant [OF assms(1)]) simp_all
  then obtain c0 where run: "retry ?fn ?start = ?fn c0" by blast
  obtain e v pa2 s2 where out: "retry ?fn ?start = (e, v, pa2, s2)" by (metis surj_pair)
  with assms(2) have "retry ?fn ?start = (None, Some a, pa2, s2)"
    by (auto simp: AllocatePort_def split_beta Let_def split: if_splits option.splits)
  with run have "\<exists>built t t'. kc_CreateAllocation api built t = (Inr a, t')"
    by (auto simp: allocate_attempt_def createAllocation_def split: prod.splits sum.splits if_splits option.splits)
  then show ?thesis using that by blast
qed

lemma AllocatePort_success:
  assumes "consistent_client api view" and "never_fails api view" and "retries_on_conflict api retry"
    and "creates_in api view N" and "N (om_Namespace (np_ObjectMeta p))"
    and "keys_distinct (view s)"
    and "p \<in> set (cl_Pools (view s))" and "om_Name (np_ObjectMeta p) = pool"
    and "\<And>q. q \<in> set (cl_Pools (view s)) \<Longrightarrow> om_Name (np_ObjectMeta q) = pool \<Longrightarrow> q = p"
    and "(ns, pod) \<notin> pod_of ` set (pool_allocs (view s) pool)"
    and "\<lparr>nn_Namespace = om_Namespace (np_ObjectMeta p), nn_Name = sprintf_dash pool pod\<rparr> \<notin>
      alloc_key ` set (cl_Allocs (view s))"
    and "cps = [] \<or> has_room (view s) p (int (length cps))"
    and "\<not> mutex_held (sprintf_slash n pool) pa"
  shows "\<exists>a c. AllocatePort api retry pool n pod ns cps pa s = Returns (Inr a) c"
proof -
  let ?fn = "allocate_attempt api pool n pod ns cps"
  let ?pa1 = "set_mutex (sprintf_slash n pool) True (snd (getPoolMutex pa pool n))"
  obtain a pa' s' where t: "tryAllocatePort api pool n pod ns cps ?pa1 s = (Inr a, pa', s')"
    and k: "alloc_key a = \<lparr>nn_Namespace = om_Namespace (np_ObjectMeta p), nn_Name = sprintf_dash pool pod\<rparr>"
    using tryAllocatePort_succeeds [OF assms(1,2,6-10,12)] by blast
  have "view s' = view s" by (rule tryAllocatePort_view [OF assms(1) t])
  with k assms(11) obtain b s'' where "createAllocation api (Some a) s' = (Inr b, s'')"
    using createAllocation_succeeds [OF assms(1,2,4)] assms(5) by (metis meta_key_def namespaced_name.select_convs(1))
  with t have fn: "?fn (None, ?pa1, s) = (None, Some b, pa', s'')"
    by (simp add: allocate_attempt_def)
  then have "retry ?fn (None, ?pa1, s) = (None, Some b, pa', s'')"
    using retries_on_conflict_once [OF assms(3), of ?fn "(None, ?pa1, s)"] by simp
  with assms(13) show ?thesis
    by (simp add: AllocatePort_def split_beta Let_def)
qed

section \<open>Properties\<close>

text \<open>The four ways a call that holds a mutex can end.\<close>

lemma outcome_cases [case_names Err Ok Panics Blocks]:
  obtains e c s where "out = Returns (Inl e) (c, s)" | a c s where "out = Returns (Inr a) (c, s)"
  | c s where "out = Panics (c, s)" | c s where "out = Blocks (c, s)"
  by (cases out) (metis sum.exhaust surj_pair)+

definition demo_pool :: "string \<Rightarrow> ApolloNetworkPool" where
  "demo_pool nm = sample_pool nm [''lb-1''] 30000 30001 []"

text \<open>A pool of two ports of which the pod ''a'' of the namespace ''ns'' holds the first.\<close>

definition demo_one :: cluster where
  "demo_one = demo_cluster [demo_pool ''p''] [sample_alloc ''p'' ''a'' ''ns'' [(''lb-1'', 30000)]]"

lemmas demo_eval = demo_one_def demo_pool_def demo_cluster_def sample_defs

lemma demo_bounded: "pools_bounded demo_one"
  by (simp add: pools_bounded_def demo_eval)

lemma demo_pool_allocs:
  "pool_allocs demo_one pool = (if pool = ''p'' then [sample_alloc ''p'' ''a'' ''ns'' [(''lb-1'', 30000)]] else [])"
  by (auto simp: pool_allocs_def in_pool_def demo_eval)

lemma demo_ledger_ok: "ledger_ok demo_one" "keys_distinct demo_one"
  by (auto simp: ledger_ok_def pool_ok_def demo_pool_allocs keys_distinct_def)
    (simp_all add: demo_eval)

lemma demo_pod_of: "pod_of (sample_alloc pool pod ns held) = (ns, pod)"
  by (simp add: pod_of_def sample_alloc_def)

lemma demo_room: "has_room demo_one (demo_pool ''p'') 1"
  by (simp add: has_room_def snap_def ports_left_def demo_pool_allocs lb_bindings_def sane_range_def
      demo_pool_def sample_defs)

lemma demo_key: "alloc_key (sample_alloc pool pod ns held) = \<lparr>nn_Namespace = '''', nn_Name = pool @ ''-'' @ pod\<rparr>"
  by (simp add: sample_alloc_def meta_key_def zero_object_meta_def)

lemma demo_call:
  "\<exists>a pa c. AllocatePort mem_api mem_retry ''p'' '''' ''b'' ''ns'' [sample_port]
      (NewPoolAllocator StrategyRoundRobin) demo_one = Returns (Inr a) (pa, c) \<and> slots [a] = [(''lb-1'', 30001)]"
  by (simp add: call_eval attempt_eval demo_one_def demo_pool_def)

text \<open>
  C1. AllocatePort, for a client that behaves as documented and pools that keep clear of the
  largest int32, ends in one of three ways. It waits exactly when the pool's mutex is
  held, with no effect. It returns an error, and then nothing is stored. Or it returns an
  allocation that has been stored under a key that was free and that grants the request:
  the name and labels of pool and pod, one binding per container port in order, all on one
  load balancer of the pool, on distinct ports of the range that are not excluded and that
  no allocation of the pool holds. It never panics, and when it returns every mutex is as
  it was before the call.
\<close>

theorem AllocatePort_correct:
  assumes "consistent_client api view" and "retries_on_conflict api retry" and "pools_bounded (view s)"
  shows "case AllocatePort api retry pool n pod ns cps pa s of
      Returns r (pa', s') \<Rightarrow>
        \<not> mutex_held (sprintf_slash n pool) pa \<and> (\<forall>k. mutex_held k pa' = mutex_held k pa) \<and>
        (case r of
           Inl e \<Rightarrow> view s' = view s
         | Inr a \<Rightarrow> grants (view s) pool pod ns cps a \<and>
             alloc_key a \<notin> alloc_key ` set (cl_Allocs (view s)) \<and>
             view s' = (view s)\<lparr>cl_Allocs := a # cl_Allocs (view s)\<rparr>)
    | Blocks (pa', s') \<Rightarrow> mutex_held (sprintf_slash n pool) pa \<and> view s' = view s
    | Panics _ \<Rightarrow> False"
  using AllocatePort_post [OF assms] unfolding allocate_post_def .

theorem AllocatePort_correct_witness:
  "\<exists>a pa c. AllocatePort mem_api mem_retry ''p'' '''' ''b'' ''ns'' [sample_port]
      (NewPoolAllocator StrategyRoundRobin) demo_one = Returns (Inr a) (pa, c) \<and>
    slots [a] = [(''lb-1'', 30001)] \<and> grants demo_one ''p'' ''b'' ''ns'' [sample_port] a"
proof -
  from demo_call obtain a pa c where run: "AllocatePort mem_api mem_retry ''p'' '''' ''b'' ''ns'' [sample_port]
      (NewPoolAllocator StrategyRoundRobin) demo_one = Returns (Inr a) (pa, c)" "slots [a] = [(''lb-1'', 30001)]"
    by blast
  from AllocatePort_correct [OF mem_consistent mem_retries demo_bounded, where pool = "''p''" and n = "''''" and pod = "''b''" and ns = "''ns''"
      and cps = "[sample_port]" and pa = "NewPoolAllocator StrategyRoundRobin"] run show ?thesis by simp
qed

text \<open>
  The ledger invariant. If no slot (load balancer and port) is held twice within a pool
  and no pod has two allocations in a pool, then the same is true after AllocatePort,
  however the call ends, and the keys of the stored allocations stay distinct. In the
  ledger that the allocations amount to, distinct pods of a pool then hold disjoint sets
  of distinct slots.
\<close>

theorem AllocatePort_keeps_ledger:
  assumes "consistent_client api view" and "retries_on_conflict api retry" and "pools_bounded (view s)"
    and "ledger_ok (view s)" and "keys_distinct (view s)"
    and "go_state (AllocatePort api retry pool n pod ns cps pa s) = (pa', s')"
  shows "ledger_ok (view s') \<and> keys_distinct (view s') \<and> exclusive (ledger_of (view s'))"
proof -
  from AllocatePort_view_cases [OF assms(1-3,6)]
  have "ledger_ok (view s') \<and> keys_distinct (view s')"
    using assms(4,5) by (auto simp: keys_distinct_def dest: grants_grantable ledger_ok_store)
  then show ?thesis by (simp add: ledger_ok_exclusive)
qed

theorem AllocatePort_keeps_ledger_witness:
  "ledger_ok (snd (go_state (AllocatePort mem_api mem_retry ''p'' '''' ''b'' ''ns'' [sample_port]
      (NewPoolAllocator StrategyRoundRobin) demo_one)))"
  using AllocatePort_keeps_ledger [OF mem_consistent mem_retries demo_bounded demo_ledger_ok
      prod.collapse [symmetric]] by blast

text \<open>
  C18. Refinement: seen through the ledger, a call that returns an allocation is the abstract
  operation that reserves the slots of its bindings for the pod, who held nothing in that
  pool before; a call that ends otherwise leaves the ledger as it is.
\<close>

theorem AllocatePort_refines_reserve:
  assumes "consistent_client api view" and "retries_on_conflict api retry" and "pools_bounded (view s)"
    and "AllocatePort api retry pool n pod ns cps pa s = out"
  shows "case out of
      Returns (Inr a) (pa', s') \<Rightarrow>
        ledger_of (view s) pool (ns, pod) = None \<and>
        ledger_of (view s') = reserve (ledger_of (view s)) pool (ns, pod) (map slot_of (bindings a))
    | _ \<Rightarrow> ledger_of (view (snd (go_state out))) = ledger_of (view s)"
proof -
  have post: "allocate_post pool n pod ns cps view pa s out"
    using AllocatePort_post [OF assms(1-3)] assms(4) by blast
  have "ledger_of (view s) pool (ns, pod) = None \<and>
      ledger_of (store_alloc a (view s)) = reserve (ledger_of (view s)) pool (ns, pod) (map slot_of (bindings a))"
    if "grants (view s) pool pod ns cps a" for a
  proof -
    from grants_grantable [OF that] have g: "grantable (view s) pool a" "pod_of a = (ns, pod)" by simp_all
    then have "ledger_of (view s) pool (ns, pod) = None"
      unfolding ledger_dom by (simp add: grantable_def)
    with ledger_store [OF g(1)] g(2) show ?thesis by simp
  qed
  with post show ?thesis
    by (cases out rule: outcome_cases) (auto simp add: allocate_post_def)
qed

theorem AllocatePort_refines_reserve_witness:
  "\<exists>a pa c. AllocatePort mem_api mem_retry ''p'' '''' ''b'' ''ns'' [sample_port]
      (NewPoolAllocator StrategyRoundRobin) demo_one = Returns (Inr a) (pa, c) \<and>
    ledger_of c = reserve (ledger_of demo_one) ''p'' (''ns'', ''b'') [(''lb-1'', 30001)]"
proof -
  obtain a pa c where run: "AllocatePort mem_api mem_retry ''p'' '''' ''b'' ''ns'' [sample_port]
      (NewPoolAllocator StrategyRoundRobin) demo_one = Returns (Inr a) (pa, c)" "slots [a] = [(''lb-1'', 30001)]"
    using demo_call by blast
  from AllocatePort_refines_reserve [OF mem_consistent mem_retries demo_bounded run(1)] run
  show ?thesis by (simp add: slots_def)
qed

text \<open>An allocation that is returned has been created in the namespace of its pool.\<close>

lemma AllocatePort_elsewhere:
  assumes "consistent_client api view" and "retries_on_conflict api retry" and "creates_in api view N"
    and "pools_bounded (view s)"
    and "\<And>q. q \<in> set (cl_Pools (view s)) \<Longrightarrow> om_Name (np_ObjectMeta q) = pool \<Longrightarrow> q = p"
    and "\<not> mutex_held (sprintf_slash n pool) pa" and "\<not> N (om_Namespace (np_ObjectMeta p))"
  shows "\<exists>e pa' s'. AllocatePort api retry pool n pod ns cps pa s = Returns (Inl e) (pa', s') \<and> view s' = view s"
proof -
  note post = AllocatePort_post [OF assms(1,2,4), of pool n pod ns cps pa]
  have "AllocatePort api retry pool n pod ns cps pa s \<noteq> Returns (Inr a) (pa', s')" for a pa' s'
  proof
    assume run: "AllocatePort api retry pool n pod ns cps pa s = Returns (Inr a) (pa', s')"
    then obtain built t t' where made: "kc_CreateAllocation api built t = (Inr a, t')"
      by (rule AllocatePort_created [OF assms(2)])
    from create_Inr(1) [OF assms(1) made] have "om_Namespace (pa_ObjectMeta built) = om_Namespace (pa_ObjectMeta a)"
      by (simp add: same_content_def meta_key_def)
    moreover have "om_Namespace (pa_ObjectMeta a) = om_Namespace (np_ObjectMeta p)"
      using AllocatePort_Inr(1) [OF assms(1,2,4) run] assms(5) by (auto simp: grants_def grants_in_def meta_key_def)
    moreover from assms(3) made have "N (om_Namespace (pa_ObjectMeta built))" unfolding creates_in_def by blast
    ultimately show False using assms(7) by simp
  qed
  with post assms(6) show ?thesis
    by (cases "AllocatePort api retry pool n pod ns cps pa s" rule: outcome_cases) (auto simp: allocate_post_def)
qed

text \<open>
  C20. When AllocatePort succeeds. Let the reads answer, the pool exist, the pod have no
  allocation in it, the name of its allocation be free, the mutex be free, and some load
  balancer of the pool have room for the container ports (or let there be none). Then the call
  returns an allocation if the server creates allocations in the namespace of the pool; and if
  it does not, the call returns an error and nothing changes. Pools are cluster-scoped, so that
  namespace is the empty one, and PortAllocation is a namespaced resource: a server that keeps
  to this lets no call succeed (the second part of the witness).
\<close>

theorem AllocatePort_succeeds:
  assumes "consistent_client api view" and "never_fails api view" and "retries_on_conflict api retry"
    and "creates_in api view N" and "keys_distinct (view s)"
    and "p \<in> set (cl_Pools (view s))" and "om_Name (np_ObjectMeta p) = pool"
    and "\<And>q. q \<in> set (cl_Pools (view s)) \<Longrightarrow> om_Name (np_ObjectMeta q) = pool \<Longrightarrow> q = p"
    and "(ns, pod) \<notin> pod_of ` set (pool_allocs (view s) pool)"
    and "\<lparr>nn_Namespace = om_Namespace (np_ObjectMeta p), nn_Name = sprintf_dash pool pod\<rparr> \<notin>
      alloc_key ` set (cl_Allocs (view s))"
    and "cps = [] \<or> has_room (view s) p (int (length cps))"
    and "\<not> mutex_held (sprintf_slash n pool) pa"
  shows "(N (om_Namespace (np_ObjectMeta p)) \<longrightarrow>
      (\<exists>a c. AllocatePort api retry pool n pod ns cps pa s = Returns (Inr a) c)) \<and>
    (\<not> N (om_Namespace (np_ObjectMeta p)) \<and> pools_bounded (view s) \<longrightarrow>
      (\<exists>e pa' s'. AllocatePort api retry pool n pod ns cps pa s = Returns (Inl e) (pa', s') \<and> view s' = view s))"
proof (intro conjI impI)
  assume "N (om_Namespace (np_ObjectMeta p))"
  then show "\<exists>a c. AllocatePort api retry pool n pod ns cps pa s = Returns (Inr a) c"
    by (rule AllocatePort_success [OF assms(1-4) _ assms(5-12)])
next
  assume "\<not> N (om_Namespace (np_ObjectMeta p)) \<and> pools_bounded (view s)"
  then have "\<not> N (om_Namespace (np_ObjectMeta p))" "pools_bounded (view s)" by simp_all
  with AllocatePort_elsewhere [OF assms(1,3,4) this(2) assms(8,12)]
  show "\<exists>e pa' s'. AllocatePort api retry pool n pod ns cps pa s = Returns (Inl e) (pa', s') \<and> view s' = view s" by blast
qed

text \<open>The in-memory client with a namespaced resource.\<close>

definition namespaced_create :: "PortAllocation \<Rightarrow> cluster \<Rightarrow> (mem_error + PortAllocation) \<times> cluster" where
  "namespaced_create a c = (if om_Namespace (pa_ObjectMeta a) = '''' then (Inl MemNotFound, c) else mem_create a c)"

definition namespaced_api :: mem_client where
  "namespaced_api = mem_api\<lparr>kc_CreateAllocation := namespaced_create\<rparr>"

lemma namespaced_laws:
  "consistent_client namespaced_api (\<lambda>c. c)" "never_fails namespaced_api (\<lambda>c. c)"
  "retries_on_conflict namespaced_api mem_retry" "creates_in namespaced_api (\<lambda>c. c) (\<lambda>ns. ns \<noteq> '''')"
proof -
  have fields: "kc_GetPool namespaced_api = kc_GetPool mem_api" "kc_GetAllocation namespaced_api = kc_GetAllocation mem_api"
    "kc_GetPod namespaced_api = kc_GetPod mem_api" "kc_ListAllocations namespaced_api = kc_ListAllocations mem_api"
    "kc_DeleteAllocation namespaced_api = kc_DeleteAllocation mem_api" "kc_IsNotFound namespaced_api = kc_IsNotFound mem_api"
    "kc_IsConflict namespaced_api = kc_IsConflict mem_api" "kc_CreateAllocation namespaced_api = namespaced_create"
    "kc_CreateAllocation mem_api = mem_create"
    by (simp_all add: namespaced_api_def)
  have "creates namespaced_api (\<lambda>c. c)"
    using mem_creates unfolding creates_def fields by (auto simp: namespaced_create_def split: if_splits)
  then show "consistent_client namespaced_api (\<lambda>c. c)"
    using mem_reads mem_lists mem_gets mem_deletes
    unfolding consistent_client_def reads_preserve_def lists_current_def gets_current_def deletes_def fields by blast
  show "never_fails namespaced_api (\<lambda>c. c)" using mem_never_fails unfolding never_fails_def fields .
  have "is_conflict namespaced_api = is_conflict mem_api"
    by (intro ext) (simp add: is_conflict_def fields split: option.splits)
  then show "retries_on_conflict namespaced_api mem_retry" by (simp add: retries_on_conflict_def mem_retry_def)
  show "creates_in namespaced_api (\<lambda>c. c) (\<lambda>ns. ns \<noteq> '''')"
    unfolding creates_in_def fields by (auto simp: namespaced_create_def mem_create_def)
qed

theorem AllocatePort_succeeds_witness:
  "(\<exists>a c. AllocatePort mem_api mem_retry ''p'' '''' ''b'' ''ns'' [sample_port]
      (NewPoolAllocator StrategyLeastUsed) demo_one = Returns (Inr a) c) \<and>
   (\<exists>e pa. AllocatePort namespaced_api mem_retry ''p'' '''' ''b'' ''ns'' [sample_port]
      (NewPoolAllocator StrategyLeastUsed) demo_one = Returns (Inl e) (pa, demo_one))"
proof -
  have pool: "demo_pool ''p'' \<in> set (cl_Pools demo_one)" "om_Name (np_ObjectMeta (demo_pool ''p'')) = ''p''"
    "om_Namespace (np_ObjectMeta (demo_pool ''p'')) = ''''"
    by (simp_all add: demo_one_def demo_cluster_def demo_pool_def sample_pool_def zero_object_meta_def)
  have only: "q = demo_pool ''p''" if "q \<in> set (cl_Pools demo_one)" for q
    using that by (simp add: demo_one_def demo_cluster_def)
  have new: "(''ns'', ''b'') \<notin> pod_of ` set (pool_allocs demo_one ''p'')"
    by (simp add: demo_pool_allocs demo_pod_of)
  have free: "\<lparr>nn_Namespace = om_Namespace (np_ObjectMeta (demo_pool ''p'')), nn_Name = sprintf_dash ''p'' ''b''\<rparr>
      \<notin> alloc_key ` set (cl_Allocs demo_one)"
    by (simp add: demo_one_def demo_cluster_def demo_key sprintf_dash_def)
  have room: "[sample_port] = [] \<or> has_room demo_one (demo_pool ''p'') (int (length [sample_port]))"
    using demo_room by simp
  have unlocked: "\<not> mutex_held (sprintf_slash '''' ''p'') (NewPoolAllocator StrategyLeastUsed)"
    by (simp add: mutex_held_def NewPoolAllocator_def go_simps)
  note at = demo_ledger_ok(2) pool(1,2) only new free room unlocked
  from AllocatePort_succeeds [OF mem_consistent mem_never_fails mem_retries mem_creates_in at]
    AllocatePort_succeeds [OF namespaced_laws at] demo_bounded pool(3)
  show ?thesis by auto
qed

text \<open>
  AllocatePort refuses, without effect, a pod that has an allocation in the pool already
  (so a pod never holds two in one pool), and a pod whose allocation name is taken in the
  namespace of every pool of that name: the call returns no allocation and stores nothing.
\<close>

theorem AllocatePort_refuses:
  assumes "consistent_client api view" and "retries_on_conflict api retry" and "pools_bounded (view s)"
    and "(ns, pod) \<in> pod_of ` set (pool_allocs (view s) pool) \<or>
      (\<forall>p\<in>set (cl_Pools (view s)). om_Name (np_ObjectMeta p) = pool \<longrightarrow>
         \<lparr>nn_Namespace = om_Namespace (np_ObjectMeta p), nn_Name = sprintf_dash pool pod\<rparr>
           \<in> alloc_key ` set (cl_Allocs (view s)))"
  shows "(\<nexists>a c. AllocatePort api retry pool n pod ns cps pa s = Returns (Inr a) c) \<and>
    view (snd (go_state (AllocatePort api retry pool n pod ns cps pa s))) = view s"
proof -
  have no: False if g: "grants (view s) pool pod ns cps a" "alloc_key a \<notin> alloc_key ` set (cl_Allocs (view s))" for a
  proof -
    from g(1) obtain p where "p \<in> set (cl_Pools (view s))" "om_Name (np_ObjectMeta p) = pool"
      "grants_in (view s) p pod ns cps a" by (auto simp: grants_def)
    with g(2) assms(4) grants_grantable [OF g(1)] show False
      by (auto simp: grants_in_def grantable_def)
  qed
  show ?thesis
    using AllocatePort_post [OF assms(1-3), of pool n pod ns cps pa] no
    by (cases "AllocatePort api retry pool n pod ns cps pa s" rule: outcome_cases)
      (auto simp: allocate_post_def)
qed

theorem AllocatePort_refuses_witness:
  "\<nexists>a c. AllocatePort mem_api mem_retry ''p'' '''' ''a'' ''ns'' []
      (NewPoolAllocator StrategyRoundRobin) demo_one = Returns (Inr a) c"
  using AllocatePort_refuses [OF mem_consistent mem_retries demo_bounded,
      where pool = "''p''" and n = "''''" and pod = "''a''" and ns = "''ns''" and cps = "[]"
      and pa = "NewPoolAllocator StrategyRoundRobin"]
  by (simp add: demo_pool_allocs demo_pod_of)

text \<open>
  C37. The name of an allocation is the pool's name, a dash and the pod's name, in the
  namespace of the pool, so it does not tell apart pods that it should: a pod of another
  namespace with the same name makes the same name, and so do the pool x with the pod y-z and
  the pool x-y with the pod z. Let pools be cluster-scoped and let a pod get an allocation.
  Then every other pod that makes the same name, although it has no allocation in its pool, and
  however much room there is, is refused, and nothing changes.
\<close>

theorem allocation_names_collide:
  assumes "consistent_client api view" and "retries_on_conflict api retry" and "pools_bounded (view s)"
    and "\<forall>q\<in>set (cl_Pools (view s)). om_Namespace (np_ObjectMeta q) = ''''"
    and "AllocatePort api retry pool n pod ns cps pa s = Returns (Inr a) (pa1, s1)"
    and "sprintf_dash pool' pod' = sprintf_dash pool pod" and "(pool', ns', pod') \<noteq> (pool, ns, pod)"
    and "(ns', pod') \<notin> pod_of ` set (pool_allocs (view s) pool')"
  shows "(ns', pod') \<notin> pod_of ` set (pool_allocs (view s1) pool') \<and>
    (\<nexists>b c. AllocatePort api retry pool' n' pod' ns' cps' pa1 s1 = Returns (Inr b) c) \<and>
    view (snd (go_state (AllocatePort api retry pool' n' pod' ns' cps' pa1 s1))) = view s1 \<and>
    sprintf_dash x (y @ ''-'' @ z) = sprintf_dash (x @ ''-'' @ y) z"
proof -
  note made = AllocatePort_Inr [OF assms(1-3,5)]
  from made(1) assms(4) have key: "alloc_key a = \<lparr>nn_Namespace = '''', nn_Name = sprintf_dash pool pod\<rparr>"
    and a: "pod_of a = (ns, pod)" "grantable (view s) pool a"
    by (auto simp: grants_def grants_in_def)
  have new: "(ns', pod') \<notin> pod_of ` set (pool_allocs (view s1) pool')"
    using assms(7,8) a grantable_in_pool [OF a(2), of pool'] by (auto simp: made(3) pool_allocs_def)
  have "pools_bounded (view s1)" using assms(3) made(3) by (simp add: pools_bounded_def)
  from AllocatePort_refuses [OF assms(1,2) this, of ns' pod' pool' n' cps' pa1] new key made(3) assms(4,6)
  show ?thesis by (simp add: sprintf_dash_def)
qed

text \<open>Two pods of the name ''b'' in two namespaces.\<close>

theorem allocation_names_collide_witness:
  "\<exists>a pa c. AllocatePort mem_api mem_retry ''p'' '''' ''b'' ''ns'' [sample_port]
      (NewPoolAllocator StrategyRoundRobin) demo_one = Returns (Inr a) (pa, c) \<and>
    (''other'', ''b'') \<notin> pod_of ` set (pool_allocs c ''p'') \<and>
    (\<nexists>b d. AllocatePort mem_api mem_retry ''p'' '''' ''b'' ''other'' [sample_port] pa c = Returns (Inr b) d)"
proof -
  obtain a pa c where run: "AllocatePort mem_api mem_retry ''p'' '''' ''b'' ''ns'' [sample_port]
      (NewPoolAllocator StrategyRoundRobin) demo_one = Returns (Inr a) (pa, c)"
    using demo_call by blast
  have scoped: "\<forall>q\<in>set (cl_Pools demo_one). om_Namespace (np_ObjectMeta q) = ''''"
    by (simp add: demo_one_def demo_cluster_def demo_pool_def sample_pool_def zero_object_meta_def)
  have new: "(''other'', ''b'') \<notin> pod_of ` set (pool_allocs demo_one ''p'')"
    by (simp add: demo_pool_allocs demo_pod_of)
  from allocation_names_collide [OF mem_consistent mem_retries demo_bounded scoped run refl _ new] run
  show ?thesis by auto
qed


end
