(* ===== verification/Release.thy ===== *)
theory Release
  imports AllocatorSafety
begin

text \<open>
  pkg/allocator/release.go: giving an allocation back by deleting its resource, and what
  the call guarantees: when it succeeds, what each refusal means, that it touches nothing
  but the one allocation, and that it refines the abstract release of the ledger. The
  last section runs allocations and releases one after the other.
\<close>

section \<open>The operation\<close>

text \<open>What happens while the pool's mutex is held.\<close>

definition release_held ::
  "('s, 'e) kube_client \<Rightarrow> string \<Rightarrow> string \<Rightarrow> string \<Rightarrow> string \<Rightarrow> 's \<Rightarrow> 'e error option \<times> 's" where
  "release_held api poolName namespace podName podNamespace s =
     (let allocationName = sprintf_dash poolName podName;
          allocationKey = \<lparr>nn_Namespace = namespace, nn_Name = allocationName\<rparr> in
      case kc_GetAllocation api allocationKey s of
        (Inl err, s1) \<Rightarrow>
          (if \<not> kc_IsNotFound api err
           then (Some (FailedToGetAllocation allocationName (ApiError err)), s1)
           else (Some (AllocationNotFound podNamespace podName poolName), s1))
      | (Inr allocation, s1) \<Rightarrow>
          (if pi_Name (pod_info allocation) \<noteq> podName \<or> pi_Namespace (pod_info allocation) \<noteq> podNamespace
           then (Some (AllocationNotOfPod allocationName podNamespace podName), s1)
           else if gm_get '''' (om_Labels (pa_ObjectMeta allocation)) LabelPoolNameKey \<noteq> poolName
           then (Some (AllocationNotOfPool allocationName poolName), s1)
           else if om_DeletionTimestamp (pa_ObjectMeta allocation) \<noteq> None
           then (Some (AllocationAlreadyDeleting allocationName), s1)
           else
             case kc_DeleteAllocation api allocation s1 of
               (Inl err, s2) \<Rightarrow> (Some (FailedToDeleteAllocation allocationName (ApiError err)), s2)
             | (Inr _, s2) \<Rightarrow> (None, s2)))"

definition ReleasePort ::
  "('s, 'e) kube_client \<Rightarrow> string \<Rightarrow> string \<Rightarrow> string \<Rightarrow> string \<Rightarrow> PoolAllocator \<Rightarrow> 's \<Rightarrow>
   ('e error option, PoolAllocator \<times> 's) go" where
  "ReleasePort api poolName namespace podName podNamespace pa s =
     (let (key, pa1) = getPoolMutex pa poolName namespace in
      if mutex_held key pa1 then Blocks (pa1, s)
      else
        let (err, s1) = release_held api poolName namespace podName podNamespace s in
        Returns err (set_mutex key False (set_mutex key True pa1), s1))"

section \<open>While the mutex is held\<close>

text \<open>The allocation that the call may delete.\<close>

definition releasable :: "string \<Rightarrow> string \<Rightarrow> string \<Rightarrow> string \<Rightarrow> PortAllocation \<Rightarrow> bool" where
  "releasable pool n pod ns a \<longleftrightarrow>
     alloc_key a = \<lparr>nn_Namespace = n, nn_Name = sprintf_dash pool pod\<rparr> \<and> pod_of a = (ns, pod) \<and>
     gm_get '''' (om_Labels (pa_ObjectMeta a)) LabelPoolNameKey = pool \<and>
     om_DeletionTimestamp (pa_ObjectMeta a) = None"

lemma release_held_Some:
  assumes "consistent_client api view" and "release_held api pool n pod ns s = (Some e, s')"
  shows "view s' = view s"
  using assms(2) get_allocation_view [OF assms(1)] delete_Inl [OF assms(1)]
  by (fastforce simp: release_held_def Let_def split: prod.splits sum.splits if_splits)

lemma release_held_None:
  assumes "consistent_client api view" and "release_held api pool n pod ns s = (None, s')"
  obtains a s1 where "a \<in> set (cl_Allocs (view s))" and "releasable pool n pod ns a"
    and "view s1 = view s" and "kc_DeleteAllocation api a s1 = (Inr (), s')"
proof -
  from assms(2) obtain a s1 where g: "kc_GetAllocation api \<lparr>nn_Namespace = n, nn_Name = sprintf_dash pool pod\<rparr> s = (Inr a, s1)"
    and own: "pi_Name (pod_info a) = pod" "pi_Namespace (pod_info a) = ns"
      "gm_get '''' (om_Labels (pa_ObjectMeta a)) LabelPoolNameKey = pool"
      "om_DeletionTimestamp (pa_ObjectMeta a) = None"
    and d: "kc_DeleteAllocation api a s1 = (Inr (), s')"
    by (auto simp: release_held_def Let_def split: prod.splits sum.splits if_splits)
  from get_allocation_found [OF assms(1) g] own have
    "a \<in> set (cl_Allocs (view s))" "releasable pool n pod ns a"
    by (simp_all add: releasable_def pod_of_def)
  with that get_allocation_view [OF assms(1) g] d show thesis by blast
qed

text \<open>The allocation that is deleted is the only one stored under the key.\<close>

lemma release_held_view:
  assumes "consistent_client api view" and "release_held api pool n pod ns s = (None, s')"
  shows "\<exists>a\<in>set (cl_Allocs (view s)). releasable pool n pod ns a \<and>
    (view s' = remove_key (alloc_key a) (view s) \<or> (\<exists>t. view s' = mark_key t (alloc_key a) (view s)))"
proof -
  obtain a s1 where a: "a \<in> set (cl_Allocs (view s))" "releasable pool n pod ns a" "view s1 = view s"
    "kc_DeleteAllocation api a s1 = (Inr (), s')"
    using release_held_None [OF assms] by blast
  from assms(1) a(4) have "view s' = remove_key (alloc_key a) (view s) \<or>
      (\<exists>t. view s' = mark_key t (alloc_key a) (view s))"
    by (cases rule: delete_Inr) (auto simp: a(3))
  with a show ?thesis by blast
qed

text \<open>The call deletes as soon as the allocation is there, it is the pod's, and the client answers.\<close>

lemma release_held_succeeds:
  assumes "kc_GetAllocation api \<lparr>nn_Namespace = n, nn_Name = sprintf_dash pool pod\<rparr> s = (Inr a, s1)"
    and "releasable pool n pod ns a" and "kc_DeleteAllocation api a s1 = (Inr (), s')"
  shows "release_held api pool n pod ns s = (None, s')"
  using assms by (auto simp: release_held_def releasable_def pod_of_def Let_def)

section \<open>The whole call\<close>

definition release_post ::
  "string \<Rightarrow> string \<Rightarrow> string \<Rightarrow> string \<Rightarrow> ('s \<Rightarrow> cluster) \<Rightarrow> PoolAllocator \<Rightarrow> 's \<Rightarrow>
   ('e error option, PoolAllocator \<times> 's) go \<Rightarrow> bool" where
  "release_post pool n pod ns view pa s out =
     (case out of
        Returns r (pa', s') \<Rightarrow>
          \<not> mutex_held (sprintf_slash n pool) pa \<and> (\<forall>k. mutex_held k pa' = mutex_held k pa) \<and>
          (case r of
             Some e \<Rightarrow> view s' = view s
           | None \<Rightarrow> \<exists>a\<in>set (cl_Allocs (view s)). releasable pool n pod ns a \<and>
               (view s' = remove_key (alloc_key a) (view s) \<or>
                (\<exists>t. view s' = mark_key t (alloc_key a) (view s))))
      | Blocks (pa', s') \<Rightarrow> mutex_held (sprintf_slash n pool) pa \<and> view s' = view s
      | Panics _ \<Rightarrow> False)"

lemma ReleasePort_cases:
  "ReleasePort api pool n pod ns pa s =
     (if mutex_held (sprintf_slash n pool) pa then Blocks (snd (getPoolMutex pa pool n), s)
      else
        Returns (fst (release_held api pool n pod ns s))
          (set_mutex (sprintf_slash n pool) False
             (set_mutex (sprintf_slash n pool) True (snd (getPoolMutex pa pool n))),
           snd (release_held api pool n pod ns s)))"
  by (simp add: ReleasePort_def split_beta Let_def)

lemma ReleasePort_post:
  assumes "consistent_client api view"
  shows "release_post pool n pod ns view pa s (ReleasePort api pool n pod ns pa s)"
proof (cases "release_held api pool n pod ns s")
  case (Pair r s')
  then show ?thesis
    using release_held_Some [OF assms] release_held_view [OF assms]
    by (cases r) (auto simp: ReleasePort_cases release_post_def)
qed

lemma ReleasePort_view_cases:
  assumes "consistent_client api view" and "go_state (ReleasePort api pool n pod ns pa s) = (pa', s')"
  shows "view s' = view s \<or> (\<exists>k t. view s' = remove_key k (view s) \<or> view s' = mark_key t k (view s))"
  using ReleasePort_post [OF assms(1), of pool n pod ns pa s] assms(2)
  by (auto simp: release_post_def split: go.splits option.splits)

lemma keys_distinct_remove: "keys_distinct c \<Longrightarrow> keys_distinct (remove_key k c)"
  by (simp add: keys_distinct_def distinct_map_filter_sub)

lemma keys_distinct_mark: "keys_distinct c \<Longrightarrow> keys_distinct (mark_key t k c)"
proof -
  have "alloc_key \<circ> (\<lambda>b. if alloc_key b = k then mark_deleting t b else b) = alloc_key"
    by (auto simp: fun_eq_iff)
  then show "keys_distinct c \<Longrightarrow> keys_distinct (mark_key t k c)" by (simp add: keys_distinct_def)
qed

lemma releasable_in_pool:
  assumes "releasable pool n pod ns a" and "pool \<noteq> ''''"
  shows "in_pool pool a"
  using assms by (auto simp: releasable_def in_pool_def gm_get_def split: option.splits)

section \<open>Sequences of calls\<close>

text \<open>
  The contract the two operations share, for a client of the allocator: under the mutex of
  the named key a call returns with every mutex as it was, waits exactly when that mutex is
  held, does not panic, leaves the pools alone and keeps the ledger invariant.
\<close>

locale pool_operation =
  fixes run :: "('s, 'e) kube_client \<Rightarrow> ('s alloc_vars, 'e error) retrier \<Rightarrow> PoolAllocator \<Rightarrow> 's \<Rightarrow>
      ('r, PoolAllocator \<times> 's) go"
    and key :: string
  assumes waits: "consistent_client api view \<Longrightarrow> retries_on_conflict api retry \<Longrightarrow> pools_bounded (view s) \<Longrightarrow>
      (\<exists>c. run api retry pa s = Blocks c) \<longleftrightarrow> mutex_held key pa"
    and no_panic: "consistent_client api view \<Longrightarrow> retries_on_conflict api retry \<Longrightarrow> pools_bounded (view s) \<Longrightarrow>
      run api retry pa s \<noteq> Panics c"
    and mutexes: "consistent_client api view \<Longrightarrow> retries_on_conflict api retry \<Longrightarrow> pools_bounded (view s) \<Longrightarrow>
      mutex_held k (fst (go_state (run api retry pa s))) = mutex_held k pa"
    and pools: "consistent_client api view \<Longrightarrow> retries_on_conflict api retry \<Longrightarrow> pools_bounded (view s) \<Longrightarrow>
      cl_Pools (view (snd (go_state (run api retry pa s)))) = cl_Pools (view s)"
    and ledger: "consistent_client api view \<Longrightarrow> retries_on_conflict api retry \<Longrightarrow> pools_bounded (view s) \<Longrightarrow>
      ledger_ok (view s) \<Longrightarrow> keys_distinct (view s) \<Longrightarrow>
      ledger_ok (view (snd (go_state (run api retry pa s)))) \<and>
      keys_distinct (view (snd (go_state (run api retry pa s))))"
begin

lemma returns:
  assumes "consistent_client api view" and "retries_on_conflict api retry" and "pools_bounded (view s)"
    and "\<not> mutex_held key pa"
  shows "\<exists>r c. run api retry pa s = Returns r c"
  using waits [OF assms(1-3), of pa] no_panic [OF assms(1-3), of pa] assms(4)
  by (cases "run api retry pa s") auto

lemma bounded:
  assumes "consistent_client api view" and "retries_on_conflict api retry" and "pools_bounded (view s)"
    and "go_state (run api retry pa s) = (pa', s')"
  shows "pools_bounded (view s')"
  using pools [OF assms(1-3), of pa] assms(3,4) by (simp add: pools_bounded_def)

lemma keeps:
  assumes "consistent_client api view" and "retries_on_conflict api retry" and "pools_bounded (view s)"
    and "ledger_ok (view s)" and "keys_distinct (view s)" and "\<forall>k. \<not> mutex_held k pa"
    and "go_state (run api retry pa s) = (pa', s')"
  shows "pools_bounded (view s') \<and> ledger_ok (view s') \<and> keys_distinct (view s') \<and> (\<forall>k. \<not> mutex_held k pa')"
  using bounded [OF assms(1-3,7)] ledger [OF assms(1-5), of pa] mutexes [OF assms(1-3), of _ pa] assms(6,7)
  by auto

end

interpretation allocating: pool_operation
  "\<lambda>api retry. AllocatePort api retry pool n pod ns cps" "sprintf_slash n pool" for pool n pod ns cps
proof unfold_locales
  fix api :: "('s, 'e) kube_client" and retry :: "('s alloc_vars, 'e error) retrier" and view s pa k
  assume law: "consistent_client api view" "retries_on_conflict api retry" "pools_bounded (view s)"
  let ?out = "AllocatePort api retry pool n pod ns cps pa s"
  note post = AllocatePort_post [OF law, of pool n pod ns cps pa]
  show "(\<exists>c. ?out = Blocks c) = mutex_held (sprintf_slash n pool) pa" and "?out \<noteq> Panics c" for c
    using post by (cases ?out rule: outcome_cases, auto simp: allocate_post_def)+
  show "mutex_held k (fst (go_state ?out)) = mutex_held k pa"
  proof (cases "mutex_held (sprintf_slash n pool) pa")
    case True
    then show ?thesis by (simp add: AllocatePort_def split_beta Let_def)
  next
    case False
    then show ?thesis using post by (cases ?out rule: outcome_cases) (auto simp: allocate_post_def)
  qed
  show "cl_Pools (view (snd (go_state ?out))) = cl_Pools (view s)"
    using post by (cases ?out rule: outcome_cases) (auto simp: allocate_post_def)
  assume ok: "ledger_ok (view s)" "keys_distinct (view s)"
  from AllocatePort_view_cases [OF law prod.collapse [symmetric], of pool n pod ns cps pa] ok
  show "ledger_ok (view (snd (go_state ?out))) \<and> keys_distinct (view (snd (go_state ?out)))"
    by (auto simp: keys_distinct_def dest: grants_grantable ledger_ok_store)
qed

interpretation releasing: pool_operation
  "\<lambda>api retry. ReleasePort api pool n pod ns" "sprintf_slash n pool" for pool n pod ns
proof unfold_locales
  fix api :: "('s, 'e) kube_client" and view and s :: 's and pa k
  assume law: "consistent_client api view"
  let ?out = "ReleasePort api pool n pod ns pa s"
  show "(\<exists>c. ?out = Blocks c) = mutex_held (sprintf_slash n pool) pa" and "?out \<noteq> Panics c" for c
    by (simp_all add: ReleasePort_cases)
  show "mutex_held k (fst (go_state ?out)) = mutex_held k pa"
    by (simp add: ReleasePort_cases)
  note v = ReleasePort_view_cases [OF law prod.collapse [symmetric], of pool n pod ns pa s]
  show "cl_Pools (view (snd (go_state ?out))) = cl_Pools (view s)"
    using v by (elim disjE exE) simp_all
  assume "ledger_ok (view s)" "keys_distinct (view s)"
  with v show "ledger_ok (view (snd (go_state ?out))) \<and> keys_distinct (view (snd (go_state ?out)))"
    by (auto simp: ledger_ok_remove ledger_ok_mark keys_distinct_remove keys_distinct_mark)
qed

text \<open>
  A history of the allocator: calls that return or wait, one after the other, between
  which the rest of the cluster may change in any way that leaves the allocations alone.
\<close>

inductive history ::
  "('s, 'e) kube_client \<Rightarrow> ('s alloc_vars, 'e error) retrier \<Rightarrow> ('s \<Rightarrow> cluster) \<Rightarrow>
   PoolAllocator \<times> 's \<Rightarrow> PoolAllocator \<times> 's \<Rightarrow> bool"
  for api :: "('s, 'e) kube_client" and retry :: "('s alloc_vars, 'e error) retrier"
    and view :: "'s \<Rightarrow> cluster" and c0 :: "PoolAllocator \<times> 's" where
  start: "history api retry view c0 c0"
| allocate: "history api retry view c0 (pa, s) \<Longrightarrow>
    history api retry view c0 (go_state (AllocatePort api retry pool n pod ns cps pa s))"
| release: "history api retry view c0 (pa, s) \<Longrightarrow>
    history api retry view c0 (go_state (ReleasePort api pool n pod ns pa s))"
| elsewhere: "history api retry view c0 (pa, s) \<Longrightarrow>
    cl_Allocs (view s') = cl_Allocs (view s) \<Longrightarrow> pools_bounded (view s') \<Longrightarrow>
    history api retry view c0 (pa, s')"

lemma ledger_ok_allocs: "cl_Allocs c = cl_Allocs c' \<Longrightarrow> ledger_ok c = ledger_ok c'"
  by (simp add: ledger_ok_def pool_ok_def pool_allocs_def)

lemma history_invariant:
  assumes "history api retry view c0 c" and "consistent_client api view" and "retries_on_conflict api retry"
    and "pools_bounded (view (snd c0))" and "ledger_ok (view (snd c0))" and "keys_distinct (view (snd c0))"
    and "\<forall>k. \<not> mutex_held k (fst c0)"
  shows "pools_bounded (view (snd c)) \<and> ledger_ok (view (snd c)) \<and> keys_distinct (view (snd c)) \<and>
    (\<forall>k. \<not> mutex_held k (fst c))"
  using assms(1)
proof (induction rule: history.induct)
  case start
  then show ?case using assms by simp
next
  case (allocate pa s pool n pod ns cps)
  then show ?case
    using allocating.keeps [OF assms(2,3) _ _ _ _ prod.collapse [symmetric]] by simp
next
  case (release pa s pool n pod ns)
  then show ?case
    using releasing.keeps [OF assms(2,3) _ _ _ _ prod.collapse [symmetric]] by simp
next
  case (elsewhere pa s s')
  then show ?case
    using ledger_ok_allocs [OF elsewhere.hyps(2)] by (simp add: keys_distinct_def)
qed

section \<open>Properties\<close>

text \<open>
  What ReleasePort answers, on every branch, for a client that finds what is stored
  (\<open>never_fails\<close>) when the mutex is free and the keys of the allocations are distinct:
  not-found when nothing is stored under the key made of the namespace and the names of
  pool and pod; otherwise, for the allocation stored there, a refusal when it is another
  pod's, when its label names another pool, or when it is being deleted already, in that
  order; otherwise success, or the error of the delete call.
\<close>

theorem ReleasePort_answers:
  assumes "consistent_client api view" and "never_fails api view" and "keys_distinct (view s)"
    and "\<not> mutex_held (sprintf_slash n pool) pa"
  shows "\<exists>r c. ReleasePort api pool n pod ns pa s = Returns r c \<and>
    (case filter (\<lambda>a. alloc_key a = \<lparr>nn_Namespace = n, nn_Name = sprintf_dash pool pod\<rparr>) (cl_Allocs (view s)) of
       [] \<Rightarrow> r = Some (AllocationNotFound ns pod pool)
     | a # _ \<Rightarrow>
         if pod_of a \<noteq> (ns, pod) then r = Some (AllocationNotOfPod (sprintf_dash pool pod) ns pod)
         else if gm_get '''' (om_Labels (pa_ObjectMeta a)) LabelPoolNameKey \<noteq> pool
         then r = Some (AllocationNotOfPool (sprintf_dash pool pod) pool)
         else if om_DeletionTimestamp (pa_ObjectMeta a) \<noteq> None
         then r = Some (AllocationAlreadyDeleting (sprintf_dash pool pod))
         else r = None \<or> (\<exists>e. r = Some (FailedToDeleteAllocation (sprintf_dash pool pod) (ApiError e))))"
proof -
  let ?k = "\<lparr>nn_Namespace = n, nn_Name = sprintf_dash pool pod\<rparr>"
  obtain r s1 where g: "kc_GetAllocation api ?k s = (r, s1)" by (cases "kc_GetAllocation api ?k s")
  show ?thesis
  proof (cases r)
    case (Inl e)
    with g have g: "kc_GetAllocation api ?k s = (Inl e, s1)" by simp
    from assms(2) g have nf: "kc_IsNotFound api e" unfolding never_fails_def by blast
    with assms(1) g have "?k \<notin> alloc_key ` set (cl_Allocs (view s))"
      unfolding consistent_client_def gets_current_def by blast
    then have "filter (\<lambda>a. alloc_key a = ?k) (cl_Allocs (view s)) = []"
      by (force simp: filter_empty_conv)
    with g nf assms(4) show ?thesis by (simp add: ReleasePort_cases release_held_def)
  next
    case (Inr a)
    with g have g: "kc_GetAllocation api ?k s = (Inr a, s1)" by simp
    have a: "a \<in> set (cl_Allocs (view s))" "alloc_key a = ?k"
      using get_allocation_found [OF assms(1) g] by simp_all
    then obtain b bs where f: "filter (\<lambda>a. alloc_key a = ?k) (cl_Allocs (view s)) = b # bs"
      by (cases "filter (\<lambda>a. alloc_key a = ?k) (cl_Allocs (view s))") (auto simp: filter_empty_conv)
    have "b = a" using keys_distinctD [OF assms(3) _ a(1)] filter_Cons_mem [OF f] a(2) by simp
    with f g assms(4) show ?thesis
      by (auto simp: ReleasePort_cases release_held_def pod_of_def split: prod.splits sum.splits)
  qed
qed

theorem ReleasePort_answers_witness:
  "\<exists>c. ReleasePort mem_api ''p'' '''' ''a'' ''other'' (NewPoolAllocator StrategyRoundRobin) demo_one =
    Returns (Some (AllocationNotOfPod ''p-a'' ''other'' ''a'')) c"
proof -
  have "\<not> mutex_held (sprintf_slash '''' ''p'') (NewPoolAllocator StrategyRoundRobin)"
    by (simp add: mutex_held_def NewPoolAllocator_def go_simps)
  from ReleasePort_answers [OF mem_consistent mem_never_fails demo_ledger_ok(2) this, of "''a''" "''other''"]
  show ?thesis
    by (simp add: demo_one_def demo_cluster_def demo_key demo_pod_of sprintf_dash_def)
qed

text \<open>
  What ReleasePort does: it waits exactly while the pool's mutex is held; when it
  returns an error nothing has changed; when it returns none, one stored allocation, of
  this very pod, pool and key and not yet marked, has been removed, or marked as deleting
  when a finalizer keeps it. It never panics and leaves every mutex as it was.
\<close>

theorem ReleasePort_effect:
  assumes "consistent_client api view"
  shows "case ReleasePort api pool n pod ns pa s of
      Returns r (pa', s') \<Rightarrow>
        \<not> mutex_held (sprintf_slash n pool) pa \<and> (\<forall>k. mutex_held k pa' = mutex_held k pa) \<and>
        (case r of
           Some e \<Rightarrow> view s' = view s
         | None \<Rightarrow> \<exists>a\<in>set (cl_Allocs (view s)). releasable pool n pod ns a \<and>
             (view s' = remove_key (alloc_key a) (view s) \<or>
              (\<exists>t. view s' = mark_key t (alloc_key a) (view s))))
    | Blocks (pa', s') \<Rightarrow> mutex_held (sprintf_slash n pool) pa \<and> view s' = view s
    | Panics _ \<Rightarrow> False"
  using ReleasePort_post [OF assms, of pool n pod ns pa s] unfolding release_post_def .

theorem ReleasePort_effect_witness:
  "\<exists>pa c. ReleasePort mem_api ''p'' '''' ''a'' ''ns'' (NewPoolAllocator StrategyRoundRobin) demo_one =
      Returns None (pa, c) \<and> \<not> mutex_held (sprintf_slash '''' ''p'') pa \<and> cl_Allocs c = []"
proof -
  have run: "\<exists>pa c. ReleasePort mem_api ''p'' '''' ''a'' ''ns'' (NewPoolAllocator StrategyRoundRobin) demo_one =
      Returns None (pa, c) \<and> cl_Allocs c = []"
    by (simp add: ReleasePort_cases release_held_def demo_one_def call_eval attempt_eval)
  with ReleasePort_effect [OF mem_consistent, where pool = "''p''" and n = "''''" and pod = "''a''"
      and ns = "''ns''" and pa = "NewPoolAllocator StrategyRoundRobin" and s = demo_one]
  show ?thesis by (auto simp: mutex_held_def NewPoolAllocator_def go_simps)
qed

text \<open>
  C19. Refinement: seen through the ledger, a successful release of a pod is the abstract
  operation that frees what the pod holds in the pool, or leaves the ledger as it is when
  the allocation is only marked as deleting; every other release leaves it as it is.
\<close>

theorem ReleasePort_refines_free:
  assumes "consistent_client api view" and "ledger_ok (view s)" and "keys_distinct (view s)" and "pool \<noteq> ''''"
    and "ReleasePort api pool n pod ns pa s = Returns r (pa', s')"
  shows "(r = None \<longrightarrow> ledger_of (view s) pool (ns, pod) \<noteq> None \<and>
      (ledger_of (view s') = free (ledger_of (view s)) pool (ns, pod) \<or>
       ledger_of (view s') = ledger_of (view s) \<and>
         (\<exists>a\<in>set (pool_allocs (view s') pool). pod_of a = (ns, pod) \<and>
            om_DeletionTimestamp (pa_ObjectMeta a) \<noteq> None))) \<and>
    (r \<noteq> None \<longrightarrow> ledger_of (view s') = ledger_of (view s))"
proof (cases r)
  case (Some e)
  with ReleasePort_post [OF assms(1), of pool n pod ns pa s] assms(5) show ?thesis
    by (simp add: release_post_def)
next
  case None
  with ReleasePort_post [OF assms(1), of pool n pod ns pa s] assms(5) obtain a where
    a: "a \<in> set (cl_Allocs (view s))" "releasable pool n pod ns a"
    and v: "view s' = remove_key (alloc_key a) (view s) \<or> (\<exists>t. view s' = mark_key t (alloc_key a) (view s))"
    by (auto simp: release_post_def)
  have pool: "in_pool pool a" "pod_of a = (ns, pod)"
    using releasable_in_pool [OF a(2) assms(4)] a(2) by (simp_all add: releasable_def)
  then have some: "ledger_of (view s) pool (ns, pod) \<noteq> None"
    using a(1) unfolding ledger_dom by (force simp: set_pool_allocs)
  from v show ?thesis
  proof (elim disjE exE)
    assume "view s' = remove_key (alloc_key a) (view s)"
    with ledger_remove [OF assms(2,3) a(1) pool(1)] pool(2) some None show ?thesis by simp
  next
    fix t assume t: "view s' = mark_key t (alloc_key a) (view s)"
    have "mark_deleting t a \<in> set (pool_allocs (view s') pool)"
      using a(1) pool(1) by (force simp: t pool_allocs_mark set_pool_allocs)
    moreover have "om_DeletionTimestamp (pa_ObjectMeta (mark_deleting t a)) \<noteq> None"
      and "pod_of (mark_deleting t a) = (ns, pod)"
      using pool(2) by (simp_all add: mark_deleting_def pod_of_def)
    ultimately have "\<exists>b\<in>set (pool_allocs (view s') pool). pod_of b = (ns, pod) \<and>
        om_DeletionTimestamp (pa_ObjectMeta b) \<noteq> None" by blast
    then show ?thesis using t some None by (simp add: ledger_mark)
  qed
qed

theorem ReleasePort_refines_free_witness:
  "\<exists>pa c. ReleasePort mem_api ''p'' '''' ''a'' ''ns'' (NewPoolAllocator StrategyRoundRobin) demo_one =
      Returns None (pa, c) \<and> ledger_of demo_one ''p'' (''ns'', ''a'') \<noteq> None"
proof -
  have "\<exists>pa c. ReleasePort mem_api ''p'' '''' ''a'' ''ns'' (NewPoolAllocator StrategyRoundRobin) demo_one =
      Returns None (pa, c)"
    by (simp add: ReleasePort_cases release_held_def demo_one_def call_eval attempt_eval)
  then obtain pa c where run: "ReleasePort mem_api ''p'' '''' ''a'' ''ns'' (NewPoolAllocator StrategyRoundRobin) demo_one =
      Returns None (pa, c)" by blast
  from ReleasePort_refines_free [OF mem_consistent demo_ledger_ok _ run] run show ?thesis by blast
qed

text \<open>
  A delete that never leaves the object behind: what the documentation promises for an
  object that has no finalizers.
\<close>

definition removes :: "('s, 'e) kube_client \<Rightarrow> ('s \<Rightarrow> cluster) \<Rightarrow> bool" where
  "removes api view \<longleftrightarrow>
     (\<forall>a s. alloc_key a \<in> alloc_key ` set (cl_Allocs (view s)) \<longrightarrow>
        (\<exists>s'. kc_DeleteAllocation api a s = (Inr (), s') \<and> view s' = remove_key (alloc_key a) (view s)))"

lemma mem_removes: "removes mem_api (\<lambda>c. c)"
  by (auto simp: removes_def mem_delete_def)

lemma remove_stored:
  assumes "alloc_key a \<notin> alloc_key ` set (cl_Allocs c)"
  shows "remove_key (alloc_key a) (store_alloc a c) = c"
proof -
  have "filter (\<lambda>b. alloc_key b \<noteq> alloc_key a) (cl_Allocs c) = cl_Allocs c"
    using assms by (intro filter_True ballI notI) (metis imageI)
  then show ?thesis by simp
qed

text \<open>
  Round trip: when an allocation is made for a pod and the release that follows names
  the same pool, namespace and pod, on a client that answers, the release succeeds and
  the cluster is exactly what it was before the allocation: nothing is leaked. The
  namespace both calls are given must be the pool's own (the controller passes the empty
  one, and pools are cluster-scoped), because the allocation is stored there.
\<close>

theorem allocate_release_roundtrip:
  assumes "consistent_client api view" and "never_fails api view" and "removes api view"
    and "retries_on_conflict api retry" and "pools_bounded (view s)"
    and "\<forall>p\<in>set (cl_Pools (view s)). om_Namespace (np_ObjectMeta p) = n"
    and "AllocatePort api retry pool n pod ns cps pa s = Returns (Inr a) (pa1, s1)"
  shows "\<exists>pa2 s2. ReleasePort api pool n pod ns pa1 s1 = Returns None (pa2, s2) \<and> view s2 = view s"
proof -
  note made = AllocatePort_Inr [OF assms(1,4,5,7)]
  from made(1) obtain p where "p \<in> set (cl_Pools (view s))" "om_Name (np_ObjectMeta p) = pool"
    "grants_in (view s) p pod ns cps a" by (auto simp: grants_def)
  then have rel: "releasable pool n pod ns a"
    using assms(6) by (auto simp: grants_in_def releasable_def grantable_def gm_get_def)
  then have key: "alloc_key a = \<lparr>nn_Namespace = n, nn_Name = sprintf_dash pool pod\<rparr>"
    by (simp add: releasable_def)
  have free: "\<not> mutex_held (sprintf_slash n pool) pa1"
    using AllocatePort_post [OF assms(1,4,5), of pool n pod ns cps pa] assms(7)
    by (auto simp: allocate_post_def)
  obtain r s2 where g: "kc_GetAllocation api (alloc_key a) s1 = (r, s2)"
    by (cases "kc_GetAllocation api (alloc_key a) s1")
  have "r = Inr a"
  proof (cases r)
    case (Inl e)
    with g assms(1,2) made(3) have "alloc_key a \<notin> alloc_key ` set (cl_Allocs (store_alloc a (view s)))"
      unfolding never_fails_def consistent_client_def gets_current_def by metis
    then show ?thesis by simp
  next
    case (Inr b)
    with g have "kc_GetAllocation api (alloc_key a) s1 = (Inr b, s2)" by simp
    note b = get_allocation_found [OF assms(1) this]
    have "b \<notin> set (cl_Allocs (view s))" using made(2) b(2) by (metis imageI)
    with b(1) made(3) Inr show ?thesis by simp
  qed
  with g have g: "kc_GetAllocation api (alloc_key a) s1 = (Inr a, s2)" by simp
  have v2: "view s2 = store_alloc a (view s)"
    using get_allocation_view [OF assms(1) g] made(3) by simp
  then obtain s3 where d: "kc_DeleteAllocation api a s2 = (Inr (), s3)"
    and v3: "view s3 = remove_key (alloc_key a) (view s2)"
    using assms(3) unfolding removes_def by force
  from release_held_succeeds [OF g [unfolded key] rel d] free v3 show ?thesis
    unfolding v2 remove_stored [OF made(2)] by (simp add: ReleasePort_cases)
qed

theorem allocate_release_roundtrip_witness:
  "\<exists>a pa1 c1 pa2. AllocatePort mem_api mem_retry ''p'' '''' ''b'' ''ns'' [sample_port]
      (NewPoolAllocator StrategyRoundRobin) demo_one = Returns (Inr a) (pa1, c1) \<and>
    ReleasePort mem_api ''p'' '''' ''b'' ''ns'' pa1 c1 = Returns None (pa2, demo_one)"
proof -
  obtain a pa c where run: "AllocatePort mem_api mem_retry ''p'' '''' ''b'' ''ns'' [sample_port]
      (NewPoolAllocator StrategyRoundRobin) demo_one = Returns (Inr a) (pa, c)"
    using demo_call by blast
  have "\<forall>p\<in>set (cl_Pools demo_one). om_Namespace (np_ObjectMeta p) = ''''"
    by (simp add: demo_one_def demo_cluster_def demo_pool_def sample_defs)
  from allocate_release_roundtrip [OF mem_consistent mem_never_fails mem_removes mem_retries demo_bounded this run] run
  show ?thesis by blast
qed

text \<open>
  C2. Over any history of allocations and releases of any pods in any pools, between which
  the rest of the cluster may change, no two pods of a pool ever hold a common slot and no
  mutex is left held: from a cluster where the ledger invariant holds (an empty one, for
  instance) every reachable state satisfies it, so every later call returns.
\<close>

theorem history_exclusive:
  assumes "history api retry view c0 (pa, s)"
    and "consistent_client api view" and "retries_on_conflict api retry"
    and "pools_bounded (view (snd c0))" and "ledger_ok (view (snd c0))" and "keys_distinct (view (snd c0))"
    and "\<forall>k. \<not> mutex_held k (fst c0)"
  shows "exclusive (ledger_of (view s)) \<and>
    (\<exists>r c. AllocatePort api retry pool n pod ns cps pa s = Returns r c) \<and>
    (\<exists>r c. ReleasePort api pool n pod ns pa s = Returns r c)"
proof -
  from history_invariant [OF assms] have inv: "pools_bounded (view s)" "ledger_ok (view s)"
    "\<forall>k. \<not> mutex_held k pa" by simp_all
  with ledger_ok_exclusive allocating.returns [OF assms(2,3) inv(1)] releasing.returns [OF assms(2,3) inv(1)]
  show ?thesis by blast
qed

theorem history_exclusive_witness:
  "exclusive (ledger_of (snd (go_state (AllocatePort mem_api mem_retry ''p'' '''' ''b'' ''ns'' [sample_port]
      (NewPoolAllocator StrategyRoundRobin) demo_one))))"
proof -
  have "history mem_api mem_retry (\<lambda>c. c) (NewPoolAllocator StrategyRoundRobin, demo_one)
      (go_state (AllocatePort mem_api mem_retry ''p'' '''' ''b'' ''ns'' [sample_port]
        (NewPoolAllocator StrategyRoundRobin) demo_one))"
    by (rule history.allocate [OF history.start])
  then have "history mem_api mem_retry (\<lambda>c. c) (NewPoolAllocator StrategyRoundRobin, demo_one)
      (fst (go_state (AllocatePort mem_api mem_retry ''p'' '''' ''b'' ''ns'' [sample_port]
        (NewPoolAllocator StrategyRoundRobin) demo_one)),
       snd (go_state (AllocatePort mem_api mem_retry ''p'' '''' ''b'' ''ns'' [sample_port]
        (NewPoolAllocator StrategyRoundRobin) demo_one)))" by simp
  from history_exclusive [OF this mem_consistent mem_retries] demo_bounded demo_ledger_ok
  show ?thesis by (simp add: mutex_held_def NewPoolAllocator_def go_simps)
qed

end
