(* ===== verification/PoolReconciler.thy ===== *)
theory PoolReconciler
  imports Manager Release
begin

text \<open>
  internal/controller/apollonetworkpool\_controller.go: the reconciler that keeps the
  status of a pool up to date. The operations first, then what the reported numbers
  mean, how they agree with the allocator, and what a reconcile changes.
\<close>

section \<open>The status of one load balancer\<close>

text \<open>The two nested loops count the bindings and collect the allocations that have one.\<close>

definition scan_allocation ::
  "LoadBalancerRef \<Rightarrow> PortAllocation \<Rightarrow> PortAllocation list \<times> int32 \<Rightarrow> PortAllocation list \<times> int32" where
  "scan_allocation lbRef allocation = (\<lambda>(lbAllocations, allocatedPorts).
     let (hasLBBinding, allocatedPorts') =
           fold (\<lambda>binding (has, n).
               if lb_ID (pb_LoadBalancerRef binding) = lb_ID lbRef then (True, n + 1) else (has, n))
             (as_PortBindings (pa_Spec allocation)) (False, allocatedPorts)
     in (if hasLBBinding then lbAllocations @ [allocation] else lbAllocations, allocatedPorts'))"

definition calculateLBStatus ::
  "ApolloNetworkPool \<Rightarrow> LoadBalancerRef \<Rightarrow> PortAllocation list \<Rightarrow> LoadBalancerAllocateStatus" where
  "calculateLBStatus pool lbRef allAllocations =
     (let (lbAllocations, allocatedPorts) = fold (scan_allocation lbRef) allAllocations ([], 0);
          range = ps_PortRange (np_Spec pool);
          totalPorts = pr_Max range - pr_Min range + 1 - to_int32 (int (length (pr_ExcludedPorts range)));
          prewarmedCount =
            (if pw_Enabled (ps_PrewarmConfig (np_Spec pool))
             then pw_BufferSize (ps_PrewarmConfig (np_Spec pool)) else 0);
          availableCount = totalPorts - allocatedPorts - prewarmedCount
      in \<lparr>las_Phase = ''Active'', las_AllocatedPorts = lbAllocations, las_PrewarmedPorts = [],
          las_TotalPorts = totalPorts, las_AllocatedCount = allocatedPorts,
          las_PrewarmedCount = prewarmedCount,
          las_AvailableCount = (if availableCount <s 0 then 0 else availableCount),
          las_LastUpdated = None, las_IsSynced = True\<rparr>)"

section \<open>Updating the status\<close>

text \<open>The loop over the load balancers writes one entry of the map for each.\<close>

definition status_entries ::
  "ApolloNetworkPool \<Rightarrow> PortAllocation list \<Rightarrow> time \<Rightarrow> (string, LoadBalancerAllocateStatus) gomap" where
  "status_entries latestPool items now =
     fold (\<lambda>lbRef m.
         gm_put (lb_ID lbRef)
           ((calculateLBStatus latestPool lbRef items)\<lparr>las_LastUpdated := Some now, las_IsSynced := True\<rparr>) m)
       (ps_LoadBalancers (np_Spec latestPool))
       (case nps_Allocations (np_Status latestPool) of None \<Rightarrow> [] | Some m \<Rightarrow> m)"

definition status_attempt ::
  "('s, 'e) kube_client \<Rightarrow> string \<Rightarrow> PortAllocation list \<Rightarrow> 's \<Rightarrow> 'e error option \<times> 's" where
  "status_attempt api poolName items s =
     (case kc_GetPool api \<lparr>nn_Namespace = '''', nn_Name = poolName\<rparr> s of
        (Inl err, s1) \<Rightarrow> (Some (ApiError err), s1)
      | (Inr latestPool, s1) \<Rightarrow>
          (case kc_UpdatePoolStatus api
                  (latestPool\<lparr>np_Status :=
                     \<lparr>nps_Allocations = Some (status_entries latestPool items (kc_Now api s1)),
                      nps_IsSynced = True\<rparr>\<rparr>) s1 of
             (Inl err, s2) \<Rightarrow> (Some (ApiError err), s2)
           | (Inr _, s2) \<Rightarrow> (None, s2)))"

definition updatePoolStatus ::
  "('s, 'e) kube_client \<Rightarrow> ('s, 'e error) retrier \<Rightarrow> ApolloNetworkPool \<Rightarrow> 's \<Rightarrow> 'e error option \<times> 's" where
  "updatePoolStatus api retry pool s =
     (case kc_ListAllocations api [(LabelPoolNameKey, om_Name (np_ObjectMeta pool))] None s of
        (Inl err, s1) \<Rightarrow> (Some (FailedToListAllocations (om_Name (np_ObjectMeta pool)) (ApiError err)), s1)
      | (Inr allocationList, s1) \<Rightarrow>
          (case retry (status_attempt api (om_Name (np_ObjectMeta pool)) (al_Items allocationList)) s1 of
             (Some err, s2) \<Rightarrow> (Some (FailedToUpdateStatus err), s2)
           | (None, s2) \<Rightarrow> (None, s2)))"

definition ApolloNetworkPoolReconciler_Reconcile ::
  "('s, 'e) kube_client \<Rightarrow> ('s, 'e error) retrier \<Rightarrow> request \<Rightarrow> 's \<Rightarrow> (ctrl_result \<times> 'e error option) \<times> 's" where
  "ApolloNetworkPoolReconciler_Reconcile api retry req s =
     (case kc_GetPool api req s of
        (Inl err, s1) \<Rightarrow>
          (if \<not> kc_IsNotFound api err then ((zero_result, Some (ApiError err)), s1)
           else ((zero_result, None), s1))
      | (Inr pool, s1) \<Rightarrow>
          (case updatePoolStatus api retry pool s1 of
             (Some err, s2) \<Rightarrow> ((\<lparr>cr_RequeueAfter = Minute\<rparr>, Some err), s2)
           | (None, s2) \<Rightarrow> ((\<lparr>cr_RequeueAfter = 10 * Minute\<rparr>, None), s2)))"

text \<open>A nil slice of requests is the empty one.\<close>

definition mapPortAllocationToPool :: "api_object \<Rightarrow> request list" where
  "mapPortAllocationToPool obj =
     (case obj of
        AllocationObject allocation \<Rightarrow>
          (let poolName = gm_get '''' (om_Labels (pa_ObjectMeta allocation)) LabelPoolNameKey in
           if poolName = '''' then [] else [\<lparr>nn_Namespace = '''', nn_Name = poolName\<rparr>])
      | _ \<Rightarrow> [])"

section \<open>What the numbers mean\<close>

lemma scan_bindings:
  "fold (\<lambda>b (h, n). if binding_lb b = lid then (True, n + 1) else (h, n)) bs (h, z :: int32) =
     (h \<or> (\<exists>b\<in>set bs. binding_lb b = lid),
      z + of_nat (length (filter (\<lambda>b. binding_lb b = lid) bs)))"
  by (induction bs arbitrary: h z) auto

lemma scan_allocation_step:
  "scan_allocation lb a (acc, z) =
     (if \<exists>b\<in>set (bindings a). binding_lb b = lb_ID lb then acc @ [a] else acc,
      z + of_nat (length (filter (\<lambda>b. binding_lb b = lb_ID lb) (bindings a))))"
  by (simp add: scan_allocation_def scan_bindings Let_def)

lemma scan_allocations:
  "fold (scan_allocation lb) as (acc, z) =
     (acc @ filter (\<lambda>a. \<exists>b\<in>set (bindings a). binding_lb b = lb_ID lb) as,
      z + of_nat (length (lb_bindings as (lb_ID lb))))"
  by (induction as arbitrary: acc z) (simp_all add: scan_allocation_step lb_bindings_def)

lemma calculateLBStatus_counts:
  "las_AllocatedPorts (calculateLBStatus p lb as) =
     filter (\<lambda>a. \<exists>b\<in>set (bindings a). binding_lb b = lb_ID lb) as"
  "las_AllocatedCount (calculateLBStatus p lb as) = of_nat (length (lb_bindings as (lb_ID lb)))"
  by (simp_all add: calculateLBStatus_def scan_allocations Let_def)


lemma calculateLBStatus_cong: "lb_ID lb = lb_ID lb' \<Longrightarrow> calculateLBStatus p lb as = calculateLBStatus p lb' as"
  by (simp add: calculateLBStatus_def scan_allocations)

lemma fold_put_lookup:
  "map_of (fold (\<lambda>x m. gm_put (k x) (g x) m) xs m0) key =
     (if key \<in> k ` set xs then Some (g (last (filter (\<lambda>x. k x = key) xs))) else map_of m0 key)"
proof (induction xs arbitrary: m0)
  case Nil
  then show ?case by simp
next
  case (Cons x xs)
  show ?case
  proof (cases "key \<in> k ` set xs")
    case True
    then have "filter (\<lambda>x. k x = key) xs \<noteq> []" by (auto simp: filter_empty_conv)
    with True show ?thesis by (simp add: Cons.IH)
  next
    case False
    then have "filter (\<lambda>x. k x = key) xs = []" by (auto simp: filter_empty_conv)
    with False show ?thesis by (auto simp: Cons.IH go_simps)
  qed
qed

text \<open>Every load balancer of the pool has its entry; an entry of another one stays as it is.\<close>

lemma status_entries_listed:
  assumes "lb \<in> set (load_balancers p)"
  shows "map_of (status_entries p as now) (lb_ID lb) =
    Some ((calculateLBStatus p lb as)\<lparr>las_LastUpdated := Some now, las_IsSynced := True\<rparr>)"
proof -
  have "filter (\<lambda>x. lb_ID x = lb_ID lb) (load_balancers p) \<noteq> []"
    using assms by (auto simp: filter_empty_conv)
  from last_in_set [OF this] have "lb_ID (last (filter (\<lambda>x. lb_ID x = lb_ID lb) (load_balancers p))) = lb_ID lb"
    by simp
  from calculateLBStatus_cong [OF this, of p as] assms show ?thesis
    by (simp add: status_entries_def fold_put_lookup)
qed

lemma status_entries_unlisted:
  assumes "lid \<notin> lb_ID ` set (load_balancers p)"
  shows "map_of (status_entries p as now) lid = map_of (status_map (np_Status p)) lid"
  using assms by (simp add: status_entries_def status_map_def fold_put_lookup split: option.splits)

section \<open>What a reconcile changes\<close>

lemma updates_status_Inr:
  assumes "updates_status api view" and "kc_UpdatePoolStatus api np s = (Inr r, s')"
  shows "list_all2 (pool_with_status np) (cl_Pools (view s)) (cl_Pools (view s'))"
    and "cl_Allocs (view s') = cl_Allocs (view s)" and "cl_Pods (view s') = cl_Pods (view s)"
  using assms unfolding updates_status_def by blast+

lemma updates_status_Inl:
  assumes "updates_status api view" and "kc_UpdatePoolStatus api np s = (Inl e, s')"
  shows "view s' = view s"
  using assms unfolding updates_status_def by blast

lemma status_attempt_Some:
  assumes "consistent_client api view" and "updates_status api view"
    and "status_attempt api nm items s = (Some e, s')"
  shows "view s' = view s"
  using assms(3) get_pool_view [OF assms(1)] updates_status_Inl [OF assms(2)]
  by (fastforce simp: status_attempt_def split: prod.splits sum.splits)

text \<open>
  The stored pools after an update: the pool of that name reports the given allocations,
  as of some moment, on top of the status that the stored pool had.
\<close>

definition reports ::
  "PortAllocation list \<Rightarrow> ApolloNetworkPool \<Rightarrow> ApolloNetworkPoolStatus \<Rightarrow> bool" where
  "reports items p st \<longleftrightarrow>
     (\<exists>now. st = \<lparr>nps_Allocations = Some (status_entries p items now), nps_IsSynced = True\<rparr>)"

lemma status_attempt_None:
  assumes "consistent_client api view" and "updates_status api view"
    and "status_attempt api nm items s = (None, s')"
  obtains np where "np \<in> set (cl_Pools (view s))" and "om_Name (np_ObjectMeta np) = nm"
    and "\<exists>st. reports items np st \<and>
      list_all2 (pool_with_status (np\<lparr>np_Status := st\<rparr>)) (cl_Pools (view s)) (cl_Pools (view s'))"
    and "cl_Allocs (view s') = cl_Allocs (view s)" and "cl_Pods (view s') = cl_Pods (view s)"
proof -
  from assms(3) obtain np s1 r where g: "kc_GetPool api \<lparr>nn_Namespace = '''', nn_Name = nm\<rparr> s = (Inr np, s1)"
    and u: "kc_UpdatePoolStatus api (np\<lparr>np_Status := \<lparr>nps_Allocations = Some (status_entries np items (kc_Now api s1)),
      nps_IsSynced = True\<rparr>\<rparr>) s1 = (Inr r, s')"
    by (auto simp: status_attempt_def split: prod.splits sum.splits)
  note found = get_pool_found [OF assms(1) g]
  note upd = updates_status_Inr [OF assms(2) u]
  have v: "view s1 = view s" by (rule get_pool_view [OF assms(1) g])
  have "\<exists>st. reports items np st \<and>
      list_all2 (pool_with_status (np\<lparr>np_Status := st\<rparr>)) (cl_Pools (view s)) (cl_Pools (view s'))"
    using upd(1) v unfolding reports_def by auto
  with that [of np] found upd(2,3) v show thesis by simp
qed

lemma updatePoolStatus_Some:
  assumes "consistent_client api view" and "updates_status api view" and "retries_on_conflict api retry"
    and "updatePoolStatus api retry p s = (Some e, s')"
  shows "view s' = view s"
proof (cases "kc_ListAllocations api [(LabelPoolNameKey, om_Name (np_ObjectMeta p))] None s")
  case (Pair r s1)
  have v: "view s1 = view s" by (rule list_view [OF assms(1) Pair])
  show ?thesis
  proof (cases r)
    case (Inl err)
    then show ?thesis using assms(4) Pair v by (simp add: updatePoolStatus_def)
  next
    case (Inr l)
    let ?fn = "status_attempt api (om_Name (np_ObjectMeta p)) (al_Items l)"
    have "\<exists>t. view t = view s \<and> retry ?fn s1 = ?fn t"
      using retries_on_conflict_invariant [OF assms(3), of "\<lambda>t. view t = view s" s1 ?fn] v
        status_attempt_Some [OF assms(1,2)] by metis
    then obtain t where t: "view t = view s" "retry ?fn s1 = ?fn t" by blast
    then show ?thesis
      using assms(4) Pair Inr status_attempt_Some [OF assms(1,2)]
      by (auto simp: updatePoolStatus_def split: prod.splits option.splits)
  qed
qed

lemma updatePoolStatus_None:
  assumes "consistent_client api view" and "updates_status api view" and "retries_on_conflict api retry"
    and "updatePoolStatus api retry p s = (None, s')"
  obtains l s1 t where "kc_ListAllocations api [(LabelPoolNameKey, om_Name (np_ObjectMeta p))] None s = (Inr l, s1)"
    and "view t = view s" and "status_attempt api (om_Name (np_ObjectMeta p)) (al_Items l) t = (None, s')"
proof -
  from assms(4) obtain l s1 where
    l: "kc_ListAllocations api [(LabelPoolNameKey, om_Name (np_ObjectMeta p))] None s = (Inr l, s1)"
    and run: "retry (status_attempt api (om_Name (np_ObjectMeta p)) (al_Items l)) s1 = (None, s')"
    by (auto simp: updatePoolStatus_def split: prod.splits sum.splits option.splits)
  have v: "view s1 = view s" by (rule list_view [OF assms(1) l])
  let ?fn = "status_attempt api (om_Name (np_ObjectMeta p)) (al_Items l)"
  obtain t where "view t = view s" "retry ?fn s1 = ?fn t"
    using retries_on_conflict_invariant [OF assms(3), of "\<lambda>t. view t = view s" s1 ?fn] v
      status_attempt_Some [OF assms(1,2)] by metis
  with that l run show thesis by metis
qed

text \<open>
  The status a pool reports for a load balancer: the allocations of the pool that have a
  binding on it (without their metadata), and how many bindings those are.
\<close>

definition entry_current :: "cluster \<Rightarrow> string \<Rightarrow> LoadBalancerRef \<Rightarrow> LoadBalancerAllocateStatus \<Rightarrow> bool" where
  "entry_current c pool lb e \<longleftrightarrow>
     las_AllocatedCount e = of_nat (length (lb_bindings (pool_allocs c pool) (lb_ID lb))) \<and>
     set (las_AllocatedPorts e) =
       nameless ` {a \<in> set (pool_allocs c pool). \<exists>b\<in>set (bindings a). binding_lb b = lb_ID lb} \<and>
     las_IsSynced e \<and> las_LastUpdated e \<noteq> None"

lemma entry_current_calculated:
  assumes "set items = set (pool_allocs c pool)" and "distinct items" and "distinct (pool_allocs c pool)"
  shows "entry_current c pool lb
    (stored_entry ((calculateLBStatus p lb items)\<lparr>las_LastUpdated := Some now, las_IsSynced := True\<rparr>))"
  using sum_list_same_set [OF assms(2,3,1)] assms(1)
  by (simp add: entry_current_def calculateLBStatus_counts length_lb_bindings)

lemma pool_after_update:
  assumes "list_all2 (pool_with_status (p\<lparr>np_Status := st\<rparr>)) ps qs" and "p \<in> set ps"
  shows "\<exists>q\<in>set qs. om_Name (np_ObjectMeta q) = om_Name (np_ObjectMeta p) \<and> np_Spec q = np_Spec p \<and>
    np_Status q = stored_status st"
proof -
  from assms(2) obtain i where i: "i < length ps" "ps ! i = p" by (auto simp: in_set_conv_nth)
  with list_all2_nthD [OF assms(1) i(1)] list_all2_lengthD [OF assms(1)] show ?thesis
    by (auto simp: pool_with_status_def intro!: bexI [of _ "qs ! i"])
qed

lemma updatePoolStatus_stores:
  assumes "consistent_client api view" and "updates_status api view" and "retries_on_conflict api retry"
    and "keys_distinct (view s)"
    and "\<And>q. q \<in> set (cl_Pools (view s)) \<Longrightarrow> om_Name (np_ObjectMeta q) = om_Name (np_ObjectMeta p) \<Longrightarrow> q = p"
    and "updatePoolStatus api retry p s = (None, s')"
  obtains items now where "set items = set (pool_allocs (view s) (om_Name (np_ObjectMeta p)))" "distinct items"
    "list_all2 (pool_with_status (p\<lparr>np_Status :=
      \<lparr>nps_Allocations = Some (status_entries p items now), nps_IsSynced = True\<rparr>\<rparr>))
      (cl_Pools (view s)) (cl_Pools (view s'))"
    "cl_Allocs (view s') = cl_Allocs (view s)" "cl_Pods (view s') = cl_Pods (view s)"
proof -
  let ?nm = "om_Name (np_ObjectMeta p)"
  obtain l s1 t where l: "kc_ListAllocations api [(LabelPoolNameKey, ?nm)] None s = (Inr l, s1)"
    and t: "view t = view s" and run: "status_attempt api ?nm (al_Items l) t = (None, s')"
    using updatePoolStatus_None [OF assms(1-3,6)] by blast
  obtain np where np: "np \<in> set (cl_Pools (view t))" "om_Name (np_ObjectMeta np) = ?nm"
    and st: "\<exists>st. reports (al_Items l) np st \<and>
      list_all2 (pool_with_status (np\<lparr>np_Status := st\<rparr>)) (cl_Pools (view t)) (cl_Pools (view s'))"
    and rest: "cl_Allocs (view s') = cl_Allocs (view t)" "cl_Pods (view s') = cl_Pods (view t)"
    using status_attempt_None [OF assms(1,2) run] by metis
  have p: "np = p" using assms(5) np t by simp
  have items: "set (al_Items l) = set (pool_allocs (view s) ?nm)"
    using list_items [OF assms(1) l] by (simp add: pool_allocs_def)
  have "distinct (al_Items l)"
    using list_distinct [OF assms(1) l] pool_allocs_distinct [OF assms(4)] by auto
  moreover from st p obtain now where "list_all2 (pool_with_status (p\<lparr>np_Status :=
      \<lparr>nps_Allocations = Some (status_entries p (al_Items l) now), nps_IsSynced = True\<rparr>\<rparr>))
      (cl_Pools (view s)) (cl_Pools (view s'))"
    unfolding reports_def t by blast
  ultimately show thesis using that [OF items] rest t by simp
qed

lemma updatePoolStatus_current:
  assumes "consistent_client api view" and "updates_status api view" and "retries_on_conflict api retry"
    and "keys_distinct (view s)" and "p \<in> set (cl_Pools (view s))"
    and "\<And>q. q \<in> set (cl_Pools (view s)) \<Longrightarrow> om_Name (np_ObjectMeta q) = om_Name (np_ObjectMeta p) \<Longrightarrow> q = p"
    and "updatePoolStatus api retry p s = (None, s')"
  shows "\<exists>q\<in>set (cl_Pools (view s')). om_Name (np_ObjectMeta q) = om_Name (np_ObjectMeta p) \<and>
    np_Spec q = np_Spec p \<and> nps_IsSynced (np_Status q) \<and>
    (\<forall>lb\<in>set (load_balancers p). \<exists>e. map_of (status_map (np_Status q)) (lb_ID lb) = Some e \<and>
       entry_current (view s) (om_Name (np_ObjectMeta p)) lb e) \<and>
    (\<forall>lid. lid \<notin> lb_ID ` set (load_balancers p) \<longrightarrow>
       map_of (status_map (np_Status q)) lid = map_option stored_entry (map_of (status_map (np_Status p)) lid))"
    and "cl_Allocs (view s') = cl_Allocs (view s) \<and> cl_Pods (view s') = cl_Pods (view s)"
proof -
  let ?nm = "om_Name (np_ObjectMeta p)"
  obtain items now where items: "set items = set (pool_allocs (view s) ?nm)" and d: "distinct items"
    and upd: "list_all2 (pool_with_status (p\<lparr>np_Status :=
      \<lparr>nps_Allocations = Some (status_entries p items now), nps_IsSynced = True\<rparr>\<rparr>))
      (cl_Pools (view s)) (cl_Pools (view s'))"
    and rest: "cl_Allocs (view s') = cl_Allocs (view s)" "cl_Pods (view s') = cl_Pods (view s)"
    using updatePoolStatus_stores [OF assms(1-4,6,7)] by blast
  have d: "distinct items" "distinct (pool_allocs (view s) ?nm)"
    using d pool_allocs_distinct [OF assms(4)] by auto
  note entries = status_entries_listed status_entries_unlisted entry_current_calculated [OF items d]
  from pool_after_update [OF upd assms(5)] obtain q where q: "q \<in> set (cl_Pools (view s'))"
    "om_Name (np_ObjectMeta q) = ?nm" "np_Spec q = np_Spec p"
    "np_Status q = stored_status \<lparr>nps_Allocations = Some (status_entries p items now), nps_IsSynced = True\<rparr>"
    by blast
  show "\<exists>q\<in>set (cl_Pools (view s')). om_Name (np_ObjectMeta q) = ?nm \<and>
    np_Spec q = np_Spec p \<and> nps_IsSynced (np_Status q) \<and>
    (\<forall>lb\<in>set (load_balancers p). \<exists>e. map_of (status_map (np_Status q)) (lb_ID lb) = Some e \<and>
       entry_current (view s) ?nm lb e) \<and>
    (\<forall>lid. lid \<notin> lb_ID ` set (load_balancers p) \<longrightarrow>
       map_of (status_map (np_Status q)) lid = map_option stored_entry (map_of (status_map (np_Status p)) lid))"
    by (intro bexI [OF _ q(1)] conjI) (auto simp: q(2-4) map_of_stored_status entries)
  show "cl_Allocs (view s') = cl_Allocs (view s) \<and> cl_Pods (view s') = cl_Pods (view s)"
    using rest by simp
qed

section \<open>Properties\<close>

lemma calculateLBStatus_numbers:
  assumes "sane_range (port_range p)" and "0 \<le> sint (pw_BufferSize (ps_PrewarmConfig (np_Spec p)))"
    and "int (length (lb_bindings as (lb_ID lb))) + int (length (pr_ExcludedPorts (port_range p))) +
      sint (pw_BufferSize (ps_PrewarmConfig (np_Spec p))) < 2 ^ 31"
  shows "let e = calculateLBStatus p lb as;
      total = sint (pr_Max (port_range p)) - sint (pr_Min (port_range p)) + 1
        - int (length (pr_ExcludedPorts (port_range p)));
      used = int (length (lb_bindings as (lb_ID lb)));
      buffer = (if pw_Enabled (ps_PrewarmConfig (np_Spec p))
        then sint (pw_BufferSize (ps_PrewarmConfig (np_Spec p))) else 0)
    in las_AllocatedPorts e = filter (\<lambda>a. \<exists>b\<in>set (bindings a). binding_lb b = lb_ID lb) as \<and>
      length (lb_bindings (las_AllocatedPorts e) (lb_ID lb)) = length (lb_bindings as (lb_ID lb)) \<and>
      sint (las_TotalPorts e) = total \<and> sint (las_AllocatedCount e) = used \<and>
      sint (las_PrewarmedCount e) = buffer \<and> sint (las_AvailableCount e) = max 0 (total - used - buffer)"
proof -
  let ?r = "port_range p" and ?pw = "ps_PrewarmConfig (np_Spec p)"
  define n where "n = length (lb_bindings as (lb_ID lb))"
  define x where "x = length (pr_ExcludedPorts ?r)"
  define b where "b = (if pw_Enabled ?pw then pw_BufferSize ?pw else 0)"
  have bounds: "int n + int x + sint b < 2 ^ 31" "0 \<le> sint b" "0 \<le> sint (pr_Min ?r)"
    "sint (pr_Min ?r) \<le> sint (pr_Max ?r)" "sint (pr_Max ?r) \<le> 65535"
    using assms by (auto simp: n_def x_def b_def sane_range_def)
  define T where "T = sint (pr_Max ?r) - sint (pr_Min ?r) + 1 - int x"
  have small: "- (2 ^ 31) \<le> T" "T < 2 ^ 31" "- (2 ^ 31) \<le> T - int n - sint b" "T - int n - sint b < 2 ^ 31"
    using bounds by (auto simp: T_def)
  have words: "pr_Max ?r - pr_Min ?r + 1 - to_int32 (int x) = word_of_int T"
    "word_of_int T - of_nat n - b = word_of_int (T - int n - sint b)"
    by (simp_all add: T_def to_int32_def)
  have ints: "sint (word_of_int T :: int32) = T" "sint (of_nat n :: int32) = int n"
    "sint (word_of_int (T - int n - sint b) :: int32) = T - int n - sint b"
    using sint32_word_of_int [OF small(1,2)] sint32_word_of_int [OF small(3,4)] bounds
      sint32_of_nat [of n] by (blast, linarith, blast)
  have used: "length (lb_bindings (filter (\<lambda>a. \<exists>b\<in>set (bindings a). binding_lb b = lid) as') lid) =
      length (lb_bindings as' lid)" for as' lid
    by (induction as') (auto simp: lb_bindings_def filter_empty_conv)
  define w where "w = (word_of_int (T - int n - sint b) :: int32)"
  have w: "sint w = T - int n - sint b" unfolding w_def by (rule ints(3))
  have fields: "las_TotalPorts (calculateLBStatus p lb as) = word_of_int T"
    "las_AllocatedCount (calculateLBStatus p lb as) = of_nat n"
    "las_PrewarmedCount (calculateLBStatus p lb as) = b"
    "las_AvailableCount (calculateLBStatus p lb as) =
      (if w <s 0 then 0 else w)"
    by (simp_all add: calculateLBStatus_def scan_allocations Let_def w_def flip: n_def x_def b_def words)
  have "sint (las_AvailableCount (calculateLBStatus p lb as)) = max 0 (T - int n - sint b)"
    by (simp add: fields word_sless_alt w)
  moreover have totals: "sint (las_TotalPorts (calculateLBStatus p lb as)) = T"
    "sint (las_AllocatedCount (calculateLBStatus p lb as)) = int n"
    "sint (las_PrewarmedCount (calculateLBStatus p lb as)) = sint b"
    by (simp_all only: fields(1-3) ints(1,2))
  moreover have "(if pw_Enabled ?pw then sint (pw_BufferSize ?pw) else 0) = sint b" by (simp add: b_def)
  ultimately show ?thesis
    using totals by (simp add: Let_def calculateLBStatus_counts(1) used T_def flip: n_def x_def)
qed

lemma available_without_prewarming:
  assumes "\<not> pw_Enabled (ps_PrewarmConfig (np_Spec p))" and "0 < n" and "n < 2 ^ 31"
  shows "n \<le> sint (las_AvailableCount (calculateLBStatus p lb as)) \<longleftrightarrow>
    hasAvailablePorts \<lparr>pna_pool = p, pna_allocations = \<lparr>al_Items = as\<rparr>\<rparr> lb n"
proof -
  let ?sn = "\<lparr>pna_pool = p, pna_allocations = \<lparr>al_Items = as\<rparr>\<rparr>"
  define left where "left = pr_Max (port_range p) - pr_Min (port_range p) + 1 -
    to_int32 (int (length (pr_ExcludedPorts (port_range p)))) - getLBPortUsage \<lparr>al_Items = as\<rparr> lb"
  have "las_AvailableCount (calculateLBStatus p lb as) = (if left <s 0 then 0 else left)"
    using assms by (simp add: calculateLBStatus_def scan_allocations Let_def left_def getLBPortUsage_count)
  moreover have "hasAvailablePorts ?sn lb n \<longleftrightarrow> n \<le> sint left"
    using assms sint32_to_int32 [of n] by (simp add: hasAvailablePorts_def Let_def left_def word_sle_eq)
  ultimately show ?thesis
    using assms by (simp add: word_sless_alt)
qed

text \<open>
  C28. The numbers of a load balancer's status, for a valid port range, a buffer that is
  not negative, and counts that fit an int32: the total is the size of the range less the
  excluded ports; the allocated count is the number of bindings on the load balancer in
  the given allocations, and the allocated ports are the allocations that have one, in
  order; what is prewarmed is the buffer size when prewarming is on; and what is
  available is the rest, or 0 when nothing is left. No number wraps around.
\<close>

theorem calculateLBStatus_correct:
  assumes "sane_range (port_range p)" and "0 \<le> sint (pw_BufferSize (ps_PrewarmConfig (np_Spec p)))"
    and "int (length (lb_bindings as (lb_ID lb))) + int (length (pr_ExcludedPorts (port_range p))) +
      sint (pw_BufferSize (ps_PrewarmConfig (np_Spec p))) < 2 ^ 31"
  shows "let e = calculateLBStatus p lb as;
      total = sint (pr_Max (port_range p)) - sint (pr_Min (port_range p)) + 1
        - int (length (pr_ExcludedPorts (port_range p)));
      used = int (length (lb_bindings as (lb_ID lb)));
      buffer = (if pw_Enabled (ps_PrewarmConfig (np_Spec p))
        then sint (pw_BufferSize (ps_PrewarmConfig (np_Spec p))) else 0)
    in las_AllocatedPorts e = filter (\<lambda>a. \<exists>b\<in>set (bindings a). binding_lb b = lb_ID lb) as \<and>
      length (lb_bindings (las_AllocatedPorts e) (lb_ID lb)) = length (lb_bindings as (lb_ID lb)) \<and>
      sint (las_TotalPorts e) = total \<and> sint (las_AllocatedCount e) = used \<and>
      sint (las_PrewarmedCount e) = buffer \<and> sint (las_AvailableCount e) = max 0 (total - used - buffer)"
  by (rule calculateLBStatus_numbers [OF assms])

theorem calculateLBStatus_correct_witness:
  "sint (las_AvailableCount (calculateLBStatus (demo_pool ''p'') (sample_lb ''lb-1'')
     [sample_alloc ''p'' ''a'' ''ns'' [(''lb-1'', 30000)]])) = 1"
  using calculateLBStatus_correct [of "demo_pool ''p''" "[sample_alloc ''p'' ''a'' ''ns'' [(''lb-1'', 30000)]]" "sample_lb ''lb-1''"]
  by (simp add: Let_def sane_range_def demo_pool_def sample_defs lb_bindings_def)

text \<open>
  C29. The status agrees with the allocator, less the buffer. Without prewarming, a request of
  n ports fits the reported available count exactly when the allocator finds the load balancer
  able to serve it on the same allocations, with the int32 arithmetic of both. With any
  prewarming, as long as no number wraps around, it fits exactly when the allocator could
  serve n ports and the buffer on top; the count is never negative. The allocator itself does
  not hold the buffer back: what it can serve does not depend on the prewarming, so it can find
  room where the status reports that nothing is available.
\<close>

theorem status_agrees_with_allocator:
  assumes "0 < n"
  shows "let sn = \<lparr>pna_pool = p, pna_allocations = \<lparr>al_Items = as\<rparr>\<rparr>;
      available = sint (las_AvailableCount (calculateLBStatus p lb as));
      buffer = (if pw_Enabled (ps_PrewarmConfig (np_Spec p)) then sint (pw_BufferSize (ps_PrewarmConfig (np_Spec p))) else 0)
    in 0 \<le> available \<and>
      (\<not> pw_Enabled (ps_PrewarmConfig (np_Spec p)) \<and> n < 2 ^ 31 \<longrightarrow>
         (n \<le> available \<longleftrightarrow> hasAvailablePorts sn lb n)) \<and>
      (sane_range (port_range p) \<and> 0 \<le> sint (pw_BufferSize (ps_PrewarmConfig (np_Spec p))) \<and>
         int (length (lb_bindings as (lb_ID lb))) + int (length (pr_ExcludedPorts (port_range p))) +
           sint (pw_BufferSize (ps_PrewarmConfig (np_Spec p))) < 2 ^ 31 \<and> n + buffer < 2 ^ 31 \<longrightarrow>
         (n \<le> available \<longleftrightarrow> hasAvailablePorts sn lb (n + buffer))) \<and>
      hasAvailablePorts (sn\<lparr>pna_pool := p\<lparr>np_Spec := (np_Spec p)\<lparr>ps_PrewarmConfig := w\<rparr>\<rparr>\<rparr>) lb n = hasAvailablePorts sn lb n"
proof -
  let ?sn = "\<lparr>pna_pool = p, pna_allocations = \<lparr>al_Items = as\<rparr>\<rparr>" and ?pw = "ps_PrewarmConfig (np_Spec p)"
  let ?available = "sint (las_AvailableCount (calculateLBStatus p lb as))"
  define buffer where "buffer = (if pw_Enabled ?pw then sint (pw_BufferSize ?pw) else 0)"
  have "0 \<le> ?available" by (simp add: calculateLBStatus_def Let_def split_beta word_sless_alt)
  moreover have "n \<le> ?available \<longleftrightarrow> hasAvailablePorts ?sn lb n" if "\<not> pw_Enabled ?pw" "n < 2 ^ 31"
    by (rule available_without_prewarming [OF that(1) assms that(2)])
  moreover have "n \<le> ?available \<longleftrightarrow> hasAvailablePorts ?sn lb (n + buffer)"
    if "sane_range (port_range p)" "0 \<le> sint (pw_BufferSize ?pw)"
      "int (length (lb_bindings as (lb_ID lb))) + int (length (pr_ExcludedPorts (port_range p))) + sint (pw_BufferSize ?pw) < 2 ^ 31"
      "n + buffer < 2 ^ 31"
  proof -
    have "0 \<le> buffer" using that(2) by (simp add: buffer_def)
    moreover have "?available = max 0 (ports_left ?sn (lb_ID lb) - buffer)"
      using calculateLBStatus_numbers [OF that(1-3)] by (simp add: Let_def ports_left_def buffer_def)
    moreover have "hasAvailablePorts ?sn lb (n + buffer) \<longleftrightarrow> n + buffer \<le> ports_left ?sn (lb_ID lb)"
      by (rule hasAvailablePorts_iff) (use that assms \<open>0 \<le> buffer\<close> in \<open>auto simp: buffer_def countable_ports_def\<close>)
    ultimately show ?thesis using assms by linarith
  qed
  moreover have "hasAvailablePorts (?sn\<lparr>pna_pool := p\<lparr>np_Spec := (np_Spec p)\<lparr>ps_PrewarmConfig := w\<rparr>\<rparr>\<rparr>) lb n =
      hasAvailablePorts ?sn lb n"
    by (simp add: hasAvailablePorts_def)
  ultimately show ?thesis by (auto simp: Let_def buffer_def)
qed

text \<open>Two ports and a buffer of one.\<close>

theorem status_agrees_with_allocator_witness:
  "let p = (demo_pool ''p'')\<lparr>np_Spec := (np_Spec (demo_pool ''p''))\<lparr>ps_PrewarmConfig := \<lparr>pw_Enabled = True, pw_BufferSize = 1\<rparr>\<rparr>\<rparr>
   in sint (las_AvailableCount (calculateLBStatus p (sample_lb ''lb-1'') [])) = 1 \<and>
     hasAvailablePorts \<lparr>pna_pool = p, pna_allocations = \<lparr>al_Items = []\<rparr>\<rparr> (sample_lb ''lb-1'') 2"
proof -
  let ?p = "(demo_pool ''p'')\<lparr>np_Spec := (np_Spec (demo_pool ''p''))\<lparr>ps_PrewarmConfig := \<lparr>pw_Enabled = True, pw_BufferSize = 1\<rparr>\<rparr>\<rparr>"
  have "sint (las_AvailableCount (calculateLBStatus ?p (sample_lb ''lb-1'') [])) = 1"
    by (simp add: calculateLBStatus_def demo_pool_def sample_defs to_int32_def Let_def word_sless_alt)
  moreover have "sane_range (port_range ?p)" "lb_bindings [] (lb_ID (sample_lb ''lb-1'')) = []"
    by (simp_all add: sane_range_def demo_pool_def sample_defs lb_bindings_def)
  ultimately show ?thesis
    using status_agrees_with_allocator [of 1 ?p "[]" "sample_lb ''lb-1''"]
    by (simp add: Let_def demo_pool_def sample_pool_def)
qed

text \<open>
  C26. What a reconcile of a pool does. A pool that is gone ends the reconcile with no
  requeue. When the update goes through, the request is requeued after ten minutes and
  the stored pool has, for every load balancer of its spec, an entry that counts and
  lists the allocations the cluster holds for the pool at that load balancer, as far as the
  server stores them (without their names and labels); entries of load balancers that are
  not in the spec any more stay as they were (stale). The spec,
  the allocations and the pods are untouched. An error leaves the whole cluster as it is.
\<close>

theorem pool_reconcile_effect:
  assumes "consistent_client api view" and "updates_status api view" and "retries_on_conflict api retry"
    and "keys_distinct (view s)" and "p \<in> set (cl_Pools (view s))" and "om_Name (np_ObjectMeta p) = nn_Name req"
    and "\<And>q. q \<in> set (cl_Pools (view s)) \<Longrightarrow> om_Name (np_ObjectMeta q) = nn_Name req \<Longrightarrow> q = p"
  shows "case ApolloNetworkPoolReconciler_Reconcile api retry req s of
      ((res, Some e), s') \<Rightarrow> view s' = view s \<and> cr_RequeueAfter res \<in> {0, Minute}
    | ((res, None), s') \<Rightarrow>
        res = zero_result \<and> view s' = view s \<or>
        res = \<lparr>cr_RequeueAfter = 10 * Minute\<rparr> \<and>
        cl_Allocs (view s') = cl_Allocs (view s) \<and> cl_Pods (view s') = cl_Pods (view s) \<and>
        (\<exists>q\<in>set (cl_Pools (view s')). om_Name (np_ObjectMeta q) = nn_Name req \<and>
          np_Spec q = np_Spec p \<and> nps_IsSynced (np_Status q) \<and>
          (\<forall>lb\<in>set (load_balancers p). \<exists>e. map_of (status_map (np_Status q)) (lb_ID lb) = Some e \<and>
             entry_current (view s) (nn_Name req) lb e) \<and>
          (\<forall>lid. lid \<notin> lb_ID ` set (load_balancers p) \<longrightarrow>
             map_of (status_map (np_Status q)) lid = map_option stored_entry (map_of (status_map (np_Status p)) lid)))"
proof (cases "kc_GetPool api req s")
  case (Pair r s1)
  have v: "view s1 = view s" by (rule get_pool_view [OF assms(1) Pair])
  show ?thesis
  proof (cases r)
    case (Inl err)
    with Pair v show ?thesis by (simp add: ApolloNetworkPoolReconciler_Reconcile_def zero_result_def)
  next
    case (Inr np)
    with Pair have g: "kc_GetPool api req s = (Inr np, s1)" by simp
    have np: "np = p" using get_pool_found [OF assms(1) g] assms(7) by blast
    obtain o' s2 where u: "updatePoolStatus api retry p s1 = (o', s2)"
      by (cases "updatePoolStatus api retry p s1")
    show ?thesis
    proof (cases o')
      case (Some e)
      with u have "updatePoolStatus api retry p s1 = (Some e, s2)" by simp
      from updatePoolStatus_Some [OF assms(1-3) this] this show ?thesis
        using v np by (simp add: ApolloNetworkPoolReconciler_Reconcile_def g)
    next
      case None
      with u have u: "updatePoolStatus api retry p s1 = (None, s2)" by simp
      have k: "keys_distinct (view s1)" and m: "p \<in> set (cl_Pools (view s1))"
        using assms(4,5) v by simp_all
      have one: "q = p" if "q \<in> set (cl_Pools (view s1))" "om_Name (np_ObjectMeta q) = om_Name (np_ObjectMeta p)" for q
        using that assms(6,7) v by metis
      note current = updatePoolStatus_current [OF assms(1-3) k m one u, unfolded v assms(6)]
      have "ApolloNetworkPoolReconciler_Reconcile api retry req s = ((\<lparr>cr_RequeueAfter = 10 * Minute\<rparr>, None), s2)"
        by (simp add: ApolloNetworkPoolReconciler_Reconcile_def g np u)
      with current(2) show ?thesis
        by (simp only: prod.case option.case) (intro disjI2 conjI refl current(1), simp_all)
    qed
  qed
qed

lemma demo_reconcile_result:
  "\<exists>c. ApolloNetworkPoolReconciler_Reconcile mem_api mem_retry \<lparr>nn_Namespace = '''', nn_Name = ''p''\<rparr> demo_one =
     ((\<lparr>cr_RequeueAfter = 10 * Minute\<rparr>, None), c)"
proof -
  have "mem_get_pool \<lparr>nn_Namespace = '''', nn_Name = ''p''\<rparr> demo_one = (Inr (demo_pool ''p''), demo_one)"
    by (simp add: mem_get_pool_def demo_one_def demo_cluster_def demo_pool_def sample_pool_def)
  moreover have "om_Name (np_ObjectMeta (demo_pool ''p'')) = ''p''"
    by (simp add: demo_pool_def sample_pool_def)
  ultimately show ?thesis
    by (simp add: ApolloNetworkPoolReconciler_Reconcile_def updatePoolStatus_def status_attempt_def
        mem_retry_once mem_list_def mem_update_status_def Let_def)
qed

theorem pool_reconcile_effect_witness:
  "\<exists>c. ApolloNetworkPoolReconciler_Reconcile mem_api mem_retry \<lparr>nn_Namespace = '''', nn_Name = ''p''\<rparr> demo_one =
     ((\<lparr>cr_RequeueAfter = 10 * Minute\<rparr>, None), c) \<and> cl_Allocs c = cl_Allocs demo_one"
proof -
  obtain c where run: "ApolloNetworkPoolReconciler_Reconcile mem_api mem_retry
      \<lparr>nn_Namespace = '''', nn_Name = ''p''\<rparr> demo_one = ((\<lparr>cr_RequeueAfter = 10 * Minute\<rparr>, None), c)"
    using demo_reconcile_result by blast
  have stored: "demo_pool ''p'' \<in> set (cl_Pools demo_one)"
    and named: "om_Name (np_ObjectMeta (demo_pool ''p'')) = nn_Name \<lparr>nn_Namespace = '''', nn_Name = ''p''\<rparr>"
    by (simp_all add: demo_one_def demo_cluster_def demo_pool_def sample_pool_def)
  have only: "q = demo_pool ''p''" if "q \<in> set (cl_Pools demo_one)" for q
    using that by (simp add: demo_one_def demo_cluster_def)
  note effect = pool_reconcile_effect [OF mem_consistent mem_updates_status mem_retries demo_ledger_ok(2) stored named only]
  show ?thesis
    using effect [simplified run] run by (auto simp: zero_result_def Minute_def)
qed

text \<open>
  A change of an allocation reconciles the pool that counts it: the watch maps an
  allocation to one request, for the pool its label names, and to none exactly when the
  label is missing or empty or the object is of another kind. So the pool that is
  reconciled for an allocation that AllocatePort has stored is the one it was made in.
\<close>

theorem mapPortAllocationToPool_correct:
  "(pool \<noteq> '''' \<longrightarrow>
      (in_pool pool a \<longleftrightarrow>
       mapPortAllocationToPool (AllocationObject a) = [\<lparr>nn_Namespace = '''', nn_Name = pool\<rparr>])) \<and>
   (mapPortAllocationToPool obj = [] \<longleftrightarrow>
      (\<forall>a p. obj = AllocationObject a \<longrightarrow> p \<noteq> '''' \<longrightarrow> \<not> in_pool p a)) \<and>
   (grants c pool pod ns cps a \<longrightarrow> pool \<noteq> '''' \<longrightarrow>
      mapPortAllocationToPool (AllocationObject a) = [\<lparr>nn_Namespace = '''', nn_Name = pool\<rparr>])"
proof -
  have one: "in_pool p a \<longleftrightarrow> mapPortAllocationToPool (AllocationObject a) = [\<lparr>nn_Namespace = '''', nn_Name = p\<rparr>]"
    if "p \<noteq> ''''" for p a
    using that by (auto simp: mapPortAllocationToPool_def in_pool_def gm_get_def Let_def split: option.splits)
  have "mapPortAllocationToPool obj = [] \<longleftrightarrow> (\<forall>a p. obj = AllocationObject a \<longrightarrow> p \<noteq> '''' \<longrightarrow> \<not> in_pool p a)"
    by (cases obj) (auto simp: mapPortAllocationToPool_def in_pool_def gm_get_def Let_def split: option.splits)
  moreover have "in_pool pool a" if "grants c pool pod ns cps a"
    using grants_grantable [OF that] grantable_in_pool by blast
  ultimately show ?thesis using one by blast
qed

theorem mapPortAllocationToPool_correct_witness:
  "mapPortAllocationToPool (AllocationObject (sample_alloc ''p'' ''a'' ''ns'' [])) =
     [\<lparr>nn_Namespace = '''', nn_Name = ''p''\<rparr>]"
  by (rule mapPortAllocationToPool_correct [THEN conjunct1, rule_format, THEN iffD1])
    (simp_all add: in_pool_def sample_alloc_def)

end
