(* ===== verification/GoStrings.thy ===== *)
theory GoStrings
  imports Prelude
begin

text \<open>
  The functions of Go's package strings that the pod controller uses. A Go string is a
  sequence of bytes, in the model a list of \<^typ>\<open>char\<close>; nothing requires it to be UTF-8.
\<close>

section \<open>HasPrefix, HasSuffix and Split\<close>

definition HasPrefix :: "string \<Rightarrow> string \<Rightarrow> bool" where
  "HasPrefix s p \<longleftrightarrow> take (length p) s = p"

definition HasSuffix :: "string \<Rightarrow> string \<Rightarrow> bool" where
  "HasSuffix s p \<longleftrightarrow> HasPrefix (rev s) (rev p)"

text \<open>\<open>strings.Split\<close> with a separator of one byte: one piece more than separators.\<close>

fun Split :: "string \<Rightarrow> char \<Rightarrow> string list" where
  "Split [] sep = [[]]"
| "Split (c # cs) sep =
     (if c = sep then [] # Split cs sep
      else case Split cs sep of p # ps \<Rightarrow> (c # p) # ps | [] \<Rightarrow> [[c]])"

lemma Split_not_Nil [simp]: "Split s sep \<noteq> []"
  by (cases s) (auto split: list.splits)

lemma Split_free: "sep \<notin> set s \<Longrightarrow> Split s sep = [s]"
  by (induction s) auto

lemma Split_append:
  assumes "sep \<notin> set p"
  shows "Split (p @ sep # s) sep = p # Split s sep"
  using assms by (induction p) auto

fun join :: "char \<Rightarrow> string list \<Rightarrow> string" where
  "join sep [] = []"
| "join sep [p] = p"
| "join sep (p # ps) = p @ sep # join sep ps"

text \<open>Splitting undoes joining.\<close>

lemma Split_join:
  assumes "ps \<noteq> []" and "\<forall>p\<in>set ps. sep \<notin> set p"
  shows "Split (join sep ps) sep = ps"
  using assms by (induction sep ps rule: join.induct) (auto simp: Split_free Split_append)

section \<open>TrimSpace\<close>

text \<open>
  \<open>unicode.IsSpace\<close> as UTF-8 byte sequences: tab, line feed, vertical tab, form feed,
  carriage return, space, U+0085, U+00A0, U+1680, U+2000 to U+200A, U+2028, U+2029,
  U+202F, U+205F and U+3000. A byte that is no part of one of them ends the trimming, also
  when it is not valid UTF-8.
\<close>

definition space_codes :: "string list" where
  "space_codes =
     [[CHR 0x09], [CHR 0x0A], [CHR 0x0B], [CHR 0x0C], [CHR 0x0D], [CHR 0x20],
      [CHR 0xC2, CHR 0x85], [CHR 0xC2, CHR 0xA0], [CHR 0xE1, CHR 0x9A, CHR 0x80],
      [CHR 0xE2, CHR 0x80, CHR 0x80], [CHR 0xE2, CHR 0x80, CHR 0x81], [CHR 0xE2, CHR 0x80, CHR 0x82],
      [CHR 0xE2, CHR 0x80, CHR 0x83], [CHR 0xE2, CHR 0x80, CHR 0x84], [CHR 0xE2, CHR 0x80, CHR 0x85],
      [CHR 0xE2, CHR 0x80, CHR 0x86], [CHR 0xE2, CHR 0x80, CHR 0x87], [CHR 0xE2, CHR 0x80, CHR 0x88],
      [CHR 0xE2, CHR 0x80, CHR 0x89], [CHR 0xE2, CHR 0x80, CHR 0x8A], [CHR 0xE2, CHR 0x80, CHR 0xA8],
      [CHR 0xE2, CHR 0x80, CHR 0xA9], [CHR 0xE2, CHR 0x80, CHR 0xAF], [CHR 0xE2, CHR 0x81, CHR 0x9F],
      [CHR 0xE3, CHR 0x80, CHR 0x80]]"

text \<open>Dropping codes from the front, as long as one of them is there.\<close>

function strip :: "string list \<Rightarrow> string \<Rightarrow> string" where
  "strip codes s =
     (case filter (\<lambda>p. p \<noteq> [] \<and> HasPrefix s p) codes of
        [] \<Rightarrow> s
      | p # _ \<Rightarrow> strip codes (drop (length p) s))"
  by pat_completeness auto
termination
proof (relation "measure (length \<circ> snd)", simp)
  fix codes s p ps
  assume "filter (\<lambda>p. p \<noteq> [] \<and> HasPrefix s p) codes = p # ps"
  then have "p \<in> set (filter (\<lambda>p. p \<noteq> [] \<and> HasPrefix s p) codes)" by simp
  then have "p \<noteq> []" "take (length p) s = p" by (auto simp: HasPrefix_def)
  then have "s \<noteq> []" "length p > 0" by auto
  then show "((codes, drop (length p) s), codes, s) \<in> measure (length \<circ> snd)" by simp
qed

declare strip.simps [simp del]

definition TrimSpace :: "string \<Rightarrow> string" where
  "TrimSpace s = rev (strip (map rev space_codes) (rev (strip space_codes s)))"

text \<open>Stripping leaves a suffix that starts with none of the codes.\<close>

lemma strip_suffix: "\<exists>pre. s = pre @ strip codes s"
proof (induction codes s rule: strip.induct)
  case (1 codes s)
  show ?case
  proof (cases "filter (\<lambda>p. p \<noteq> [] \<and> HasPrefix s p) codes")
    case Nil
    then show ?thesis by (simp add: strip.simps)
  next
    case (Cons p ps)
    from 1 [OF Cons] obtain pre where "drop (length p) s = pre @ strip codes (drop (length p) s)" by blast
    then have "s = (take (length p) s @ pre) @ strip codes (drop (length p) s)"
      by (metis append_assoc append_take_drop_id)
    moreover have "strip codes s = strip codes (drop (length p) s)"
      using Cons by (simp add: strip.simps [of codes s])
    ultimately show ?thesis by metis
  qed
qed

lemma strip_none: "(\<forall>p\<in>set codes. p \<noteq> [] \<longrightarrow> \<not> HasPrefix s p) \<Longrightarrow> strip codes s = s"
  by (subst strip.simps) (auto split: list.splits dest: filter_eq_ConsD)

lemma strip_done: "\<forall>p\<in>set codes. p \<noteq> [] \<longrightarrow> \<not> HasPrefix (strip codes s) p"
proof (induction codes s rule: strip.induct)
  case (1 codes s)
  show ?case
  proof (cases "filter (\<lambda>p. p \<noteq> [] \<and> HasPrefix s p) codes")
    case Nil
    then show ?thesis by (auto simp: strip.simps filter_empty_conv)
  next
    case (Cons p ps)
    from 1 [OF Cons] Cons show ?thesis by (subst strip.simps) simp
  qed
qed

lemma strip_idem [simp]: "strip codes (strip codes s) = strip codes s"
  by (rule strip_none) (rule strip_done)

text \<open>A name that neither begins nor ends with a space is not trimmed.\<close>

definition trimmed :: "string \<Rightarrow> bool" where
  "trimmed s \<longleftrightarrow> (\<forall>p\<in>set space_codes. \<not> HasPrefix s p \<and> \<not> HasSuffix s p)"

lemma space_codes_nonempty: "p \<in> set space_codes \<Longrightarrow> p \<noteq> []"
  by (auto simp: space_codes_def)

lemma TrimSpace_trimmed: "trimmed s \<Longrightarrow> TrimSpace s = s"
  by (simp add: TrimSpace_def trimmed_def HasSuffix_def strip_none)

lemma HasPrefix_append: "HasPrefix s p \<Longrightarrow> HasPrefix (s @ t) p"
proof -
  assume a: "HasPrefix s p"
  then have "length p \<le> length s"
    unfolding HasPrefix_def by (metis length_take min.cobounded1)
  with a show ?thesis by (simp add: HasPrefix_def)
qed

lemma trimmed_TrimSpace: "trimmed (TrimSpace s)"
proof -
  let ?l = "strip space_codes s"
  let ?r = "strip (map rev space_codes) (rev ?l)"
  obtain pre where pre: "rev ?l = pre @ ?r" using strip_suffix by blast
  then have l: "?l = rev ?r @ rev pre" by (metis rev_append rev_rev_ident)
  have "\<not> HasPrefix (rev ?r) p" if "p \<in> set space_codes" for p
    using strip_done [of space_codes s] space_codes_nonempty [OF that] that HasPrefix_append [of "rev ?r" p "rev pre"]
    unfolding l [symmetric] by blast
  moreover have "\<not> HasPrefix ?r (rev p)" if "p \<in> set space_codes" for p
    using strip_done [of "map rev space_codes" "rev ?l"] space_codes_nonempty [OF that] that by auto
  ultimately show ?thesis by (auto simp: trimmed_def HasSuffix_def TrimSpace_def)
qed

text \<open>Bytes of printable ASCII other than the space are no part of a space code.\<close>

definition graphic :: "char \<Rightarrow> bool" where
  "graphic c \<longleftrightarrow> 0x20 < (of_char c :: nat) \<and> (of_char c :: nat) < 0x7F"

lemma space_codes_not_graphic: "\<forall>p\<in>set space_codes. \<exists>c\<in>set p. \<not> graphic c"
  by (simp add: space_codes_def graphic_def)

lemma HasPrefix_set: "HasPrefix s p \<Longrightarrow> set p \<subseteq> set s"
  by (metis HasPrefix_def set_take_subset)

lemma trimmed_graphic:
  assumes "\<forall>c\<in>set s. graphic c"
  shows "trimmed s"
  using assms space_codes_not_graphic HasPrefix_set [of s] HasPrefix_set [of "rev s"]
  unfolding trimmed_def HasSuffix_def by (metis set_rev subsetD)

end
