(* ===== verification/GoJson.thy ===== *)
theory GoJson
  imports GoStrings
begin

text \<open>
  The part of Go's encoding/json that \<open>json.Unmarshal\<close> uses: a scanner that turns the
  bytes into tokens, the grammar as a machine with an explicit stack (as in the scanner of
  the library, with its limit on nesting), and string literals with their escapes and the
  replacement of invalid UTF-8. A syntax error is the result \<open>None\<close>.
\<close>

section \<open>String literals\<close>

definition byte :: "nat \<Rightarrow> char" where
  "byte n = char_of n"

definition code :: "char \<Rightarrow> nat" where
  "code c = of_char c"

text \<open>The length of the UTF-8 sequence at the front, 0 where it is not valid.\<close>

definition cont :: "nat \<Rightarrow> nat \<Rightarrow> char \<Rightarrow> bool" where
  "cont lo hi c \<longleftrightarrow> lo \<le> code c \<and> code c \<le> hi"

fun utf8_len :: "string \<Rightarrow> nat" where
  "utf8_len [] = 0"
| "utf8_len (c # cs) =
     (let b = code c in
      if b < 0x80 then 1
      else if 0xC2 \<le> b \<and> b \<le> 0xDF then
        (case cs of c1 # _ \<Rightarrow> if cont 0x80 0xBF c1 then 2 else 0 | _ \<Rightarrow> 0)
      else if 0xE0 \<le> b \<and> b \<le> 0xEF then
        (case cs of c1 # c2 # _ \<Rightarrow>
           if cont (if b = 0xE0 then 0xA0 else 0x80) (if b = 0xED then 0x9F else 0xBF) c1 \<and>
              cont 0x80 0xBF c2 then 3 else 0
         | _ \<Rightarrow> 0)
      else if 0xF0 \<le> b \<and> b \<le> 0xF4 then
        (case cs of c1 # c2 # c3 # _ \<Rightarrow>
           if cont (if b = 0xF0 then 0x90 else 0x80) (if b = 0xF4 then 0x8F else 0xBF) c1 \<and>
              cont 0x80 0xBF c2 \<and> cont 0x80 0xBF c3 then 4 else 0
         | _ \<Rightarrow> 0)
      else 0)"

text \<open>Writing a rune; a surrogate is written as U+FFFD.\<close>

definition utf8_encode :: "nat \<Rightarrow> string" where
  "utf8_encode r =
     (if r < 0x80 then [byte r]
      else if r < 0x800 then [byte (0xC0 + r div 0x40), byte (0x80 + r mod 0x40)]
      else if 0xD800 \<le> r \<and> r \<le> 0xDFFF then [CHR 0xEF, CHR 0xBF, CHR 0xBD]
      else if r < 0x10000 then
        [byte (0xE0 + r div 0x1000), byte (0x80 + r div 0x40 mod 0x40), byte (0x80 + r mod 0x40)]
      else [byte (0xF0 + r div 0x40000), byte (0x80 + r div 0x1000 mod 0x40),
            byte (0x80 + r div 0x40 mod 0x40), byte (0x80 + r mod 0x40)])"

definition replacement :: string where
  "replacement = [CHR 0xEF, CHR 0xBF, CHR 0xBD]"

definition hex_digit :: "char \<Rightarrow> nat option" where
  "hex_digit c =
     (let b = code c in
      if 0x30 \<le> b \<and> b \<le> 0x39 then Some (b - 0x30)
      else if 0x61 \<le> b \<and> b \<le> 0x66 then Some (b - 0x61 + 10)
      else if 0x41 \<le> b \<and> b \<le> 0x46 then Some (b - 0x41 + 10)
      else None)"

definition hex4 :: "char \<Rightarrow> char \<Rightarrow> char \<Rightarrow> char \<Rightarrow> nat option" where
  "hex4 a b c d =
     (case (hex_digit a, hex_digit b, hex_digit c, hex_digit d) of
        (Some w, Some x, Some y, Some z) \<Rightarrow> Some (((w * 16 + x) * 16 + y) * 16 + z)
      | _ \<Rightarrow> None)"

definition simple_escape :: "char \<Rightarrow> char option" where
  "simple_escape c =
     (if c = CHR 0x22 \<or> c = CHR 0x5C \<or> c = CHR 0x2F then Some c
      else if c = CHR ''b'' then Some (CHR 0x08)
      else if c = CHR ''f'' then Some (CHR 0x0C)
      else if c = CHR ''n'' then Some (CHR 0x0A)
      else if c = CHR ''r'' then Some (CHR 0x0D)
      else if c = CHR ''t'' then Some (CHR 0x09)
      else None)"

text \<open>
  After \<open>\u\<close> and four digits: a high surrogate that a \<open>\u\<close> escape of a low one follows
  is read together with it, any other surrogate stands for U+FFFD.
\<close>

definition surrogate_pair :: "nat \<Rightarrow> string \<Rightarrow> nat option" where
  "surrogate_pair r s =
     (case s of
        bs # u # a # b # c # d # _ \<Rightarrow>
          (if bs = CHR 0x5C \<and> u = CHR ''u'' \<and> 0xD800 \<le> r \<and> r < 0xDC00 then
             (case hex4 a b c d of
                Some r2 \<Rightarrow>
                  if 0xDC00 \<le> r2 \<and> r2 < 0xE000
                  then Some ((r - 0xD800) * 0x400 + (r2 - 0xDC00) + 0x10000) else None
              | None \<Rightarrow> None)
           else None)
      | _ \<Rightarrow> None)"

definition prepend :: "string \<Rightarrow> (string \<times> string) option \<Rightarrow> (string \<times> string) option" where
  "prepend p r = (case r of None \<Rightarrow> None | Some (t, rest) \<Rightarrow> Some (p @ t, rest))"

text \<open>Reading from behind the opening quote: the decoded text and the bytes behind the closing quote.\<close>

fun read_str :: "string \<Rightarrow> (string \<times> string) option" where
  "read_str [] = None"
| "read_str (c # cs) =
     (if c = CHR 0x22 then Some ([], cs)
      else if c = CHR 0x5C then
        (case cs of
           [] \<Rightarrow> None
         | e # cs1 \<Rightarrow>
             if e = CHR ''u'' then
               (case cs1 of
                  h1 # h2 # h3 # h4 # cs2 \<Rightarrow>
                    (case hex4 h1 h2 h3 h4 of
                       None \<Rightarrow> None
                     | Some r \<Rightarrow>
                         (case surrogate_pair r cs2 of
                            Some r' \<Rightarrow> prepend (utf8_encode r') (read_str (drop 6 cs2))
                          | None \<Rightarrow> prepend (utf8_encode r) (read_str cs2)))
                | _ \<Rightarrow> None)
             else
               (case simple_escape e of
                  None \<Rightarrow> None
                | Some x \<Rightarrow> prepend [x] (read_str cs1)))
      else if code c < 0x20 then None
      else if code c < 0x80 then prepend [c] (read_str cs)
      else
        (let n = utf8_len (c # cs) in
         if n = 0 then prepend replacement (read_str cs)
         else prepend (take n (c # cs)) (read_str (drop (n - 1) cs))))"

declare read_str.simps [simp del] utf8_len.simps [simp del]

lemma prepend_Some: "prepend p r = Some (t, rest) \<Longrightarrow> \<exists>t'. r = Some (t', rest)"
  by (auto simp: prepend_def split: option.splits)

definition read_more :: "string \<Rightarrow> string \<Rightarrow> bool" where
  "read_more rest cs \<longleftrightarrow> (\<exists>s' t'. read_str s' = Some (t', rest) \<and> length s' \<le> length cs)"

lemma read_more_prepend: "prepend p (read_str s') = Some (t, rest) \<Longrightarrow> length s' \<le> length cs \<Longrightarrow> read_more rest cs"
  using prepend_Some unfolding read_more_def by blast

lemma read_str_continues:
  assumes "read_str (c # cs) = Some (t, rest)"
  shows "rest = cs \<or> read_more rest cs"
  using assms unfolding read_str.simps(2)
  by (auto simp: Let_def split: if_splits list.splits option.splits)
    (erule notE, erule read_more_prepend, simp)+

lemma read_str_shorter: "read_str s = Some (t, rest) \<Longrightarrow> length rest < length s"
proof (induction "length s" arbitrary: s t rest rule: less_induct)
  case less
  show ?case
  proof (cases s)
    case Nil
    then show ?thesis using less.prems by (simp add: read_str.simps)
  next
    case (Cons c cs)
    with less.prems read_str_continues consider "rest = cs" | "read_more rest cs" by blast
    then show ?thesis
    proof cases
      case 1
      then show ?thesis using Cons by simp
    next
      case 2
      then obtain s' t' where "read_str s' = Some (t', rest)" "length s' < length s"
        using Cons by (auto simp: read_more_def less_Suc_eq_le)
      with less.hyps [of s'] show ?thesis by fastforce
    qed
  qed
qed

section \<open>Tokens\<close>

datatype token =
    TBeginArray | TEndArray | TBeginObject | TEndObject | TColon | TComma
  | TTrue | TFalse | TNull | TStr string | TNum string

definition is_digit :: "char \<Rightarrow> bool" where
  "is_digit c \<longleftrightarrow> 0x30 \<le> code c \<and> code c \<le> 0x39"

definition is_json_space :: "char \<Rightarrow> bool" where
  "is_json_space c \<longleftrightarrow> c = CHR 0x20 \<or> c = CHR 0x09 \<or> c = CHR 0x0D \<or> c = CHR 0x0A"

text \<open>The parts of a number: an optional sign, the integer part without superfluous zeros, a fraction, an exponent.\<close>

definition num_sign :: "string \<Rightarrow> string \<times> string" where
  "num_sign s = (case s of c # cs \<Rightarrow> if c = CHR ''-'' then ([c], cs) else ([], s) | [] \<Rightarrow> ([], s))"

definition num_int :: "string \<Rightarrow> (string \<times> string) option" where
  "num_int s =
     (case s of
        [] \<Rightarrow> None
      | c # cs \<Rightarrow>
          if c = CHR ''0'' then Some ([c], cs)
          else if is_digit c then Some (takeWhile is_digit s, dropWhile is_digit s)
          else None)"

definition num_frac :: "string \<Rightarrow> (string \<times> string) option" where
  "num_frac s =
     (case s of
        c # cs \<Rightarrow>
          if c = CHR ''.'' then
            (if takeWhile is_digit cs = [] then None
             else Some (c # takeWhile is_digit cs, dropWhile is_digit cs))
          else Some ([], s)
      | [] \<Rightarrow> Some ([], s))"

definition num_exp :: "string \<Rightarrow> (string \<times> string) option" where
  "num_exp s =
     (case s of
        c # cs \<Rightarrow>
          if c = CHR ''e'' \<or> c = CHR ''E'' then
            (let (sg, ds) = (case cs of
                 d # ds \<Rightarrow> if d = CHR ''+'' \<or> d = CHR ''-'' then ([d], ds) else ([], cs)
               | [] \<Rightarrow> ([], cs)) in
             if takeWhile is_digit ds = [] then None
             else Some (c # sg @ takeWhile is_digit ds, dropWhile is_digit ds))
          else Some ([], s)
      | [] \<Rightarrow> Some ([], s))"

definition read_num :: "string \<Rightarrow> (string \<times> string) option" where
  "read_num s =
     (let (sg, s1) = num_sign s in
      case num_int s1 of
        None \<Rightarrow> None
      | Some (i, s2) \<Rightarrow>
          (case num_frac s2 of
             None \<Rightarrow> None
           | Some (f, s3) \<Rightarrow>
               (case num_exp s3 of None \<Rightarrow> None | Some (e, s4) \<Rightarrow> Some (sg @ i @ f @ e, s4))))"

lemma num_sign_shorter: "num_sign s = (t, r) \<Longrightarrow> length r \<le> length s"
  by (auto simp: num_sign_def split: list.splits if_splits)

lemma num_int_shorter: "num_int s = Some (t, r) \<Longrightarrow> length r < length s"
  using length_dropWhile_le [of is_digit]
  by (auto simp: num_int_def less_Suc_eq_le split: list.splits if_splits)

lemma num_frac_shorter: "num_frac s = Some (t, r) \<Longrightarrow> length r \<le> length s"
  using length_dropWhile_le [of is_digit]
  by (auto simp: num_frac_def le_SucI split: list.splits if_splits)

lemma num_exp_shorter: "num_exp s = Some (t, r) \<Longrightarrow> length r \<le> length s"
  using length_dropWhile_le [of is_digit]
  by (auto simp: num_exp_def le_SucI Let_def split: list.splits if_splits prod.splits)

lemma read_num_shorter: "read_num s = Some (t, r) \<Longrightarrow> length r < length s"
  by (auto simp: read_num_def split: prod.splits option.splits
      dest!: num_sign_shorter num_int_shorter num_frac_shorter num_exp_shorter)

definition punct :: "char \<Rightarrow> token option" where
  "punct c =
     (if c = CHR ''['' then Some TBeginArray else if c = CHR '']'' then Some TEndArray
      else if c = CHR ''{'' then Some TBeginObject else if c = CHR ''}'' then Some TEndObject
      else if c = CHR '':'' then Some TColon else if c = CHR '','' then Some TComma
      else None)"

definition word_token :: "string \<Rightarrow> (token \<times> nat) option" where
  "word_token s =
     (if HasPrefix s ''true'' then Some (TTrue, 4)
      else if HasPrefix s ''false'' then Some (TFalse, 5)
      else if HasPrefix s ''null'' then Some (TNull, 4)
      else None)"

function tokens :: "string \<Rightarrow> token list option" where
  "tokens [] = Some []"
| "tokens (c # cs) =
     (if is_json_space c then tokens cs
      else if c = CHR 0x22 then
        (case read_str cs of None \<Rightarrow> None | Some (t, rest) \<Rightarrow> map_option (Cons (TStr t)) (tokens rest))
      else
        (case punct c of
           Some tok \<Rightarrow> map_option (Cons tok) (tokens cs)
         | None \<Rightarrow>
             (case word_token (c # cs) of
                Some (tok, n) \<Rightarrow> map_option (Cons tok) (tokens (drop (n - 1) cs))
              | None \<Rightarrow>
                  (case read_num (c # cs) of
                     None \<Rightarrow> None
                   | Some (lit, rest) \<Rightarrow> map_option (Cons (TNum lit)) (tokens rest)))))"
  by pat_completeness auto
termination
  by (relation "measure length") (auto simp: less_Suc_eq_le dest: read_str_shorter read_num_shorter)

declare tokens.simps(2) [simp del]

section \<open>The grammar\<close>

datatype json =
    JNull | JBool bool | JNum string | JStr string
  | JArr "json list" | JObj "(string \<times> json) list"

text \<open>The open containers, innermost first: what is read of them, in reverse.\<close>

datatype frame = InArray "json list" | InObject "(string \<times> json) list" string

text \<open>
  What may come next: a value (or the end of an array just opened), a key (or the end of
  an object just opened), the colon behind a key, or what follows a value.
\<close>

datatype pstate =
    Want bool "frame list"
  | WantKey bool "(string \<times> json) list" "frame list"
  | WantColon string "(string \<times> json) list" "frame list"
  | Have json "frame list"

definition maxNestingDepth :: nat where
  "maxNestingDepth = 10000"

fun pstep :: "token \<Rightarrow> pstate \<Rightarrow> pstate option" where
  "pstep tok (Want fresh fs) =
     (case tok of
        TBeginArray \<Rightarrow> if length fs < maxNestingDepth then Some (Want True (InArray [] # fs)) else None
      | TBeginObject \<Rightarrow> if length fs < maxNestingDepth then Some (WantKey True [] fs) else None
      | TEndArray \<Rightarrow> (case (fresh, fs) of (True, InArray [] # fs') \<Rightarrow> Some (Have (JArr []) fs') | _ \<Rightarrow> None)
      | TTrue \<Rightarrow> Some (Have (JBool True) fs)
      | TFalse \<Rightarrow> Some (Have (JBool False) fs)
      | TNull \<Rightarrow> Some (Have JNull fs)
      | TStr t \<Rightarrow> Some (Have (JStr t) fs)
      | TNum n \<Rightarrow> Some (Have (JNum n) fs)
      | _ \<Rightarrow> None)"
| "pstep tok (WantKey fresh ms fs) =
     (case tok of
        TStr k \<Rightarrow> Some (WantColon k ms fs)
      | TEndObject \<Rightarrow> if fresh then Some (Have (JObj []) fs) else None
      | _ \<Rightarrow> None)"
| "pstep tok (WantColon k ms fs) =
     (case tok of TColon \<Rightarrow> Some (Want False (InObject ms k # fs)) | _ \<Rightarrow> None)"
| "pstep tok (Have v fs) =
     (case fs of
        InArray vs # fs' \<Rightarrow>
          (case tok of
             TComma \<Rightarrow> Some (Want False (InArray (v # vs) # fs'))
           | TEndArray \<Rightarrow> Some (Have (JArr (rev (v # vs))) fs')
           | _ \<Rightarrow> None)
      | InObject ms k # fs' \<Rightarrow>
          (case tok of
             TComma \<Rightarrow> Some (WantKey False ((k, v) # ms) fs')
           | TEndObject \<Rightarrow> Some (Have (JObj (rev ((k, v) # ms))) fs')
           | _ \<Rightarrow> None)
      | [] \<Rightarrow> None)"

fun psteps :: "token list \<Rightarrow> pstate \<Rightarrow> pstate option" where
  "psteps [] p = Some p"
| "psteps (t # ts) p = (case pstep t p of None \<Rightarrow> None | Some p' \<Rightarrow> psteps ts p')"

definition parse_json :: "string \<Rightarrow> json option" where
  "parse_json s =
     (case tokens s of
        None \<Rightarrow> None
      | Some ts \<Rightarrow> (case psteps ts (Want False []) of Some (Have v []) \<Rightarrow> Some v | _ \<Rightarrow> None))"

lemma psteps_append: "psteps (ts @ us) p = (case psteps ts p of None \<Rightarrow> None | Some q \<Rightarrow> psteps us q)"
  by (induction ts arbitrary: p) (auto split: option.splits)

section \<open>Decoding into Go values\<close>

text \<open>
  \<open>json.Unmarshal\<close> checks the whole text first and reports a type that does not fit
  after decoding the rest; the callers look at the value only when there is no error, so
  decoding is a partial function. A JSON null leaves a value of a basic type as it is.
\<close>

fun collect :: "'a option list \<Rightarrow> 'a list option" where
  "collect [] = Some []"
| "collect (None # xs) = None"
| "collect (Some x # xs) = map_option (Cons x) (collect xs)"

definition decode_string :: "json \<Rightarrow> string \<Rightarrow> string option" where
  "decode_string j old = (case j of JStr t \<Rightarrow> Some t | JNull \<Rightarrow> Some old | _ \<Rightarrow> None)"

definition digits_value :: "string \<Rightarrow> nat" where
  "digits_value ds = foldl (\<lambda>n c. n * 10 + (code c - 0x30)) 0 ds"

text \<open>\<open>strconv.ParseInt\<close> on a number literal and the check that it fits an int32.\<close>

definition parse_int32 :: "string \<Rightarrow> int32 option" where
  "parse_int32 s =
     (let (sg, ds) = num_sign s;
          n = (if sg = [] then int (digits_value ds) else - int (digits_value ds)) in
      if ds \<noteq> [] \<and> list_all is_digit ds \<and> - (2 ^ 31) \<le> n \<and> n < 2 ^ 31 then Some (to_int32 n) else None)"

definition decode_int32 :: "json \<Rightarrow> int32 \<Rightarrow> int32 option" where
  "decode_int32 j old = (case j of JNum n \<Rightarrow> parse_int32 n | JNull \<Rightarrow> Some old | _ \<Rightarrow> None)"

text \<open>A slice: null is the nil slice; every element starts from its zero value.\<close>

definition decode_slice :: "(json \<Rightarrow> 'a option) \<Rightarrow> json \<Rightarrow> 'a list option" where
  "decode_slice dec j = (case j of JArr js \<Rightarrow> collect (map dec js) | JNull \<Rightarrow> Some [] | _ \<Rightarrow> None)"

text \<open>
  A struct: the members in order, each stored in the field whose name equals the key
  without regard to case, members of other names skipped. (The two letters outside ASCII
  that fold into it, the Kelvin sign and the long s, fold to letters that no field name
  the code uses has.)
\<close>

definition ascii_lower :: "char \<Rightarrow> char" where
  "ascii_lower c = (if 0x41 \<le> code c \<and> code c \<le> 0x5A then byte (code c + 0x20) else c)"

definition same_field :: "string \<Rightarrow> string \<Rightarrow> bool" where
  "same_field key name \<longleftrightarrow> map ascii_lower key = map ascii_lower name"

fun decode_members :: "(string \<Rightarrow> json \<Rightarrow> 'a \<Rightarrow> 'a option) \<Rightarrow> (string \<times> json) list \<Rightarrow> 'a \<Rightarrow> 'a option" where
  "decode_members set_field [] v = Some v"
| "decode_members set_field ((k, j) # ms) v =
     (case set_field k j v of None \<Rightarrow> None | Some v' \<Rightarrow> decode_members set_field ms v')"

definition decode_struct :: "(string \<Rightarrow> json \<Rightarrow> 'a \<Rightarrow> 'a option) \<Rightarrow> 'a \<Rightarrow> json \<Rightarrow> 'a option" where
  "decode_struct set_field zero j =
     (case j of JObj ms \<Rightarrow> decode_members set_field ms zero | JNull \<Rightarrow> Some zero | _ \<Rightarrow> None)"

definition unmarshal_strings :: "string \<Rightarrow> string list option" where
  "unmarshal_strings s =
     (case parse_json s of None \<Rightarrow> None | Some j \<Rightarrow> decode_slice (\<lambda>j. decode_string j '''') j)"

lemma collect_Some: "collect (map (\<lambda>x. Some (f x)) xs) = Some (map f xs)"
  by (induction xs) auto

section \<open>Reading back what is written plainly\<close>

text \<open>
  Bytes that stand for themselves in a JSON string; a text of them in quotes reads back as
  itself, and so does an array of such texts.
\<close>

definition plain :: "char \<Rightarrow> bool" where
  "plain c \<longleftrightarrow> 0x20 \<le> code c \<and> code c < 0x80 \<and> c \<noteq> CHR 0x22 \<and> c \<noteq> CHR 0x5C"

lemma read_str_plain: "\<forall>c\<in>set t. plain c \<Longrightarrow> read_str (t @ CHR 0x22 # rest) = Some (t, rest)"
  by (induction t) (auto simp: read_str.simps plain_def prepend_def)

definition quote :: "string \<Rightarrow> string" where
  "quote t = CHR 0x22 # t @ [CHR 0x22]"

definition json_array :: "string list \<Rightarrow> string" where
  "json_array ts = CHR ''['' # join (CHR '','') (map quote ts) @ [CHR '']'']"

lemma tokens_quote:
  assumes "\<forall>c\<in>set t. plain c"
  shows "tokens (CHR 0x22 # t @ CHR 0x22 # rest) = map_option (Cons (TStr t)) (tokens rest)"
  using read_str_plain [OF assms, of rest] by (simp add: tokens.simps(2) is_json_space_def)

lemma tokens_punct: "punct c = Some tok \<Longrightarrow> tokens (c # cs) = map_option (Cons tok) (tokens cs)"
  by (auto simp: tokens.simps(2) is_json_space_def punct_def split: if_splits)

lemmas tokens_mark =
  tokens_punct [of "CHR ''[''" TBeginArray] tokens_punct [of "CHR '']''" TEndArray]
  tokens_punct [of "CHR ''{''" TBeginObject] tokens_punct [of "CHR ''}''" TEndObject]
  tokens_punct [of "CHR '':''" TColon] tokens_punct [of "CHR '',''" TComma]

fun array_tokens :: "string list \<Rightarrow> token list" where
  "array_tokens [] = []"
| "array_tokens [t] = [TStr t]"
| "array_tokens (t # ts) = TStr t # TComma # array_tokens ts"

lemma tokens_array_body:
  assumes "\<forall>t\<in>set ts. \<forall>c\<in>set t. plain c"
  shows "tokens (join (CHR '','') (map quote ts) @ CHR '']'' # rest) =
    map_option (\<lambda>r. array_tokens ts @ TEndArray # r) (tokens rest)"
  using assms
proof (induction ts rule: array_tokens.induct)
  case 1
  then show ?case by (simp add: tokens_mark punct_def comp_def)
next
  case (2 t)
  then show ?case
    by (simp add: quote_def tokens_quote tokens_mark punct_def option.map_comp comp_def)
next
  case (3 t u us)
  then show ?case
    by (simp add: quote_def [of t] tokens_quote tokens_mark punct_def option.map_comp comp_def)
qed

lemma psteps_array_body:
  "ts \<noteq> [] \<Longrightarrow> psteps (array_tokens ts @ [TEndArray]) (Want b (InArray vs # fs)) =
     Some (Have (JArr (rev vs @ map JStr ts)) fs)"
  by (induction ts arbitrary: b vs rule: array_tokens.induct) auto

lemma parse_json_array:
  assumes "\<forall>t\<in>set ts. \<forall>c\<in>set t. plain c"
  shows "parse_json (json_array ts) = Some (JArr (map JStr ts))"
proof -
  have "tokens (json_array ts) = Some (TBeginArray # array_tokens ts @ [TEndArray])"
    using tokens_array_body [OF assms, of "[]"] by (simp add: json_array_def tokens_mark punct_def)
  moreover have "psteps (array_tokens ts @ [TEndArray]) (Want True [InArray []]) = Some (Have (JArr (map JStr ts)) [])"
    using psteps_array_body [of ts True "[]" "[]"] by (cases ts) auto
  ultimately show ?thesis by (simp add: parse_json_def maxNestingDepth_def)
qed

lemma unmarshal_strings_array:
  assumes "\<forall>t\<in>set ts. \<forall>c\<in>set t. plain c"
  shows "unmarshal_strings (json_array ts) = Some ts"
  using collect_Some [of "\<lambda>t. t" ts]
  by (simp add: unmarshal_strings_def parse_json_array [OF assms] decode_slice_def decode_string_def comp_def)

end
