(* ===== verification/PodParse.thy ===== *)
theory PodParse
  imports GoJson MemClient
begin

text \<open>
  internal/controller/pod\_controller.go, the functions that read a pod: whether it is to be
  managed, which pools it names, and which ports it wants; and what they return.
\<close>

section \<open>The operations\<close>

text \<open>\<open>pod.Annotations[k]\<close> with its second result: a nil map has no keys.\<close>

definition annotation :: "Pod \<Rightarrow> string \<Rightarrow> string option" where
  "annotation pod k =
     (case om_Annotations (po_ObjectMeta pod) of None \<Rightarrow> None | Some m \<Rightarrow> map_of m k)"

definition shouldManagePod :: "Pod \<Rightarrow> bool" where
  "shouldManagePod pod =
     (if om_Annotations (po_ObjectMeta pod) = None then False
      else
        case annotation pod PodAnnotationEnableAllocKey of
          None \<Rightarrow> False
        | Some enableAlloc \<Rightarrow>
            if enableAlloc \<noteq> ''true'' then False
            else annotation pod PodAnnotationNetworkPoolKey \<noteq> None)"

text \<open>One round of the loop that trims, drops empty names and keeps the first of equal ones.\<close>

definition clean_step ::
  "string \<Rightarrow> (string, unit) gomap \<times> string list \<Rightarrow> (string, unit) gomap \<times> string list" where
  "clean_step raw = (\<lambda>(poolsSet, validPools).
     let pool = TrimSpace raw in
     if pool \<noteq> '''' then
       (case map_of poolsSet pool of
          None \<Rightarrow> (gm_put pool () poolsSet, validPools @ [pool])
        | Some _ \<Rightarrow> (poolsSet, validPools))
     else (poolsSet, validPools))"

definition parseNetworkPools :: "Pod \<Rightarrow> 'e error + string list" where
  "parseNetworkPools pod =
     (case annotation pod PodAnnotationNetworkPoolKey of
        None \<Rightarrow> Inl PoolAnnotationMissing
      | Some poolsAnnotation \<Rightarrow>
          if poolsAnnotation = '''' then Inl PoolAnnotationMissing
          else
            case (if HasPrefix poolsAnnotation ''['' \<and> HasSuffix poolsAnnotation '']''
                  then unmarshal_strings poolsAnnotation
                  else Some (Split poolsAnnotation (CHR '',''))) of
              None \<Rightarrow> Inl FailedToParsePoolsJSON
            | Some rawPools \<Rightarrow>
                let validPools = snd (fold clean_step rawPools ([], [])) in
                if length validPools = 0 then Inl NoValidPools else Inr validPools)"

definition set_port_field :: "string \<Rightarrow> json \<Rightarrow> PodPortAllocation \<Rightarrow> PodPortAllocation option" where
  "set_port_field k j p =
     (if same_field k ''podPort'' then map_option (\<lambda>n. p\<lparr>pp_PodPort := n\<rparr>) (decode_int32 j (pp_PodPort p))
      else if same_field k ''lbPort'' then map_option (\<lambda>n. p\<lparr>pp_LBPort := n\<rparr>) (decode_int32 j (pp_LBPort p))
      else if same_field k ''protocol'' then map_option (\<lambda>t. p\<lparr>pp_Protocol := t\<rparr>) (decode_string j (pp_Protocol p))
      else if same_field k ''portName'' then map_option (\<lambda>t. p\<lparr>pp_PortName := t\<rparr>) (decode_string j (pp_PortName p))
      else Some p)"

definition zero_port :: PodPortAllocation where
  "zero_port = \<lparr>pp_PodPort = 0, pp_LBPort = 0, pp_Protocol = '''', pp_PortName = ''''\<rparr>"

definition unmarshal_ports :: "string \<Rightarrow> PodPortAllocation list option" where
  "unmarshal_ports s =
     (case parse_json s of
        None \<Rightarrow> None
      | Some j \<Rightarrow> decode_slice (decode_struct set_port_field zero_port) j)"

definition spec_port :: "ContainerPort \<Rightarrow> PodPortAllocation" where
  "spec_port port =
     \<lparr>pp_PodPort = cp_ContainerPort port, pp_LBPort = 0, pp_Protocol = cp_Protocol port,
      pp_PortName = cp_Name port\<rparr>"

definition spec_ports :: "Pod \<Rightarrow> PodPortAllocation list" where
  "spec_ports pod =
     fold (\<lambda>container containerPorts.
         fold (\<lambda>port containerPorts. containerPorts @ [spec_port port]) (ct_Ports container) containerPorts)
       (psp_Containers (po_Spec pod)) []"

definition parseContainerPorts :: "Pod \<Rightarrow> 'e error + PodPortAllocation list" where
  "parseContainerPorts pod =
     (case annotation pod PodAnnotationContainerPortsKey of
        Some containerPortsJSON \<Rightarrow>
          if containerPortsJSON \<noteq> '''' then
            (case unmarshal_ports containerPortsJSON of
               None \<Rightarrow> Inl FailedToUnmarshalPorts
             | Some containerPorts \<Rightarrow> Inr containerPorts)
          else Inr (spec_ports pod)
      | None \<Rightarrow> Inr (spec_ports pod))"

section \<open>The names of the pools\<close>

text \<open>Keeping the first of equal elements.\<close>

definition remdups_first :: "'a list \<Rightarrow> 'a list" where
  "remdups_first xs = rev (remdups (rev xs))"

lemma remdups_first_set [simp]: "set (remdups_first xs) = set xs"
  and remdups_first_distinct [simp]: "distinct (remdups_first xs)"
  by (simp_all add: remdups_first_def)

lemma remdups_first_snoc:
  "remdups_first (xs @ [x]) = (if x \<in> set xs then remdups_first xs else remdups_first xs @ [x])"
  by (simp add: remdups_first_def)

lemma remdups_first_id: "distinct xs \<Longrightarrow> remdups_first xs = xs"
  by (simp add: remdups_first_def distinct_remdups_id)

definition clean :: "string list \<Rightarrow> string list" where
  "clean raw = remdups_first (filter (\<lambda>p. p \<noteq> '''') (map TrimSpace raw))"

lemma clean_snoc:
  "clean (raw @ [r]) =
     (if TrimSpace r = '''' \<or> TrimSpace r \<in> set (clean raw) then clean raw else clean raw @ [TrimSpace r])"
  by (auto simp: clean_def remdups_first_snoc)

lemma clean_step_eq:
  "clean_step r (m, vs) =
     (if TrimSpace r = '''' \<or> map_of m (TrimSpace r) \<noteq> None then (m, vs)
      else (gm_put (TrimSpace r) () m, vs @ [TrimSpace r]))"
  by (auto simp: clean_step_def Let_def split: option.splits)

lemma clean_fold:
  "snd (fold clean_step raw ([], [])) = clean raw \<and>
   (\<forall>p. map_of (fst (fold clean_step raw ([], []))) p \<noteq> None \<longleftrightarrow> p \<in> set (clean raw))"
proof (induction raw rule: rev_induct)
  case Nil
  then show ?case by (simp add: clean_def remdups_first_def)
next
  case (snoc r raw)
  obtain m vs where f: "fold clean_step raw ([], []) = (m, vs)" by (cases "fold clean_step raw ([], [])")
  with snoc have vs: "vs = clean raw" and m: "\<And>p. map_of m p = Some () \<longleftrightarrow> p \<in> set (clean raw)" by simp_all
  show ?case
    by (simp add: f vs clean_step_eq clean_snoc m go_simps)
qed

lemma parseNetworkPools_raw:
  assumes "annotation pod PodAnnotationNetworkPoolKey = Some t" and "t \<noteq> ''''"
  shows "parseNetworkPools pod =
    (case (if HasPrefix t ''['' \<and> HasSuffix t '']'' then unmarshal_strings t else Some (Split t (CHR '',''))) of
       None \<Rightarrow> Inl FailedToParsePoolsJSON
     | Some raw \<Rightarrow> if clean raw = [] then Inl NoValidPools else Inr (clean raw))"
  using assms clean_fold by (simp add: parseNetworkPools_def Let_def split: option.splits)

lemma parseNetworkPools_nonempty: "parseNetworkPools pod = Inr ps \<Longrightarrow> ps \<noteq> []"
  by (auto simp: parseNetworkPools_def Let_def split: option.splits if_splits)

lemma parseContainerPorts_error: "parseContainerPorts pod = Inl e \<Longrightarrow> e = FailedToUnmarshalPorts"
  by (auto simp: parseContainerPorts_def split: option.splits if_splits)

lemma spec_ports_concat: "spec_ports pod = map spec_port (concat (map ct_Ports (psp_Containers (po_Spec pod))))"
proof -
  have inner: "fold (\<lambda>port acc. acc @ [spec_port port]) ps acc = acc @ map spec_port ps"
    for ps :: "ContainerPort list" and acc
    by (induction ps arbitrary: acc) auto
  have "fold (\<lambda>c acc. fold (\<lambda>port acc. acc @ [spec_port port]) (ct_Ports c) acc) cs acc =
      acc @ map spec_port (concat (map ct_Ports cs))" for cs :: "Container list" and acc
    by (induction cs arbitrary: acc) (auto simp: inner)
  then show ?thesis by (simp add: spec_ports_def)
qed

section \<open>Writing ports as JSON\<close>

text \<open>
  The text that \<open>json.Marshal\<close> makes of a list of PodPortAllocation, for names that need no
  escapes: what a user is meant to put in the annotation.
\<close>

function show_nat :: "nat \<Rightarrow> string" where
  "show_nat n = (if n < 10 then [byte (0x30 + n)] else show_nat (n div 10) @ [byte (0x30 + n mod 10)])"
  by pat_completeness auto
termination by (relation "measure id") auto

declare show_nat.simps [simp del]

definition show_int :: "int \<Rightarrow> string" where
  "show_int n = (if n < 0 then CHR ''-'' # show_nat (nat (- n)) else show_nat (nat n))"

definition member :: "string \<Rightarrow> string \<Rightarrow> string" where
  "member k v = quote k @ CHR '':'' # v"

definition port_json :: "PodPortAllocation \<Rightarrow> string" where
  "port_json p =
     CHR ''{'' # join (CHR '','')
       ([member ''podPort'' (show_int (sint (pp_PodPort p))), member ''lbPort'' (show_int (sint (pp_LBPort p))),
         member ''protocol'' (quote (pp_Protocol p))] @
        (if pp_PortName p = '''' then [] else [member ''portName'' (quote (pp_PortName p))])) @ [CHR ''}'']"

definition ports_json :: "PodPortAllocation list \<Rightarrow> string" where
  "ports_json ps = CHR ''['' # join (CHR '','') (map port_json ps) @ [CHR '']'']"

lemma code_digit [simp]: "n < 10 \<Longrightarrow> code (byte (0x30 + n)) = 0x30 + n"
  by (simp add: code_def byte_def)

lemma is_digit_byte: "n < 10 \<Longrightarrow> is_digit (byte (0x30 + n))"
  by (simp add: is_digit_def)

lemma show_nat_digits: "list_all is_digit (show_nat n) \<and> show_nat n \<noteq> []"
  by (induction n rule: show_nat.induct) (subst (1 2) show_nat.simps, auto simp: is_digit_byte)

lemma show_nat_value: "digits_value (show_nat n) = n"
proof (induction n rule: show_nat.induct)
  case (1 n)
  show ?case
  proof (cases "n < 10")
    case True
    then show ?thesis by (subst show_nat.simps) (simp add: digits_value_def)
  next
    case False
    have "digits_value (show_nat n) = digits_value (show_nat (n div 10)) * 10 + n mod 10"
      using False by (subst show_nat.simps) (simp add: digits_value_def)
    with 1 [OF False] show ?thesis by simp
  qed
qed

lemma show_nat_hd: "n \<noteq> 0 \<Longrightarrow> hd (show_nat n) \<noteq> CHR ''0''"
proof (induction n rule: show_nat.induct)
  case (1 n)
  have "byte (0x30 + n) \<noteq> CHR ''0''" if "n < 10"
    using code_digit [OF that] 1(2) by (auto simp: code_def)
  with 1 show_nat_digits [of "n div 10"] show ?case
    by (subst show_nat.simps) (auto simp: div_eq_0_iff)
qed

lemma digit_run:
  assumes "list_all is_digit ds" and "\<not> is_digit c"
  shows "takeWhile is_digit (ds @ c # rest) = ds" and "dropWhile is_digit (ds @ c # rest) = c # rest"
  using assms by (induction ds) auto

definition ends_number :: "char \<Rightarrow> bool" where
  "ends_number c \<longleftrightarrow> \<not> is_digit c \<and> c \<noteq> CHR ''.'' \<and> c \<noteq> CHR ''e'' \<and> c \<noteq> CHR ''E''"

lemma code_inject: "code a = code b \<longleftrightarrow> a = b"
  by (simp add: code_def)

lemma num_int_show:
  assumes "\<not> is_digit c"
  shows "num_int (show_nat n @ c # rest) = Some (show_nat n, c # rest)"
proof (cases "n = 0")
  case True
  have "code (byte 0x30) = code (CHR ''0'')" by (simp add: code_def byte_def)
  then have "byte 0x30 = CHR ''0''" by (simp only: code_inject)
  then have "show_nat 0 = [CHR ''0'']" by (simp add: show_nat.simps)
  with True show ?thesis by (simp add: num_int_def)
next
  case False
  obtain d ds where d: "show_nat n = d # ds" using show_nat_digits [of n] by (cases "show_nat n") auto
  have "d \<noteq> CHR ''0''" using show_nat_hd [OF False] d by simp
  moreover have "is_digit d" "list_all is_digit ds" using show_nat_digits [of n] d by simp_all
  ultimately show ?thesis using d digit_run [of ds, OF _ assms, of rest] by (simp add: num_int_def)
qed

lemma num_sign_show: "num_sign (show_nat n @ s) = ([], show_nat n @ s)"
proof -
  obtain d ds where "show_nat n = d # ds" using show_nat_digits [of n] by (cases "show_nat n") auto
  with show_nat_digits [of n] show ?thesis by (auto simp: num_sign_def is_digit_def code_def)
qed

lemma read_num_show:
  assumes "ends_number c"
  shows "read_num (show_int n @ c # rest) = Some (show_int n, c # rest)"
proof -
  have c: "\<not> is_digit c" using assms by (simp add: ends_number_def)
  have tail: "num_frac (c # rest) = Some ([], c # rest)" "num_exp (c # rest) = Some ([], c # rest)"
    using assms by (simp_all add: num_frac_def num_exp_def ends_number_def)
  have neg: "num_sign (CHR ''-'' # s) = (''-'', s)" for s by (simp add: num_sign_def)
  show ?thesis
    by (simp add: read_num_def show_int_def neg num_sign_show num_int_show [OF c] tail)
qed

lemma parse_int32_show: "parse_int32 (show_int (sint (x :: int32))) = Some x"
proof -
  have neg: "num_sign (CHR ''-'' # s) = (''-'', s)" for s by (simp add: num_sign_def)
  have pos: "num_sign (show_nat n) = ([], show_nat n)" for n using num_sign_show [of n "[]"] by simp
  show ?thesis
    using sint32_range [of x] show_nat_digits
    by (auto simp: parse_int32_def show_int_def neg pos show_nat_value to_int32_def Let_def)
qed

lemma tokens_quoted: "\<forall>c\<in>set t. plain c \<Longrightarrow> tokens (quote t @ rest) = map_option (Cons (TStr t)) (tokens rest)"
  using tokens_quote [of t rest] by (simp add: quote_def)

lemma tokens_number:
  assumes "ends_number c"
  shows "tokens (show_int n @ c # rest) = map_option (Cons (TNum (show_int n))) (tokens (c # rest))"
proof -
  have "\<exists>d ds. show_nat k = d # ds \<and> is_digit d" for k
    using show_nat_digits [of k] by (cases "show_nat k") auto
  then obtain d ds where d: "show_int n = d # ds" "d = CHR ''-'' \<or> is_digit d"
    by (metis show_int_def)
  have "\<not> is_json_space d" "d \<noteq> CHR 0x22" "punct d = None" "word_token (d # s) = None" for s
    using d(2) by (auto simp: is_json_space_def punct_def word_token_def HasPrefix_def is_digit_def code_def)
  then show ?thesis
    using read_num_show [OF assms, of n rest] by (simp add: d(1) tokens.simps(2))
qed

lemma ends_number_marks [simp]: "ends_number (CHR '','')" "ends_number (CHR ''}'')"
  by (simp_all add: ends_number_def is_digit_def code_def)

lemma plain_names [simp]:
  "\<forall>c\<in>set ''podPort''. plain c" "\<forall>c\<in>set ''lbPort''. plain c" "\<forall>c\<in>set ''protocol''. plain c"
  "\<forall>c\<in>set ''portName''. plain c"
  by (simp_all add: plain_def code_def)

definition port_tokens :: "PodPortAllocation \<Rightarrow> token list" where
  "port_tokens p =
     [TBeginObject, TStr ''podPort'', TColon, TNum (show_int (sint (pp_PodPort p))), TComma,
      TStr ''lbPort'', TColon, TNum (show_int (sint (pp_LBPort p))), TComma,
      TStr ''protocol'', TColon, TStr (pp_Protocol p)] @
     (if pp_PortName p = '''' then [] else [TComma, TStr ''portName'', TColon, TStr (pp_PortName p)]) @
     [TEndObject]"

definition plain_port :: "PodPortAllocation \<Rightarrow> bool" where
  "plain_port p \<longleftrightarrow> (\<forall>c\<in>set (pp_Protocol p). plain c) \<and> (\<forall>c\<in>set (pp_PortName p). plain c)"

lemma tokens_port:
  assumes "plain_port p"
  shows "tokens (port_json p @ rest) = map_option (\<lambda>r. port_tokens p @ r) (tokens rest)"
  using assms plain_names unfolding plain_port_def
  by (cases "pp_PortName p = ''''")
    (simp_all add: port_json_def member_def port_tokens_def tokens_quoted tokens_number tokens_mark punct_def
      option.map_comp comp_def)

definition port_members :: "PodPortAllocation \<Rightarrow> (string \<times> json) list" where
  "port_members p =
     [(''podPort'', JNum (show_int (sint (pp_PodPort p)))), (''lbPort'', JNum (show_int (sint (pp_LBPort p)))),
      (''protocol'', JStr (pp_Protocol p))] @
     (if pp_PortName p = '''' then [] else [(''portName'', JStr (pp_PortName p))])"

lemma psteps_port:
  assumes "length fs < maxNestingDepth"
  shows "psteps (port_tokens p @ us) (Want b fs) = psteps us (Have (JObj (port_members p)) fs)"
  using assms by (simp add: port_tokens_def port_members_def)

lemma decode_port: "decode_struct set_port_field zero_port (JObj (port_members p)) = Some p"
  by (simp add: decode_struct_def port_members_def set_port_field_def same_field_def ascii_lower_def
      decode_int32_def decode_string_def parse_int32_show zero_port_def code_def byte_def)

fun ports_tokens :: "PodPortAllocation list \<Rightarrow> token list" where
  "ports_tokens [] = []"
| "ports_tokens [p] = port_tokens p"
| "ports_tokens (p # ps) = port_tokens p @ TComma # ports_tokens ps"

lemma tokens_ports_body:
  assumes "\<forall>p\<in>set ps. plain_port p"
  shows "tokens (join (CHR '','') (map port_json ps) @ CHR '']'' # rest) =
    map_option (\<lambda>r. ports_tokens ps @ TEndArray # r) (tokens rest)"
  using assms
proof (induction ps rule: ports_tokens.induct)
  case 1
  then show ?case by (simp add: tokens_mark punct_def comp_def)
next
  case (2 p)
  then show ?case by (simp add: tokens_port tokens_mark punct_def option.map_comp comp_def)
next
  case (3 p q qs)
  then show ?case by (simp add: tokens_port [of p] tokens_mark punct_def option.map_comp comp_def)
qed

lemma psteps_ports_body:
  "ps \<noteq> [] \<Longrightarrow> psteps (ports_tokens ps @ [TEndArray]) (Want b [InArray vs]) =
     Some (Have (JArr (rev vs @ map (\<lambda>p. JObj (port_members p)) ps)) [])"
  by (induction ps arbitrary: b vs rule: ports_tokens.induct)
    (auto simp: psteps_port maxNestingDepth_def)

lemma unmarshal_ports_json:
  assumes "\<forall>p\<in>set ps. plain_port p"
  shows "unmarshal_ports (ports_json ps) = Some ps"
proof -
  have "tokens (ports_json ps) = Some (TBeginArray # ports_tokens ps @ [TEndArray])"
    using tokens_ports_body [OF assms, of "[]"] by (simp add: ports_json_def tokens_mark punct_def)
  moreover have "psteps (ports_tokens ps @ [TEndArray]) (Want True [InArray []]) =
      Some (Have (JArr (map (\<lambda>p. JObj (port_members p)) ps)) [])"
    using psteps_ports_body [of ps True "[]"] by (cases ps) auto
  ultimately have "parse_json (ports_json ps) = Some (JArr (map (\<lambda>p. JObj (port_members p)) ps))"
    by (simp add: parse_json_def maxNestingDepth_def)
  with collect_Some [of "\<lambda>p. p" ps] show ?thesis
    by (simp add: unmarshal_ports_def decode_slice_def decode_port comp_def)
qed

section \<open>Properties\<close>

definition demo_pod :: "string \<Rightarrow> (string, string) gomap option \<Rightarrow> Pod" where
  "demo_pod nm anns =
     \<lparr>po_TypeMeta = zero_type_meta,
      po_ObjectMeta = zero_object_meta\<lparr>om_Name := nm, om_Namespace := ''ns'', om_Annotations := anns\<rparr>,
      po_Spec = \<lparr>psp_Containers = [], psp_InitContainers = [], psp_NodeName = '''',
        psp_ServiceAccountName = '''', psp_RestartPolicy = ''''\<rparr>,
      po_Status = \<lparr>pst_Phase = ''Running'', pst_PodIP = '''', pst_HostIP = '''', pst_Message = ''''\<rparr>\<rparr>"

definition pools_pod :: "string \<Rightarrow> Pod" where
  "pools_pod t = demo_pod ''a'' (Some [(PodAnnotationEnableAllocKey, ''true''), (PodAnnotationNetworkPoolKey, t)])"

lemma pools_pod_annotation [simp]: "annotation (pools_pod t) PodAnnotationNetworkPoolKey = Some t"
  by (simp add: annotation_def pools_pod_def demo_pod_def)

text \<open>
  C30. The pools parseNetworkPools returns. When it returns a list, the list is not empty,
  its names are distinct, none is empty or has a space at either end, and it is the list
  of the raw names, trimmed, the empty ones left out and only the first of equal ones
  kept. The raw names are the JSON array where the annotation begins with a bracket and
  ends with one, and the pieces between commas otherwise. It fails exactly when the
  annotation is missing or empty, when such a JSON text is not an array of strings, and
  when no name is left.
\<close>

theorem parseNetworkPools_correct:
  "(\<forall>ps. parseNetworkPools pod = (Inr ps :: 'e error + string list) \<longrightarrow>
      ps \<noteq> [] \<and> distinct ps \<and> (\<forall>p\<in>set ps. p \<noteq> '''' \<and> trimmed p)) \<and>
   (case annotation pod PodAnnotationNetworkPoolKey of
      None \<Rightarrow> parseNetworkPools pod = (Inl PoolAnnotationMissing :: 'e error + string list)
    | Some t \<Rightarrow>
        if t = '''' then parseNetworkPools pod = (Inl PoolAnnotationMissing :: 'e error + string list)
        else
          case (if HasPrefix t ''['' \<and> HasSuffix t '']'' then unmarshal_strings t else Some (Split t (CHR '',''))) of
            None \<Rightarrow> parseNetworkPools pod = (Inl FailedToParsePoolsJSON :: 'e error + string list)
          | Some raw \<Rightarrow>
              (let ps = remdups_first (filter (\<lambda>p. p \<noteq> '''') (map TrimSpace raw)) in
               parseNetworkPools pod = (if ps = [] then Inl NoValidPools else Inr ps :: 'e error + string list)))"
proof (rule conjI, intro allI impI)
  fix ps assume run: "parseNetworkPools pod = (Inr ps :: 'e error + string list)"
  then obtain raw where "ps = clean raw" "clean raw \<noteq> []"
    using clean_fold by (auto simp: parseNetworkPools_def Let_def split: option.splits if_splits)
  then show "ps \<noteq> [] \<and> distinct ps \<and> (\<forall>p\<in>set ps. p \<noteq> '''' \<and> trimmed p)"
    using trimmed_TrimSpace by (auto simp: clean_def)
qed (auto simp: parseNetworkPools_def Let_def clean_fold clean_def split: option.splits)

theorem parseNetworkPools_correct_witness:
  "distinct [''a'', ''b''] \<and> parseNetworkPools (pools_pod '' a,b,, a'') = (Inr [''a'', ''b''] :: mem_error error + string list)"
proof -
  have plain: "TrimSpace ''a'' = ''a''" "TrimSpace ''b'' = ''b''" "TrimSpace '''' = ''''"
    by (simp_all add: TrimSpace_trimmed trimmed_graphic graphic_def)
  have "strip space_codes '' a'' = strip space_codes ''a''"
    by (subst strip.simps) (simp add: space_codes_def HasPrefix_def)
  then have "TrimSpace '' a'' = TrimSpace ''a''" by (simp only: TrimSpace_def)
  with plain have trim: "TrimSpace '' a'' = ''a''" "TrimSpace ''b'' = ''b''" "TrimSpace '''' = ''''"
    by simp_all
  have "clean ['' a'', ''b'', '''', '' a''] = [''a'', ''b'']"
    by (simp add: clean_def trim remdups_first_def)
  then have "parseNetworkPools (pools_pod '' a,b,, a'') = (Inr [''a'', ''b''] :: mem_error error + string list)"
    by (subst parseNetworkPools_raw [of _ "'' a,b,, a''"]) (simp_all add: HasPrefix_def)
  with parseNetworkPools_correct [of "pools_pod '' a,b,, a''", where 'e = mem_error] show ?thesis by blast
qed

definition plain_name :: "string \<Rightarrow> bool" where
  "plain_name p \<longleftrightarrow> p \<noteq> '''' \<and>
     (\<forall>c\<in>set p. graphic c \<and> c \<noteq> CHR '','' \<and> c \<noteq> CHR ''['' \<and> c \<noteq> CHR 0x22 \<and> c \<noteq> CHR 0x5C)"

lemma plain_name_plain: "plain_name p \<Longrightarrow> c \<in> set p \<Longrightarrow> plain c"
proof -
  assume "plain_name p" "c \<in> set p"
  then have "graphic c" "c \<noteq> CHR 0x22" "c \<noteq> CHR 0x5C" unfolding plain_name_def by blast+
  then show "plain c" unfolding plain_def graphic_def code_def by simp
qed

lemma clean_plain: "\<forall>p\<in>set ps. plain_name p \<Longrightarrow> clean ps = remdups_first ps"
proof -
  assume a: "\<forall>p\<in>set ps. plain_name p"
  then have "map TrimSpace ps = ps"
    by (intro map_idI) (simp add: TrimSpace_trimmed trimmed_graphic plain_name_def)
  moreover have "filter (\<lambda>p. p \<noteq> '''') ps = ps" using a by (auto simp: plain_name_def intro: filter_True)
  ultimately show ?thesis by (simp add: clean_def)
qed

lemma join_hd: "ps \<noteq> [] \<Longrightarrow> hd ps \<noteq> [] \<Longrightarrow> join sep ps \<noteq> [] \<and> hd (join sep ps) = hd (hd ps)"
  by (induction sep ps rule: join.induct) (auto simp: hd_append)

text \<open>
  The two formats agree: for names of printable ASCII without a comma, a quote, a
  backslash, a bracket or a space, the pod that names its pools with commas between them
  and the pod that names them as a JSON array are read alike, as those names with the
  first of equal ones kept (a single name is a list of one in both).
\<close>

theorem pool_formats_agree:
  assumes "names \<noteq> []" and "\<forall>p\<in>set names. plain_name p"
    and "annotation pod1 PodAnnotationNetworkPoolKey = Some (join (CHR '','') names)"
    and "annotation pod2 PodAnnotationNetworkPoolKey = Some (json_array names)"
  shows "parseNetworkPools pod1 = (Inr (remdups_first names) :: 'e error + string list) \<and>
    parseNetworkPools pod2 = (Inr (remdups_first names) :: 'e error + string list)"
proof -
  have some: "remdups_first names \<noteq> []" using assms(1) by (simp add: remdups_first_def)
  obtain n ns where n: "names = n # ns" using assms(1) by (cases names) auto
  then have "plain_name n" using assms(2) by simp
  then have hd: "n \<noteq> []" "hd n \<noteq> CHR ''[''" by (auto simp: plain_name_def)
  with join_hd [of names "CHR '',''"] n have "join (CHR '','') names \<noteq> []" "hd (join (CHR '','') names) \<noteq> CHR ''[''"
    by auto
  then have "join (CHR '','') names \<noteq> '''' \<and> \<not> HasPrefix (join (CHR '','') names) ''[''"
    by (cases "join (CHR '','') names") (auto simp: HasPrefix_def)
  moreover have "Split (join (CHR '','') names) (CHR '','') = names"
    using assms(1,2) by (intro Split_join) (auto simp: plain_name_def)
  ultimately have "parseNetworkPools pod1 = (Inr (remdups_first names) :: 'e error + string list)"
    using parseNetworkPools_raw [OF assms(3)] clean_plain [OF assms(2)] some by simp
  moreover have "unmarshal_strings (json_array names) = Some names"
    using assms(2) by (intro unmarshal_strings_array) (auto intro: plain_name_plain)
  moreover have "json_array names \<noteq> '''' \<and> HasPrefix (json_array names) ''['' \<and> HasSuffix (json_array names) '']''"
    by (simp add: json_array_def HasPrefix_def HasSuffix_def)
  ultimately show ?thesis
    using parseNetworkPools_raw [OF assms(4)] clean_plain [OF assms(2)] some by simp
qed

theorem pool_formats_agree_witness:
  "(parseNetworkPools (pools_pod ''a,b,a'') :: mem_error error + string list) =
    parseNetworkPools (pools_pod (json_array [''a'', ''b'', ''a'']))"
  using pool_formats_agree [of "[''a'', ''b'', ''a'']" "pools_pod ''a,b,a''"
      "pools_pod (json_array [''a'', ''b'', ''a''])", where 'e = mem_error]
  by (simp add: plain_name_def graphic_def)

text \<open>
  C31. The ports parseContainerPorts returns. An annotation that is there and not empty
  alone decides: the ports it lists, or an error when it is not a JSON array of objects
  whose fields fit; ports that were written as JSON (names without escapes) are read back
  as they were. Otherwise the ports of the pod's containers are returned, in order, with
  no LB port, and there is no error.
\<close>

theorem parseContainerPorts_correct:
  "(annotation pod PodAnnotationContainerPortsKey = Some (ports_json ps) \<and> (\<forall>p\<in>set ps. plain_port p) \<longrightarrow>
      parseContainerPorts pod = (Inr ps :: 'e error + PodPortAllocation list)) \<and>
   (\<forall>t. annotation pod PodAnnotationContainerPortsKey = Some t \<and> t \<noteq> '''' \<longrightarrow>
      parseContainerPorts pod =
        (case unmarshal_ports t of
           None \<Rightarrow> Inl FailedToUnmarshalPorts
         | Some ps \<Rightarrow> (Inr ps :: 'e error + PodPortAllocation list))) \<and>
   (annotation pod PodAnnotationContainerPortsKey \<in> {None, Some ''''} \<longrightarrow>
      parseContainerPorts pod =
        (Inr (map spec_port (concat (map ct_Ports (psp_Containers (po_Spec pod))))) :: 'e error + PodPortAllocation list))"
proof (intro conjI impI allI)
  assume "annotation pod PodAnnotationContainerPortsKey = Some (ports_json ps) \<and> (\<forall>p\<in>set ps. plain_port p)"
  moreover have "ports_json ps \<noteq> ''''" by (simp add: ports_json_def)
  ultimately show "parseContainerPorts pod = (Inr ps :: 'e error + PodPortAllocation list)"
    by (simp add: parseContainerPorts_def unmarshal_ports_json)
qed (auto simp: parseContainerPorts_def spec_ports_concat)

theorem parseContainerPorts_correct_witness:
  "parseContainerPorts (demo_pod ''a'' (Some [(PodAnnotationContainerPortsKey,
     ports_json [\<lparr>pp_PodPort = 8080, pp_LBPort = 0, pp_Protocol = ''TCP'', pp_PortName = ''http''\<rparr>])])) =
   (Inr [\<lparr>pp_PodPort = 8080, pp_LBPort = 0, pp_Protocol = ''TCP'', pp_PortName = ''http''\<rparr>] :: mem_error error + PodPortAllocation list)"
  by (rule parseContainerPorts_correct [THEN conjunct1, rule_format])
    (simp add: demo_pod_def annotation_def plain_port_def plain_def code_def)

end
