(* ===== verification/PodReconciler.thy ===== *)
theory PodReconciler
  imports Manager Release PodParse
begin

text \<open>
  internal/controller/pod\_controller.go: the reconciler that allocates ports for the pods
  that ask for them and releases them when the pods go. The field \<open>Allocator\<close> is a
  pointer: \<open>None\<close> is nil, and calling a method on it panics. The state of a call is the
  allocator and the world.
\<close>

section \<open>Finalizers and existing allocations\<close>

definition ApolloNetworkFinalizer :: string where
  "ApolloNetworkFinalizer = ''apollo.magicsong.io/port-allocation''"

definition ensureFinalizer ::
  "finalizer_ops \<Rightarrow> ('s, 'e) kube_client \<Rightarrow> Pod \<Rightarrow> 's \<Rightarrow> 'e error option \<times> 's" where
  "ensureFinalizer fz api pod s =
     (if fz_Contains fz pod ApolloNetworkFinalizer then (None, s)
      else
        case kc_PatchPod api pod (fz_Add fz pod ApolloNetworkFinalizer) s of
          (Inl err, s1) \<Rightarrow> (Some (ApiError err), s1)
        | (Inr _, s1) \<Rightarrow> (None, s1))"

definition removeFinalizer ::
  "finalizer_ops \<Rightarrow> ('s, 'e) kube_client \<Rightarrow> Pod \<Rightarrow> 's \<Rightarrow> (ctrl_result \<times> 'e error option) \<times> 's" where
  "removeFinalizer fz api pod s =
     (if \<not> fz_Contains fz pod ApolloNetworkFinalizer then ((zero_result, None), s)
      else
        case kc_PatchPod api pod (fz_Remove fz pod ApolloNetworkFinalizer) s of
          (Inl err, s1) \<Rightarrow> ((zero_result, Some (ApiError err)), s1)
        | (Inr _, s1) \<Rightarrow> ((zero_result, None), s1))"

text \<open>A pointer to the allocation found, \<open>None\<close> for nil.\<close>

definition findExistingAllocation ::
  "('s, 'e) kube_client \<Rightarrow> string \<Rightarrow> string \<Rightarrow> string \<Rightarrow> 's \<Rightarrow> ('e error + PortAllocation option) \<times> 's" where
  "findExistingAllocation api poolName podName podNamespace s =
     (case kc_ListAllocations api [(LabelPoolNameKey, poolName), (LabelPodNameKey, podName)] (Some 100) s of
        (Inl err, s1) \<Rightarrow> (Inl (ApiError err), s1)
      | (Inr allocationList, s1) \<Rightarrow>
          (Inr (find (\<lambda>allocation. pi_Name (pod_info allocation) = podName \<and>
                       pi_Namespace (pod_info allocation) = podNamespace) (al_Items allocationList)), s1))"

section \<open>Deletion\<close>

type_synonym 's rec_state = "PoolAllocator option \<times> 's"

abbreviation pod_name :: "Pod \<Rightarrow> string" where
  "pod_name pod \<equiv> om_Name (po_ObjectMeta pod)"

abbreviation pod_namespace :: "Pod \<Rightarrow> string" where
  "pod_namespace pod \<equiv> om_Namespace (po_ObjectMeta pod)"

text \<open>The loop over the pools collects the errors of the releases.\<close>

fun release_pools ::
  "('s, 'e) kube_client \<Rightarrow> Pod \<Rightarrow> string list \<Rightarrow> 'e error list \<Rightarrow> 's rec_state \<Rightarrow>
   ('e error list, 's rec_state) go" where
  "release_pools api pod [] releaseErrors st = Returns releaseErrors st"
| "release_pools api pod (poolName # pools) releaseErrors (None, s) = Panics (None, s)"
| "release_pools api pod (poolName # pools) releaseErrors (Some pa, s) =
     (case ReleasePort api poolName '''' (pod_name pod) (pod_namespace pod) pa s of
        Returns (Some err) (pa', s') \<Rightarrow>
          release_pools api pod pools (releaseErrors @ [PoolFailed poolName err]) (Some pa', s')
      | Returns None (pa', s') \<Rightarrow> release_pools api pod pools releaseErrors (Some pa', s')
      | Panics (pa', s') \<Rightarrow> Panics (Some pa', s')
      | Blocks (pa', s') \<Rightarrow> Blocks (Some pa', s'))"

definition finish :: "('a \<times> 's) \<Rightarrow> PoolAllocator option \<Rightarrow> ('a, 's rec_state) go" where
  "finish r pa = Returns (fst r) (pa, snd r)"

definition handlePodDeletion ::
  "finalizer_ops \<Rightarrow> ('s, 'e) kube_client \<Rightarrow> Pod \<Rightarrow> 's rec_state \<Rightarrow>
   (ctrl_result \<times> 'e error option, 's rec_state) go" where
  "handlePodDeletion fz api pod st =
     (if \<not> fz_Contains fz pod ApolloNetworkFinalizer then Returns (zero_result, None) st
      else
        case parseNetworkPools pod :: 'e error + string list of
          Inl err \<Rightarrow> finish (removeFinalizer fz api pod (snd st)) (fst st)
        | Inr pools \<Rightarrow>
            (case release_pools api pod pools [] st of
               Returns releaseErrors (pa, s) \<Rightarrow> finish (removeFinalizer fz api pod s) pa
             | Panics st' \<Rightarrow> Panics st'
             | Blocks st' \<Rightarrow> Blocks st'))"

section \<open>Allocation\<close>

text \<open>The first loop stops at an error and at the first pool without an allocation.\<close>

fun all_allocations_exist ::
  "('s, 'e) kube_client \<Rightarrow> Pod \<Rightarrow> string list \<Rightarrow> 's \<Rightarrow> ('e error + bool) \<times> 's" where
  "all_allocations_exist api pod [] s = (Inr True, s)"
| "all_allocations_exist api pod (poolName # pools) s =
     (case findExistingAllocation api poolName (pod_name pod) (pod_namespace pod) s of
        (Inl err, s1) \<Rightarrow> (Inl err, s1)
      | (Inr None, s1) \<Rightarrow> (Inr False, s1)
      | (Inr (Some _), s1) \<Rightarrow> all_allocations_exist api pod pools s1)"

text \<open>The second loop goes through all pools and counts successes.\<close>

fun allocate_pools ::
  "('s, 'e) kube_client \<Rightarrow> ('s alloc_vars, 'e error) retrier \<Rightarrow> Pod \<Rightarrow> PodPortAllocation list \<Rightarrow>
   string list \<Rightarrow> 'e error list \<times> nat \<Rightarrow> 's rec_state \<Rightarrow> ('e error list \<times> nat, 's rec_state) go" where
  "allocate_pools api retry pod containerPorts [] acc st = Returns acc st"
| "allocate_pools api retry pod containerPorts (poolName # pools) (errs, ok) (pa, s) =
     (case findExistingAllocation api poolName (pod_name pod) (pod_namespace pod) s of
        (Inl err, s1) \<Rightarrow>
          allocate_pools api retry pod containerPorts pools (errs @ [PoolFailed poolName err], ok) (pa, s1)
      | (Inr (Some _), s1) \<Rightarrow>
          allocate_pools api retry pod containerPorts pools (errs, ok + 1) (pa, s1)
      | (Inr None, s1) \<Rightarrow>
          (case pa of
             None \<Rightarrow> Panics (None, s1)
           | Some pa0 \<Rightarrow>
               (case AllocatePort api retry poolName '''' (pod_name pod) (pod_namespace pod) containerPorts pa0 s1 of
                  Returns (Inl err) (pa', s2) \<Rightarrow>
                    allocate_pools api retry pod containerPorts pools (errs @ [PoolFailed poolName err], ok) (Some pa', s2)
                | Returns (Inr _) (pa', s2) \<Rightarrow>
                    allocate_pools api retry pod containerPorts pools (errs, ok + 1) (Some pa', s2)
                | Panics (pa', s2) \<Rightarrow> Panics (Some pa', s2)
                | Blocks (pa', s2) \<Rightarrow> Blocks (Some pa', s2))))"

text \<open>What follows the second loop.\<close>

definition conclude_allocation ::
  "finalizer_ops \<Rightarrow> ('s, 'e) kube_client \<Rightarrow> Pod \<Rightarrow> 'e error list \<Rightarrow> nat \<Rightarrow> 's \<Rightarrow>
   (ctrl_result \<times> 'e error option) \<times> 's" where
  "conclude_allocation fz api pod allocationErrors successfulAllocations s =
     (case (if successfulAllocations > 0 then ensureFinalizer fz api pod s else (None, s)) of
        (Some err, s1) \<Rightarrow> ((zero_result, Some err), s1)
      | (None, s1) \<Rightarrow>
          if length allocationErrors > 0 \<and> successfulAllocations = 0
          then ((zero_result, Some (AllAllocationsFailed allocationErrors)), s1)
          else ((zero_result, None), s1))"

definition handlePodAllocation ::
  "finalizer_ops \<Rightarrow> ('s, 'e) kube_client \<Rightarrow> ('s alloc_vars, 'e error) retrier \<Rightarrow> Pod \<Rightarrow> 's rec_state \<Rightarrow>
   (ctrl_result \<times> 'e error option, 's rec_state) go" where
  "handlePodAllocation fz api retry pod st =
     (case parseNetworkPools pod of
        Inl err \<Rightarrow> Returns (zero_result, Some err) st
      | Inr pools \<Rightarrow>
          (case parseContainerPorts pod of
             Inl err \<Rightarrow> Returns (zero_result, Some err) st
           | Inr containerPorts \<Rightarrow>
               (case all_allocations_exist api pod pools (snd st) of
                  (Inl err, s1) \<Rightarrow> Returns (zero_result, Some err) (fst st, s1)
                | (Inr True, s1) \<Rightarrow>
                    finish (case ensureFinalizer fz api pod s1 of
                        (Some err, s2) \<Rightarrow> ((zero_result, Some err), s2)
                      | (None, s2) \<Rightarrow> ((zero_result, None), s2)) (fst st)
                | (Inr False, s1) \<Rightarrow>
                    (case allocate_pools api retry pod containerPorts pools ([], 0) (fst st, s1) of
                       Returns (errs, ok) (pa, s2) \<Rightarrow> finish (conclude_allocation fz api pod errs ok s2) pa
                     | Panics st' \<Rightarrow> Panics st'
                     | Blocks st' \<Rightarrow> Blocks st'))))"

section \<open>Reconcile\<close>

definition PodReconciler_Reconcile ::
  "finalizer_ops \<Rightarrow> ('s, 'e) kube_client \<Rightarrow> ('s alloc_vars, 'e error) retrier \<Rightarrow> request \<Rightarrow> 's rec_state \<Rightarrow>
   (ctrl_result \<times> 'e error option, 's rec_state) go" where
  "PodReconciler_Reconcile fz api retry req st =
     (case kc_GetPod api req (snd st) of
        (Inl err, s1) \<Rightarrow>
          (if kc_IsNotFound api err then Returns (zero_result, None) (fst st, s1)
           else Returns (zero_result, Some (ApiError err)) (fst st, s1))
      | (Inr pod, s1) \<Rightarrow>
          (if \<not> shouldManagePod pod then Returns (zero_result, None) (fst st, s1)
           else if om_DeletionTimestamp (po_ObjectMeta pod) \<noteq> None then handlePodDeletion fz api pod (fst st, s1)
           else handlePodAllocation fz api retry pod (fst st, s1)))"

section \<open>What the loops keep\<close>

text \<open>
  The states the reconciler works from: the ledger invariant holds, and with an allocator
  no mutex is held.
\<close>

definition serving :: "('s \<Rightarrow> cluster) \<Rightarrow> 's rec_state \<Rightarrow> bool" where
  "serving view st \<longleftrightarrow>
     pools_bounded (view (snd st)) \<and> ledger_ok (view (snd st)) \<and> keys_distinct (view (snd st)) \<and>
     (\<forall>pa. fst st = Some pa \<longrightarrow> (\<forall>k. \<not> mutex_held k pa))"

text \<open>From one state to a later one: still serving, pods and pools untouched.\<close>

definition carries :: "('s \<Rightarrow> cluster) \<Rightarrow> 's \<Rightarrow> 's rec_state \<Rightarrow> bool" where
  "carries view s st \<longleftrightarrow>
     serving view st \<and> fst st \<noteq> None \<and> cl_Pods (view (snd st)) = cl_Pods (view s) \<and>
     cl_Pools (view (snd st)) = cl_Pools (view s)"

lemma carries_trans: "carries view s (pa, t) \<Longrightarrow> carries view t st \<Longrightarrow> carries view s st"
  by (simp add: carries_def)

lemma serving_view: "serving view (pa, s) \<Longrightarrow> view t = view s \<Longrightarrow> serving view (pa, t)"
  by (simp add: serving_def)

lemma findExistingAllocation_view:
  assumes "consistent_client api view" and "findExistingAllocation api pool pod ns s = (r, s')"
  shows "view s' = view s"
  using assms by (auto simp: findExistingAllocation_def list_view split: prod.splits sum.splits)

text \<open>The pod has an allocation in the pool.\<close>

definition allocated :: "cluster \<Rightarrow> Pod \<Rightarrow> string \<Rightarrow> bool" where
  "allocated c pod pool \<longleftrightarrow> (pod_namespace pod, pod_name pod) \<in> pod_of ` set (pool_allocs c pool)"

lemma findExistingAllocation_Some:
  assumes "consistent_client api view"
    and "findExistingAllocation api pool (pod_name pod) (pod_namespace pod) s = (Inr (Some a), s')"
  shows "allocated (view s) pod pool"
proof -
  from assms(2) obtain l where
    l: "kc_ListAllocations api [(LabelPoolNameKey, pool), (LabelPodNameKey, pod_name pod)] (Some 100) s = (Inr l, s')"
    and f: "find (\<lambda>b. pi_Name (pod_info b) = pod_name pod \<and> pi_Namespace (pod_info b) = pod_namespace pod)
        (al_Items l) = Some a"
    by (auto simp: findExistingAllocation_def split: prod.splits sum.splits)
  have "lists_current api view" using assms(1) by (simp add: consistent_client_def)
  from this [unfolded lists_current_def, rule_format, OF l]
  have "set (al_Items l) \<subseteq> {a \<in> set (cl_Allocs (view s)).
      selected_by [(LabelPoolNameKey, pool), (LabelPodNameKey, pod_name pod)] a}" by blast
  moreover from f have "a \<in> set (al_Items l)" "pod_of a = (pod_namespace pod, pod_name pod)"
    by (auto simp: find_Some_iff pod_of_def)
  ultimately show ?thesis
    by (force simp: allocated_def set_pool_allocs selected_by_def in_pool_def intro!: image_eqI [of _ _ a])
qed

lemma ReleasePort_carries:
  fixes api :: "('s, 'e) kube_client" and retry :: "('s alloc_vars, 'e error) retrier"
  assumes "consistent_client api view" and "retries_on_conflict api retry" and "serving view (Some pa, s)"
  shows "\<exists>r pa' s'. ReleasePort api pool n pod ns pa s = Returns r (pa', s') \<and> carries view s (Some pa', s')"
proof -
  have inv: "pools_bounded (view s)" "ledger_ok (view s)" "keys_distinct (view s)" "\<forall>k. \<not> mutex_held k pa"
    using assms(3) by (auto simp: serving_def)
  from releasing.returns [OF assms(1,2) inv(1)] inv(4) obtain r pa' s' where
    run: "ReleasePort api pool n pod ns pa s = Returns r (pa', s')" by fastforce
  then have out: "go_state (ReleasePort api pool n pod ns pa s) = (pa', s')" by simp
  from releasing.keeps [OF assms(1,2) inv out] ReleasePort_view_cases [OF assms(1) out] run
  show ?thesis by (auto simp: carries_def serving_def)
qed

lemma AllocatePort_carries:
  assumes "consistent_client api view" and "retries_on_conflict api retry" and "serving view (Some pa, s)"
  shows "\<exists>r pa' s'. AllocatePort api retry pool n pod ns cps pa s = Returns r (pa', s') \<and>
    carries view s (Some pa', s')"
proof -
  have inv: "pools_bounded (view s)" "ledger_ok (view s)" "keys_distinct (view s)" "\<forall>k. \<not> mutex_held k pa"
    using assms(3) by (auto simp: serving_def)
  from allocating.returns [OF assms(1,2) inv(1)] inv(4) obtain r pa' s' where
    run: "AllocatePort api retry pool n pod ns cps pa s = Returns r (pa', s')" by fastforce
  then have out: "go_state (AllocatePort api retry pool n pod ns cps pa s) = (pa', s')" by simp
  from allocating.keeps [OF assms(1,2) inv out] AllocatePort_view_cases [OF assms(1,2) inv(1) out] run
  show ?thesis by (auto simp: carries_def serving_def)
qed

lemma release_pools_carries:
  fixes api :: "('s, 'e) kube_client" and retry :: "('s alloc_vars, 'e error) retrier"
  assumes "consistent_client api view" and "retries_on_conflict api retry" and "serving view (Some pa, s)"
  shows "\<exists>errs' pa' s'. release_pools api pod pools errs (Some pa, s) = Returns errs' (Some pa', s') \<and>
    carries view s (Some pa', s')"
  using assms(3)
proof (induction pools arbitrary: errs pa s)
  case Nil
  then show ?case by (auto simp: carries_def)
next
  case (Cons p pools)
  from ReleasePort_carries [OF assms(1,2) Cons.prems, of p "''''" "pod_name pod" "pod_namespace pod"]
  obtain r pa1 s1 where run: "ReleasePort api p '''' (pod_name pod) (pod_namespace pod) pa s = Returns r (pa1, s1)"
    and c: "carries view s (Some pa1, s1)" by blast
  from c have "serving view (Some pa1, s1)" by (simp add: carries_def)
  from Cons.IH [OF this] carries_trans [OF c] run show ?case
    by (cases r) (simp_all, metis+)
qed

lemma allocate_pools_carries:
  assumes "consistent_client api view" and "retries_on_conflict api retry" and "serving view (Some pa, s)"
  shows "\<exists>acc' pa' s'. allocate_pools api retry pod cps pools acc (Some pa, s) = Returns acc' (Some pa', s') \<and>
    carries view s (Some pa', s')"
  using assms(3)
proof (induction pools arbitrary: acc pa s)
  case Nil
  then show ?case by (auto simp: carries_def)
next
  case (Cons p pools)
  obtain errs ok where acc: "acc = (errs, ok)" by (cases acc)
  obtain r s1 where f: "findExistingAllocation api p (pod_name pod) (pod_namespace pod) s = (r, s1)"
    by (cases "findExistingAllocation api p (pod_name pod) (pod_namespace pod) s")
  have v: "view s1 = view s" by (rule findExistingAllocation_view [OF assms(1) f])
  have s1: "serving view (Some pa, s1)" by (rule serving_view [OF Cons.prems v])
  have c1: "carries view s (Some pa, s1)" using s1 v by (simp add: carries_def)
  consider (err) e where "r = Inl e" | (found) a where "r = Inr (Some a)" | (none) "r = Inr None"
    by (cases r) (blast, metis option.exhaust)
  then show ?case
  proof cases
    case none
    from AllocatePort_carries [OF assms(1,2) s1, of p "''''" "pod_name pod" "pod_namespace pod" cps]
    obtain r2 pa2 s2 where
      run: "AllocatePort api retry p '''' (pod_name pod) (pod_namespace pod) cps pa s1 = Returns r2 (pa2, s2)"
      and c2: "carries view s1 (Some pa2, s2)" by blast
    from c2 have "serving view (Some pa2, s2)" by (simp add: carries_def)
    from Cons.IH [OF this] carries_trans [OF carries_trans [OF c1 c2]] run f none acc show ?thesis
      by (cases r2) (simp_all, metis+)
  qed (use Cons.IH [OF s1] carries_trans [OF c1] f acc in \<open>simp, metis\<close>)+
qed

section \<open>What a patch changes\<close>

lemma patches_Inr:
  assumes "patches_pods api view" and "kc_PatchPod api base new s = (Inr r, s')"
  obtains kept where "list_all2 (patched_pod new) kept (cl_Pods (view s'))"
    and "kept = cl_Pods (view s) \<or>
      om_Finalizers (po_ObjectMeta new) = [] \<and> om_DeletionTimestamp (po_ObjectMeta new) \<noteq> None \<and>
      kept = filter (\<lambda>p. meta_key (po_ObjectMeta p) \<noteq> meta_key (po_ObjectMeta new)) (cl_Pods (view s))"
    and "cl_Allocs (view s') = cl_Allocs (view s)" and "cl_Pools (view s') = cl_Pools (view s)"
  using assms unfolding patches_pods_def by blast

lemma patch_rest:
  assumes "patches_pods api view" and "kc_PatchPod api base new s = (r, s')"
  shows "cl_Allocs (view s') = cl_Allocs (view s) \<and> cl_Pools (view s') = cl_Pools (view s)"
proof (cases r)
  case (Inl e)
  with assms have "view s' = view s" unfolding patches_pods_def by blast
  then show ?thesis by simp
next
  case (Inr p)
  with assms(2) have "kc_PatchPod api base new s = (Inr p, s')" by simp
  from patches_Inr [OF assms(1) this] show ?thesis by blast
qed

text \<open>After a patch every stored pod of that key has the new finalizers.\<close>

lemma patch_finalizers:
  assumes "patches_pods api view" and "kc_PatchPod api base new s = (Inr r, s')"
    and "q \<in> set (cl_Pods (view s'))" and "meta_key (po_ObjectMeta q) = meta_key (po_ObjectMeta new)"
  shows "om_Finalizers (po_ObjectMeta q) = om_Finalizers (po_ObjectMeta new)"
proof -
  obtain kept where "list_all2 (patched_pod new) kept (cl_Pods (view s'))"
    using patches_Inr [OF assms(1,2)] by blast
  with assms(3) obtain p where "patched_pod new p q" by (auto simp: list_all2_conv_all_nth in_set_conv_nth)
  with assms(4) show ?thesis by (simp add: patched_pod_def)
qed

lemma serving_rest:
  assumes "serving view (pa, s)" and "cl_Allocs (view t) = cl_Allocs (view s) \<and> cl_Pools (view t) = cl_Pools (view s)"
  shows "serving view (pa, t)"
  using assms by (simp add: serving_def pools_bounded_def ledger_ok_def pool_ok_def pool_allocs_def keys_distinct_def)

lemma ensureFinalizer_rest:
  assumes "patches_pods api view" and "ensureFinalizer fz api pod s = (r, s')"
  shows "cl_Allocs (view s') = cl_Allocs (view s) \<and> cl_Pools (view s') = cl_Pools (view s)"
  using assms(2) patch_rest [OF assms(1)]
  by (fastforce simp: ensureFinalizer_def split: if_splits prod.splits sum.splits)

lemma removeFinalizer_rest:
  assumes "patches_pods api view" and "removeFinalizer fz api pod s = (r, s')"
  shows "cl_Allocs (view s') = cl_Allocs (view s) \<and> cl_Pools (view s') = cl_Pools (view s)"
  using assms(2) patch_rest [OF assms(1)]
  by (fastforce simp: removeFinalizer_def split: if_splits prod.splits sum.splits)

lemma conclude_rest:
  assumes "patches_pods api view" and "conclude_allocation fz api pod errs ok s = (r, s')"
  shows "cl_Allocs (view s') = cl_Allocs (view s) \<and> cl_Pools (view s') = cl_Pools (view s)"
  using assms(2) ensureFinalizer_rest [OF assms(1)]
  by (fastforce simp: conclude_allocation_def split: if_splits prod.splits option.splits)

lemma all_allocations_exist_view:
  assumes "consistent_client api view" and "all_allocations_exist api pod pools s = (r, s')"
  shows "view s' = view s"
  using assms(2)
proof (induction pools arbitrary: s)
  case Nil
  then show ?case by simp
next
  case (Cons p pools)
  obtain x s1 where f: "findExistingAllocation api p (pod_name pod) (pod_namespace pod) s = (x, s1)"
    by (cases "findExistingAllocation api p (pod_name pod) (pod_namespace pod) s")
  from findExistingAllocation_view [OF assms(1) f] Cons f show ?case
    by (auto split: sum.splits option.splits)
qed

section \<open>The handlers return\<close>

lemma finish_eq: "finish (r, s) pa = Returns r (pa, s)"
  by (simp add: finish_def)

lemma handlePodDeletion_returns:
  fixes api :: "('s, 'e) kube_client" and retry :: "('s alloc_vars, 'e error) retrier"
  assumes "consistent_client api view" and "retries_on_conflict api retry" and "patches_pods api view"
    and "serving view (Some pa, s)"
  shows "\<exists>res pa' s'. handlePodDeletion fz api pod (Some pa, s) = Returns res (Some pa', s') \<and>
    serving view (Some pa', s')"
proof (cases "fz_Contains fz pod ApolloNetworkFinalizer")
  case False
  with assms(4) show ?thesis by (simp add: handlePodDeletion_def)
next
  case True
  show ?thesis
  proof (cases "parseNetworkPools pod :: 'e error + string list")
    case (Inl e)
    obtain r s' where r: "removeFinalizer fz api pod s = (r, s')" by (cases "removeFinalizer fz api pod s")
    from serving_rest [OF assms(4) removeFinalizer_rest [OF assms(3) r]] r Inl True show ?thesis
      by (simp add: handlePodDeletion_def finish_eq)
  next
    case (Inr pools)
    from release_pools_carries [OF assms(1,2,4), of pod pools "[]"] obtain errs pa1 s1 where
      run: "release_pools api pod pools [] (Some pa, s) = Returns errs (Some pa1, s1)"
      and c: "carries view s (Some pa1, s1)" by blast
    obtain r s' where r: "removeFinalizer fz api pod s1 = (r, s')" by (cases "removeFinalizer fz api pod s1")
    from c have "serving view (Some pa1, s1)" by (simp add: carries_def)
    from serving_rest [OF this removeFinalizer_rest [OF assms(3) r]] r Inr True run show ?thesis
      by (simp add: handlePodDeletion_def finish_eq)
  qed
qed

lemma handlePodAllocation_returns:
  assumes "consistent_client api view" and "retries_on_conflict api retry" and "patches_pods api view"
    and "serving view (Some pa, s)"
  shows "\<exists>res pa' s'. handlePodAllocation fz api retry pod (Some pa, s) = Returns res (Some pa', s') \<and>
    serving view (Some pa', s')"
proof (cases "parseNetworkPools pod :: 'b error + string list")
  case (Inl e)
  with assms(4) show ?thesis by (simp add: handlePodAllocation_def)
next
  case pools: (Inr pools)
  show ?thesis
  proof (cases "parseContainerPorts pod :: 'b error + PodPortAllocation list")
    case (Inl e)
    with pools assms(4) show ?thesis by (simp add: handlePodAllocation_def)
  next
    case cps: (Inr cps)
    obtain x s1 where ex: "all_allocations_exist api pod pools s = (x, s1)"
      by (cases "all_allocations_exist api pod pools s")
    have s1: "serving view (Some pa, s1)"
      by (rule serving_view [OF assms(4) all_allocations_exist_view [OF assms(1) ex]])
    consider (err) e where "x = Inl e" | (all) "x = Inr True" | (some) "x = Inr False"
      by (cases x) auto
    then show ?thesis
    proof cases
      case err
      with pools cps ex s1 show ?thesis by (simp add: handlePodAllocation_def)
    next
      case all
      obtain r s2 where e: "ensureFinalizer fz api pod s1 = (r, s2)" by (cases "ensureFinalizer fz api pod s1")
      from serving_rest [OF s1 ensureFinalizer_rest [OF assms(3) e]] e pools cps ex all show ?thesis
        by (cases r) (simp_all add: handlePodAllocation_def finish_eq)
    next
      case some
      from allocate_pools_carries [OF assms(1,2) s1, of pod cps pools "([], 0)"] obtain acc pa2 s2 where
        run: "allocate_pools api retry pod cps pools ([], 0) (Some pa, s1) = Returns acc (Some pa2, s2)"
        and c: "carries view s1 (Some pa2, s2)" by blast
      obtain r s3 where e: "conclude_allocation fz api pod (fst acc) (snd acc) s2 = (r, s3)"
        by (cases "conclude_allocation fz api pod (fst acc) (snd acc) s2")
      from c have "serving view (Some pa2, s2)" by (simp add: carries_def)
      from serving_rest [OF this conclude_rest [OF assms(3) e]] e pools cps ex some run show ?thesis
        by (cases acc) (simp add: handlePodAllocation_def finish_eq)
    qed
  qed
qed

lemma PodReconciler_returns:
  assumes "consistent_client api view" and "retries_on_conflict api retry" and "patches_pods api view"
    and "serving view (Some pa, s)"
  shows "\<exists>res pa' s'. PodReconciler_Reconcile fz api retry req (Some pa, s) = Returns res (Some pa', s') \<and>
    serving view (Some pa', s')"
proof -
  obtain r s1 where g: "kc_GetPod api req s = (r, s1)" by (cases "kc_GetPod api req s")
  have s1: "serving view (Some pa, s1)" by (rule serving_view [OF assms(4) get_pod_view [OF assms(1) g]])
  show ?thesis
  proof (cases r)
    case (Inl e)
    with g s1 show ?thesis by (simp add: PodReconciler_Reconcile_def)
  next
    case (Inr pod)
    from handlePodDeletion_returns [OF assms(1-3) s1] handlePodAllocation_returns [OF assms(1-3) s1] g Inr s1
    show ?thesis by (simp add: PodReconciler_Reconcile_def)
  qed
qed

section \<open>What the allocation loop achieves\<close>

lemma allocated_mono: "set (cl_Allocs c) \<subseteq> set (cl_Allocs d) \<Longrightarrow> allocated c pod p \<Longrightarrow> allocated d pod p"
  by (auto simp: allocated_def set_pool_allocs)

lemma AllocatePort_allocates:
  assumes "consistent_client api view" and "retries_on_conflict api retry" and "pools_bounded (view s)"
    and "AllocatePort api retry p n (pod_name pod) (pod_namespace pod) cps pa s = Returns r (pa', s')"
  shows "case r of Inl e \<Rightarrow> cl_Allocs (view s') = cl_Allocs (view s)
    | Inr a \<Rightarrow> allocated (view s') pod p \<and> set (cl_Allocs (view s)) \<subseteq> set (cl_Allocs (view s'))"
proof (cases r)
  case (Inl e)
  with AllocatePort_post [OF assms(1-3), of p n "pod_name pod" "pod_namespace pod" cps pa] assms(4) show ?thesis
    by (simp add: allocate_post_def)
next
  case (Inr a)
  with assms(4) have run: "AllocatePort api retry p n (pod_name pod) (pod_namespace pod) cps pa s = Returns (Inr a) (pa', s')"
    by simp
  note made = AllocatePort_Inr [OF assms(1-3) run]
  from grants_grantable [OF made(1)] grantable_in_pool have "in_pool p a" "pod_of a = (pod_namespace pod, pod_name pod)"
    by blast+
  with made(3) Inr show ?thesis
    by (auto simp: allocated_def set_pool_allocs intro!: image_eqI [of _ _ a])
qed

definition loop_post ::
  "Pod \<Rightarrow> string list \<Rightarrow> cluster \<Rightarrow> cluster \<Rightarrow> 'e error list \<times> nat \<Rightarrow> 'e error list \<times> nat \<Rightarrow> bool" where
  "loop_post pod pools c c' acc acc' \<longleftrightarrow>
     length (fst acc') + snd acc' = length (fst acc) + snd acc + length pools \<and>
     snd acc \<le> snd acc' \<and> length (fst acc) \<le> length (fst acc') \<and>
     set (cl_Allocs c) \<subseteq> set (cl_Allocs c') \<and>
     (snd acc < snd acc' \<longrightarrow> (\<exists>p\<in>set pools. allocated c' pod p)) \<and>
     (length (fst acc') = length (fst acc) \<longrightarrow> (\<forall>p\<in>set pools. allocated c' pod p)) \<and>
     (snd acc' = snd acc \<longrightarrow> cl_Allocs c' = cl_Allocs c)"

lemma loop_post_failed:
  assumes "loop_post pod pools c c' (errs @ [e], ok) acc'"
  shows "loop_post pod (p # pools) c c' (errs, ok) acc'"
  using assms by (auto simp: loop_post_def)

lemma loop_post_done:
  assumes "loop_post pod pools c1 c' (errs, Suc ok) acc'" and "allocated c1 pod p"
    and "set (cl_Allocs c) \<subseteq> set (cl_Allocs c1)"
  shows "loop_post pod (p # pools) c c' (errs, ok) acc'"
  using assms allocated_mono [of c1 c' pod p] by (auto simp: loop_post_def)

lemma loop_post_allocs: "cl_Allocs c1 = cl_Allocs c \<Longrightarrow> loop_post pod pools c1 c' acc acc' = loop_post pod pools c c' acc acc'"
  by (simp add: loop_post_def)

lemma allocate_pools_loop_post:
  assumes "consistent_client api view" and "retries_on_conflict api retry" and "serving view (Some pa, s)"
    and "allocate_pools api retry pod cps pools acc (Some pa, s) = Returns acc' (Some pa', s')"
  shows "loop_post pod pools (view s) (view s') acc acc'"
  using assms(3,4)
proof (induction pools arbitrary: acc pa s)
  case Nil
  then show ?case by (simp add: loop_post_def)
next
  case (Cons p pools)
  obtain errs ok where acc: "acc = (errs, ok)" by (cases acc)
  obtain x s1 where f: "findExistingAllocation api p (pod_name pod) (pod_namespace pod) s = (x, s1)"
    by (cases "findExistingAllocation api p (pod_name pod) (pod_namespace pod) s")
  have v: "view s1 = view s" by (rule findExistingAllocation_view [OF assms(1) f])
  have s1: "serving view (Some pa, s1)" by (rule serving_view [OF Cons.prems(1) v])
  consider (err) e where "x = Inl e" | (found) a where "x = Inr (Some a)" | (none) "x = Inr None"
    by (cases x) (blast, metis option.exhaust)
  then show ?case
  proof cases
    case err
    with Cons.IH [OF s1] Cons.prems(2) f acc v show ?thesis by (auto intro: loop_post_failed)
  next
    case found
    with findExistingAllocation_Some [OF assms(1)] f v have "allocated (view s1) pod p" by simp
    with found Cons.IH [OF s1] Cons.prems(2) f acc v show ?thesis by (auto intro: loop_post_done)
  next
    case none
    from AllocatePort_carries [OF assms(1,2) s1, of p "''''" "pod_name pod" "pod_namespace pod" cps]
    obtain r pa2 s2 where
      run: "AllocatePort api retry p '''' (pod_name pod) (pod_namespace pod) cps pa s1 = Returns r (pa2, s2)"
      and s2: "serving view (Some pa2, s2)" by (auto simp: carries_def)
    have "pools_bounded (view s1)" using s1 by (simp add: serving_def)
    note done' = AllocatePort_allocates [OF assms(1,2) this run]
    show ?thesis
    proof (cases r)
      case (Inl e)
      with done' v have same: "cl_Allocs (view s2) = cl_Allocs (view s)" by simp
      have "allocate_pools api retry pod cps pools (errs @ [PoolFailed p e], ok) (Some pa2, s2) =
          Returns acc' (Some pa', s')"
        using Cons.prems(2) f none run Inl acc by simp
      from Cons.IH [OF s2 this] show ?thesis
        unfolding acc loop_post_allocs [OF same] by (rule loop_post_failed)
    next
      case (Inr a)
      with done' v have made: "allocated (view s2) pod p" "set (cl_Allocs (view s)) \<subseteq> set (cl_Allocs (view s2))"
        by simp_all
      have "allocate_pools api retry pod cps pools (errs, Suc ok) (Some pa2, s2) = Returns acc' (Some pa', s')"
        using Cons.prems(2) f none run Inr acc by simp
      from loop_post_done [OF Cons.IH [OF s2 this] made] show ?thesis unfolding acc .
    qed
  qed
qed

lemma all_allocations_exist_True:
  assumes "consistent_client api view" and "all_allocations_exist api pod pools s = (Inr True, s')"
  shows "\<forall>p\<in>set pools. allocated (view s) pod p"
  using assms(2)
proof (induction pools arbitrary: s)
  case Nil
  then show ?case by simp
next
  case (Cons p pools)
  from Cons.prems obtain a s1 where
    f: "findExistingAllocation api p (pod_name pod) (pod_namespace pod) s = (Inr (Some a), s1)"
    and rest: "all_allocations_exist api pod pools s1 = (Inr True, s')"
    by (auto split: prod.splits sum.splits option.splits)
  from Cons.IH [OF rest] findExistingAllocation_Some [OF assms(1) f] findExistingAllocation_view [OF assms(1) f]
  show ?case by simp
qed

section \<open>What the release loop achieves\<close>

lemma ReleasePort_clears:
  assumes "consistent_client api view" and "never_fails api view" and "removes api view" and "keys_distinct (view s)"
    and "ReleasePort api pool n pod ns pa s = Returns r (pa', s')"
  shows "(\<forall>a\<in>set (cl_Allocs (view s')). \<not> releasable pool n pod ns a) \<and>
    set (cl_Allocs (view s')) \<subseteq> set (cl_Allocs (view s)) \<and>
    (\<forall>a\<in>set (cl_Allocs (view s)). pod_of a \<noteq> (ns, pod) \<longrightarrow> a \<in> set (cl_Allocs (view s')))"
proof (cases "\<exists>a\<in>set (cl_Allocs (view s)). releasable pool n pod ns a")
  case True
  then obtain a where a: "a \<in> set (cl_Allocs (view s))" "releasable pool n pod ns a" by blast
  let ?k = "\<lparr>nn_Namespace = n, nn_Name = sprintf_dash pool pod\<rparr>"
  have key: "alloc_key a = ?k" using a(2) by (simp add: releasable_def)
  obtain x s1 where g: "kc_GetAllocation api ?k s = (x, s1)" by (cases "kc_GetAllocation api ?k s")
  have "x = Inr a"
  proof (cases x)
    case (Inl e)
    with g have g: "kc_GetAllocation api ?k s = (Inl e, s1)" by simp
    from assms(2) g have "kc_IsNotFound api e" unfolding never_fails_def by blast
    with assms(1) g have "?k \<notin> alloc_key ` set (cl_Allocs (view s))"
      unfolding consistent_client_def gets_current_def by blast
    with a(1) key show ?thesis by (metis imageI)
  next
    case (Inr b)
    with g have "kc_GetAllocation api ?k s = (Inr b, s1)" by simp
    note b = get_allocation_found [OF assms(1) this]
    have "b = a" using keys_distinctD [OF assms(4) b(1) a(1)] b(2) key by simp
    with Inr show ?thesis by simp
  qed
  with g have g: "kc_GetAllocation api ?k s = (Inr a, s1)" by simp
  have v: "view s1 = view s" by (rule get_allocation_view [OF assms(1) g])
  then have "alloc_key a \<in> alloc_key ` set (cl_Allocs (view s1))" using a(1) by simp
  from assms(3) [unfolded removes_def, rule_format, OF this] v obtain s2 where
    d: "kc_DeleteAllocation api a s1 = (Inr (), s2)" and v2: "view s2 = remove_key (alloc_key a) (view s)"
    by auto
  have "release_held api pool n pod ns s = (None, s2)" by (rule release_held_succeeds [OF g a(2) d])
  then have "s' = s2" using assms(5) by (simp add: ReleasePort_cases split: if_splits)
  moreover have "alloc_key b \<noteq> alloc_key a" if "b \<in> set (cl_Allocs (view s))" "pod_of b \<noteq> (ns, pod)" for b
    using keys_distinctD [OF assms(4) that(1) a(1)] that(2) a(2) by (auto simp: releasable_def)
  ultimately show ?thesis using v2 key by (auto simp: releasable_def)
next
  case False
  with ReleasePort_post [OF assms(1), of pool n pod ns pa s] assms(5) have "view s' = view s"
    by (auto simp: release_post_def split: option.splits)
  with False show ?thesis by auto
qed

lemma release_pools_clears:
  fixes api :: "('s, 'e) kube_client" and retry :: "('s alloc_vars, 'e error) retrier"
  assumes "consistent_client api view" and "retries_on_conflict api retry"
    and "never_fails api view" and "removes api view" and "serving view (Some pa, s)"
    and "release_pools api pod pools errs (Some pa, s) = Returns errs' (pa', s')"
  shows "(\<forall>p\<in>set pools. \<forall>a\<in>set (cl_Allocs (view s')). \<not> releasable p '''' (pod_name pod) (pod_namespace pod) a) \<and>
    set (cl_Allocs (view s')) \<subseteq> set (cl_Allocs (view s)) \<and>
    (\<forall>a\<in>set (cl_Allocs (view s)). pod_of a \<noteq> (pod_namespace pod, pod_name pod) \<longrightarrow> a \<in> set (cl_Allocs (view s')))"
  using assms(5,6)
proof (induction pools arbitrary: errs pa s)
  case Nil
  then show ?case by simp
next
  case (Cons p pools)
  from ReleasePort_carries [OF assms(1,2) Cons.prems(1), of p "''''" "pod_name pod" "pod_namespace pod"]
  obtain r pa1 s1 where run: "ReleasePort api p '''' (pod_name pod) (pod_namespace pod) pa s = Returns r (pa1, s1)"
    and s1: "serving view (Some pa1, s1)" by (auto simp: carries_def)
  have "keys_distinct (view s)" using Cons.prems(1) by (simp add: serving_def)
  note clear = ReleasePort_clears [OF assms(1,3,4) this run]
  have "(\<forall>p\<in>set pools. \<forall>a\<in>set (cl_Allocs (view s')). \<not> releasable p '''' (pod_name pod) (pod_namespace pod) a) \<and>
    set (cl_Allocs (view s')) \<subseteq> set (cl_Allocs (view s1)) \<and>
    (\<forall>a\<in>set (cl_Allocs (view s1)). pod_of a \<noteq> (pod_namespace pod, pod_name pod) \<longrightarrow> a \<in> set (cl_Allocs (view s')))"
    using Cons.IH [OF s1] Cons.prems(2) run by (cases r) auto
  with clear show ?case by (auto dest: subsetD)
qed

section \<open>Without an allocator\<close>

text \<open>
  cmd/main.go builds the reconciler with a client and a scheme only, so its Allocator is
  nil: this is the state it starts from.
\<close>

definition main_PodReconciler :: "'s \<Rightarrow> 's rec_state" where
  "main_PodReconciler s = (None, s)"

lemma findExistingAllocation_None:
  assumes "consistent_client api view" and "never_fails api view" and "\<not> allocated (view s) pod p"
  shows "\<exists>s'. findExistingAllocation api p (pod_name pod) (pod_namespace pod) s = (Inr None, s') \<and> view s' = view s"
proof -
  obtain r s' where f: "findExistingAllocation api p (pod_name pod) (pod_namespace pod) s = (r, s')"
    by (cases "findExistingAllocation api p (pod_name pod) (pod_namespace pod) s")
  have "\<exists>l t. kc_ListAllocations api [(LabelPoolNameKey, p), (LabelPodNameKey, pod_name pod)] (Some 100) s = (Inr l, t)"
    using assms(2) unfolding never_fails_def by blast
  with f have "\<exists>o'. r = Inr o'" by (auto simp: findExistingAllocation_def)
  with f findExistingAllocation_Some [OF assms(1)] assms(3) have "r = Inr None" by (metis option.exhaust)
  with f findExistingAllocation_view [OF assms(1) f] show ?thesis by blast
qed

lemma findExistingAllocation_Inr:
  assumes "consistent_client api view" and "never_fails api view"
  shows "\<exists>x s'. findExistingAllocation api p pod ns s = (Inr x, s') \<and> view s' = view s"
proof -
  obtain l t where "kc_ListAllocations api [(LabelPoolNameKey, p), (LabelPodNameKey, pod)] (Some 100) s = (Inr l, t)"
    using assms(2) unfolding never_fails_def by blast
  then show ?thesis using list_view [OF assms(1)] by (auto simp: findExistingAllocation_def)
qed

lemma not_all_exist:
  assumes "consistent_client api view" and "never_fails api view" and "\<exists>p\<in>set pools. \<not> allocated (view s) pod p"
  shows "\<exists>s'. all_allocations_exist api pod pools s = (Inr False, s') \<and> view s' = view s"
  using assms(3)
proof (induction pools arbitrary: s)
  case Nil
  then show ?case by simp
next
  case (Cons p pools)
  obtain x s1 where f: "findExistingAllocation api p (pod_name pod) (pod_namespace pod) s = (Inr x, s1)"
    and v: "view s1 = view s" using findExistingAllocation_Inr [OF assms(1,2)] by blast
  show ?case
  proof (cases x)
    case None
    with f v show ?thesis by simp
  next
    case (Some a)
    with f have "allocated (view s) pod p" using findExistingAllocation_Some [OF assms(1)] by blast
    with Cons.prems v have "\<exists>p\<in>set pools. \<not> allocated (view s1) pod p" by auto
    from Cons.IH [OF this] f Some v show ?thesis by auto
  qed
qed

lemma nil_allocate_pools:
  assumes "consistent_client api view" and "never_fails api view" and "\<exists>p\<in>set pools. \<not> allocated (view s) pod p"
  shows "\<exists>s'. allocate_pools api retry pod cps pools acc (None, s) = Panics (None, s') \<and> view s' = view s"
  using assms(3)
proof (induction pools arbitrary: acc s)
  case Nil
  then show ?case by simp
next
  case (Cons p pools)
  obtain errs ok where acc: "acc = (errs, ok)" by (cases acc)
  obtain x s1 where f: "findExistingAllocation api p (pod_name pod) (pod_namespace pod) s = (Inr x, s1)"
    and v: "view s1 = view s" using findExistingAllocation_Inr [OF assms(1,2)] by blast
  show ?case
  proof (cases x)
    case None
    with f v acc show ?thesis by simp
  next
    case (Some a)
    with f have "allocated (view s) pod p" using findExistingAllocation_Some [OF assms(1)] by blast
    with Cons.prems v have "\<exists>p\<in>set pools. \<not> allocated (view s1) pod p" by auto
    from Cons.IH [OF this] f Some v acc show ?thesis by auto
  qed
qed

section \<open>The stored pod\<close>

text \<open>The pod that is stored under the key, and no other one.\<close>

definition stored_pod :: "cluster \<Rightarrow> request \<Rightarrow> Pod \<Rightarrow> bool" where
  "stored_pod c req pod \<longleftrightarrow> pod \<in> set (cl_Pods c) \<and> meta_key (po_ObjectMeta pod) = req \<and>
     (\<forall>q\<in>set (cl_Pods c). meta_key (po_ObjectMeta q) = req \<longrightarrow> q = pod)"

lemma get_stored_pod:
  assumes "gets_pods api view" and "stored_pod (view s) req pod" and "kc_GetPod api req s = (r, s1)"
  shows "r = Inr pod \<or> (\<exists>e. r = Inl e \<and> \<not> kc_IsNotFound api e)"
proof (cases r)
  case (Inr p)
  with assms(1,3) have "p \<in> set (cl_Pods (view s))" "meta_key (po_ObjectMeta p) = req"
    unfolding gets_pods_def by blast+
  with assms(2) Inr show ?thesis by (simp add: stored_pod_def)
next
  case (Inl e)
  have "\<not> kc_IsNotFound api e"
  proof
    assume "kc_IsNotFound api e"
    with assms(1,3) Inl have "req \<notin> (\<lambda>p. meta_key (po_ObjectMeta p)) ` set (cl_Pods (view s))"
      unfolding gets_pods_def by blast
    with assms(2) show False by (auto simp: stored_pod_def)
  qed
  with Inl show ?thesis by blast
qed

lemma ensureFinalizer_sets:
  assumes "finalizer_laws fz" and "patches_pods api view"
    and "\<forall>q\<in>set (cl_Pods (view s)). meta_key (po_ObjectMeta q) = meta_key (po_ObjectMeta pod) \<longrightarrow> q = pod"
    and "ensureFinalizer fz api pod s = (None, s')"
    and "q \<in> set (cl_Pods (view s'))" and "meta_key (po_ObjectMeta q) = meta_key (po_ObjectMeta pod)"
  shows "ApolloNetworkFinalizer \<in> set (om_Finalizers (po_ObjectMeta q))"
proof (cases "ApolloNetworkFinalizer \<in> set (om_Finalizers (po_ObjectMeta pod))")
  case True
  with assms(1,4) have "s' = s" by (simp add: ensureFinalizer_def finalizer_laws_def)
  with assms(3,5,6) True show ?thesis by auto
next
  case False
  let ?new = "with_finalizers (om_Finalizers (po_ObjectMeta pod) @ [ApolloNetworkFinalizer]) pod"
  have "fz_Add fz pod ApolloNetworkFinalizer = ?new" "\<not> fz_Contains fz pod ApolloNetworkFinalizer"
    using assms(1) False by (simp_all add: finalizer_laws_def)
  with assms(4) obtain r where "kc_PatchPod api pod ?new s = (Inr r, s')"
    by (auto simp: ensureFinalizer_def split: prod.splits sum.splits)
  from patch_finalizers [OF assms(2) this assms(5)] assms(6) show ?thesis by simp
qed

lemma removeFinalizer_clears:
  assumes "finalizer_laws fz" and "patches_pods api view"
    and "\<forall>q\<in>set (cl_Pods (view s)). meta_key (po_ObjectMeta q) = meta_key (po_ObjectMeta pod) \<longrightarrow> q = pod"
    and "removeFinalizer fz api pod s = ((res, None), s')"
    and "q \<in> set (cl_Pods (view s'))" and "meta_key (po_ObjectMeta q) = meta_key (po_ObjectMeta pod)"
  shows "ApolloNetworkFinalizer \<notin> set (om_Finalizers (po_ObjectMeta q))"
proof (cases "ApolloNetworkFinalizer \<in> set (om_Finalizers (po_ObjectMeta pod))")
  case False
  with assms(1,4) have "s' = s" by (simp add: removeFinalizer_def finalizer_laws_def)
  with assms(3,5,6) False show ?thesis by auto
next
  case True
  let ?new = "with_finalizers (filter (\<lambda>g. g \<noteq> ApolloNetworkFinalizer) (om_Finalizers (po_ObjectMeta pod))) pod"
  have "fz_Remove fz pod ApolloNetworkFinalizer = ?new" "fz_Contains fz pod ApolloNetworkFinalizer"
    using assms(1) True by (simp_all add: finalizer_laws_def)
  with assms(4) obtain r where "kc_PatchPod api pod ?new s = (Inr r, s')"
    by (auto simp: removeFinalizer_def split: prod.splits sum.splits)
  from patch_finalizers [OF assms(2) this assms(5)] assms(6) show ?thesis by simp
qed

section \<open>The outcome for an active pod\<close>

lemma allocation_loop_outcome:
  assumes "consistent_client api view" and "retries_on_conflict api retry" and "patches_pods api view"
    and "finalizer_laws fz" and "serving view (Some pa, s)" and "pools \<noteq> []"
    and "\<forall>q\<in>set (cl_Pods (view s)). meta_key (po_ObjectMeta q) = meta_key (po_ObjectMeta pod) \<longrightarrow> q = pod"
    and "allocate_pools api retry pod cps pools ([], 0) (Some pa, s) = Returns (errs, ok) (Some pa', s2)"
    and "conclude_allocation fz api pod errs ok s2 = ((res, err), s')"
  shows "(err = None \<longrightarrow>
      (\<exists>p\<in>set pools. allocated (view s') pod p) \<and>
      (\<forall>q\<in>set (cl_Pods (view s')). meta_key (po_ObjectMeta q) = meta_key (po_ObjectMeta pod) \<longrightarrow>
         ApolloNetworkFinalizer \<in> set (om_Finalizers (po_ObjectMeta q)))) \<and>
    (\<forall>es. err = Some (AllAllocationsFailed es) \<longrightarrow> cl_Allocs (view s') = cl_Allocs (view s))"
proof (cases "ok = 0")
  case True
  have post: "loop_post pod pools (view s) (view s2) ([], 0) (errs, ok)"
    by (rule allocate_pools_loop_post [OF assms(1,2,5,8)])
  with True assms(6) have "errs \<noteq> []" "cl_Allocs (view s2) = cl_Allocs (view s)"
    by (auto simp: loop_post_def)
  with True assms(9) show ?thesis by (auto simp: conclude_allocation_def)
next
  case False
  have post: "loop_post pod pools (view s) (view s2) ([], 0) (errs, ok)"
    by (rule allocate_pools_loop_post [OF assms(1,2,5,8)])
  from allocate_pools_carries [OF assms(1,2,5), of pod cps pools "([], 0)"] assms(8)
  have pods: "cl_Pods (view s2) = cl_Pods (view s)" by (auto simp: carries_def)
  obtain e s3 where ens: "ensureFinalizer fz api pod s2 = (e, s3)" by (cases "ensureFinalizer fz api pod s2")
  have rest: "s' = s3" and err: "err = e"
    using assms(9) ens False by (auto simp: conclude_allocation_def split: option.splits)
  have "e \<noteq> Some (AllAllocationsFailed es)" for es
    using ens by (auto simp: ensureFinalizer_def split: if_splits prod.splits sum.splits)
  moreover have "ApolloNetworkFinalizer \<in> set (om_Finalizers (po_ObjectMeta q))"
    if "e = None" "q \<in> set (cl_Pods (view s3))" "meta_key (po_ObjectMeta q) = meta_key (po_ObjectMeta pod)" for q
    using ensureFinalizer_sets [OF assms(4,3) _ _ that(2,3), of s2] assms(7) pods ens that(1) by simp
  moreover have "\<exists>p\<in>set pools. allocated (view s3) pod p"
    using post False ensureFinalizer_rest [OF assms(3) ens] allocated_mono [of "view s2" "view s3" pod]
    by (auto simp: loop_post_def)
  ultimately show ?thesis unfolding rest err by blast
qed

lemma handlePodAllocation_cases:
  fixes api :: "('s, 'e) kube_client"
  assumes "consistent_client api view" and "retries_on_conflict api retry" and "serving view (Some pa, s)"
    and "handlePodAllocation fz api retry pod (Some pa, s) = Returns (res, err) (pa', s')"
  obtains (refused) e where "err = Some e" "view s' = view s"
  | (settled) pools s1 where "parseNetworkPools pod = (Inr pools :: 'e error + string list)"
      "all_allocations_exist api pod pools s = (Inr True, s1)" "view s1 = view s" "ensureFinalizer fz api pod s1 = (err, s')"
  | (loop) pools cps s1 errs ok pa2 s2 where "parseNetworkPools pod = (Inr pools :: 'e error + string list)"
      "view s1 = view s" "serving view (Some pa, s1)"
      "allocate_pools api retry pod cps pools ([], 0) (Some pa, s1) = Returns (errs, ok) (Some pa2, s2)"
      "conclude_allocation fz api pod errs ok s2 = ((res, err), s')"
proof (cases "parseNetworkPools pod :: 'e error + string list")
  case (Inl e)
  with assms(4) show ?thesis by (auto simp: handlePodAllocation_def intro: refused)
next
  case pools: (Inr pools)
  show ?thesis
  proof (cases "parseContainerPorts pod :: 'e error + PodPortAllocation list")
    case (Inl e)
    with pools assms(4) show ?thesis by (auto simp: handlePodAllocation_def intro: refused)
  next
    case cps: (Inr cps)
    obtain x s1 where ex: "all_allocations_exist api pod pools s = (x, s1)" by (cases "all_allocations_exist api pod pools s")
    have v1: "view s1 = view s" by (rule all_allocations_exist_view [OF assms(1) ex])
    have s1: "serving view (Some pa, s1)" by (rule serving_view [OF assms(3) v1])
    consider (err) e where "x = Inl e" | (all) "x = Inr True" | (some) "x = Inr False" by (cases x) auto
    then show ?thesis
    proof cases
      case err
      with assms(4) pools cps ex v1 show ?thesis by (auto simp: handlePodAllocation_def intro: refused)
    next
      case all
      obtain e s2 where "ensureFinalizer fz api pod s1 = (e, s2)" by (cases "ensureFinalizer fz api pod s1")
      with assms(4) pools cps ex all have "ensureFinalizer fz api pod s1 = (err, s')"
        by (cases e; simp add: handlePodAllocation_def finish_eq)
      with settled [OF pools] ex all v1 show ?thesis by blast
    next
      case some
      from allocate_pools_carries [OF assms(1,2) s1, of pod cps pools "([], 0)"] obtain errs ok pa2 s2 where
        run: "allocate_pools api retry pod cps pools ([], 0) (Some pa, s1) = Returns (errs, ok) (Some pa2, s2)"
        by (metis surj_pair)
      with assms(4) pools cps ex some have "conclude_allocation fz api pod errs ok s2 = ((res, err), s')"
        by (simp add: handlePodAllocation_def finish_def prod_eq_iff)
      from loop [OF pools v1 s1 run this] show ?thesis .
    qed
  qed
qed

lemma handlePodAllocation_outcome:
  assumes "consistent_client api view" and "retries_on_conflict api retry" and "patches_pods api view"
    and "finalizer_laws fz" and "serving view (Some pa, s)"
    and "\<forall>q\<in>set (cl_Pods (view s)). meta_key (po_ObjectMeta q) = meta_key (po_ObjectMeta pod) \<longrightarrow> q = pod"
    and "parseNetworkPools pod = (Inr pools :: 'e error + string list)"
    and "handlePodAllocation fz (api :: ('s, 'e) kube_client) retry pod (Some pa, s) = Returns (res, err) (pa', s')"
  shows "(err = None \<longrightarrow>
      (\<exists>p\<in>set pools. allocated (view s') pod p) \<and>
      (\<forall>q\<in>set (cl_Pods (view s')). meta_key (po_ObjectMeta q) = meta_key (po_ObjectMeta pod) \<longrightarrow>
         ApolloNetworkFinalizer \<in> set (om_Finalizers (po_ObjectMeta q)))) \<and>
    (\<forall>es. err = Some (AllAllocationsFailed es) \<longrightarrow> cl_Allocs (view s') = cl_Allocs (view s))"
  using assms(1,2,5,8)
proof (cases rule: handlePodAllocation_cases)
  case (settled pools' s1)
  have pools: "pools' = pools" "pools \<noteq> []" using settled(1) assms(7) parseNetworkPools_nonempty [OF assms(7)] by simp_all
  note rest = ensureFinalizer_rest [OF assms(3) settled(4)]
  have "allocated (view s') pod p" if "p \<in> set pools" for p
    using all_allocations_exist_True [OF assms(1) settled(2)] that pools(1) settled(3) rest
      allocated_mono [of "view s" "view s'" pod p] by simp
  moreover have "ApolloNetworkFinalizer \<in> set (om_Finalizers (po_ObjectMeta q))"
    if "err = None" "q \<in> set (cl_Pods (view s'))" "meta_key (po_ObjectMeta q) = meta_key (po_ObjectMeta pod)" for q
    using ensureFinalizer_sets [OF assms(4,3) _ _ that(2), of s1 pod] assms(6) settled(3,4) that(1,3) by simp
  ultimately show ?thesis using pools(2) rest settled(3) by (cases pools) auto
next
  case (loop pools' cps s1 errs ok pa2 s2)
  have "pools' = pools" "pools' \<noteq> []" using loop(1) assms(7) parseNetworkPools_nonempty [OF assms(7)] by simp_all
  with allocation_loop_outcome [OF assms(1-4) loop(3) _ _ loop(4,5)] assms(6) loop(2) show ?thesis by simp
qed simp

section \<open>The outcome for a pod that goes\<close>

lemma handlePodDeletion_outcome:
  fixes api :: "('s, 'e) kube_client" and retry :: "('s alloc_vars, 'e error) retrier"
  assumes "consistent_client api view" and "retries_on_conflict api retry" and "patches_pods api view"
    and "finalizer_laws fz" and "never_fails api view" and "removes api view" and "serving view (Some pa, s)"
    and "\<forall>q\<in>set (cl_Pods (view s)). meta_key (po_ObjectMeta q) = meta_key (po_ObjectMeta pod) \<longrightarrow> q = pod"
    and "ApolloNetworkFinalizer \<in> set (om_Finalizers (po_ObjectMeta pod))"
    and "parseNetworkPools pod = (Inr pools :: 'e error + string list)"
    and "handlePodDeletion fz api pod (Some pa, s) = Returns (res, None) (pa', s')"
  shows "(\<forall>p\<in>set pools. \<forall>a\<in>set (cl_Allocs (view s')). \<not> releasable p '''' (pod_name pod) (pod_namespace pod) a) \<and>
    (\<forall>q\<in>set (cl_Pods (view s')). meta_key (po_ObjectMeta q) = meta_key (po_ObjectMeta pod) \<longrightarrow>
       ApolloNetworkFinalizer \<notin> set (om_Finalizers (po_ObjectMeta q))) \<and>
    set (cl_Allocs (view s')) \<subseteq> set (cl_Allocs (view s)) \<and>
    (\<forall>a\<in>set (cl_Allocs (view s)). pod_of a \<noteq> (pod_namespace pod, pod_name pod) \<longrightarrow> a \<in> set (cl_Allocs (view s')))"
proof -
  from release_pools_carries [OF assms(1,2,7), of pod pools "[]"] obtain errs pa2 s2 where
    rel: "release_pools api pod pools [] (Some pa, s) = Returns errs (Some pa2, s2)"
    and c: "carries view s (Some pa2, s2)" by blast
  have "fz_Contains fz pod ApolloNetworkFinalizer" using assms(4,9) by (simp add: finalizer_laws_def)
  with assms(10,11) rel have fin: "removeFinalizer fz api pod s2 = ((res, None), s')"
    by (auto simp: handlePodDeletion_def finish_def prod_eq_iff)
  have one: "\<forall>q\<in>set (cl_Pods (view s2)). meta_key (po_ObjectMeta q) = meta_key (po_ObjectMeta pod) \<longrightarrow> q = pod"
    using assms(8) c by (simp add: carries_def)
  have "ApolloNetworkFinalizer \<notin> set (om_Finalizers (po_ObjectMeta q))"
    if "q \<in> set (cl_Pods (view s'))" "meta_key (po_ObjectMeta q) = meta_key (po_ObjectMeta pod)" for q
    by (rule removeFinalizer_clears [OF assms(4,3) one fin that])
  with release_pools_clears [OF assms(1,2,5,6,7) rel] removeFinalizer_rest [OF assms(3) fin] show ?thesis by simp
qed

section \<open>Properties\<close>

text \<open>A cluster with the demo pool and one stored pod.\<close>

definition pod_cluster :: "Pod \<Rightarrow> cluster" where
  "pod_cluster pod = demo_one\<lparr>cl_Pods := [pod]\<rparr>"

definition ports_pod :: "string \<Rightarrow> Pod" where
  "ports_pod nm = demo_pod nm (Some [(PodAnnotationEnableAllocKey, ''true''), (PodAnnotationNetworkPoolKey, ''p''),
     (PodAnnotationContainerPortsKey, ports_json [sample_port])])"

definition demo_key_of :: "string \<Rightarrow> request" where
  "demo_key_of nm = \<lparr>nn_Namespace = ''ns'', nn_Name = nm\<rparr>"

lemma pod_cluster_serving: "serving (\<lambda>c. c) (Some (NewPoolAllocator StrategyRoundRobin), pod_cluster pod)"
proof -
  have "pool_allocs (pod_cluster pod) pool = pool_allocs demo_one pool" for pool
    by (simp add: pod_cluster_def pool_allocs_def)
  then show ?thesis
    using demo_bounded demo_ledger_ok
    by (simp add: serving_def pools_bounded_def ledger_ok_def pool_ok_def keys_distinct_def pod_cluster_def
        mutex_held_def NewPoolAllocator_def go_simps)
qed

lemma pod_cluster_stored: "stored_pod (pod_cluster pod) (meta_key (po_ObjectMeta pod)) pod"
  by (simp add: stored_pod_def pod_cluster_def)

lemma ports_pod_annotations [simp]:
  "annotation (ports_pod nm) PodAnnotationNetworkPoolKey = Some ''p''"
  "annotation (ports_pod nm) PodAnnotationContainerPortsKey = Some (ports_json [sample_port])"
  "annotation (ports_pod nm) PodAnnotationEnableAllocKey = Some ''true''"
  "om_Annotations (po_ObjectMeta (ports_pod nm)) \<noteq> None"
  by (simp_all add: annotation_def ports_pod_def demo_pod_def)

lemma ports_pod_meta [simp]:
  "om_DeletionTimestamp (po_ObjectMeta (ports_pod nm)) = None" "pod_name (ports_pod nm) = nm"
  "pod_namespace (ports_pod nm) = ''ns''"
  by (simp_all add: ports_pod_def demo_pod_def zero_object_meta_def)

lemma ports_pod_pools: "parseNetworkPools (ports_pod nm) = (Inr [''p''] :: 'e error + string list)"
proof -
  have "clean [''p''] = [''p'']"
    using clean_plain [of "[''p'']"] by (simp add: plain_name_def graphic_def remdups_first_def)
  then show ?thesis
    by (subst parseNetworkPools_raw [of _ "''p''"]) (simp_all add: HasPrefix_def)
qed

lemma ports_pod_ports: "parseContainerPorts (ports_pod nm) = (Inr [sample_port] :: 'e error + PodPortAllocation list)"
proof -
  have "plain_port sample_port"
    by (simp add: plain_port_def sample_port_def ProtocolTCP_def plain_def code_def)
  then have "unmarshal_ports (ports_json [sample_port]) = Some [sample_port]"
    by (intro unmarshal_ports_json) simp
  moreover have "ports_json [sample_port] \<noteq> ''''" by (simp add: ports_json_def)
  ultimately show ?thesis by (simp add: parseContainerPorts_def)
qed

lemma ports_pod_managed: "shouldManagePod (ports_pod nm)"
  by (simp add: shouldManagePod_def)

text \<open>
  C10. Every reconcile of a pod returns: with an allocator, from a state where the ledger
  invariant holds and no mutex is held, PodReconciler's Reconcile neither waits for a
  mutex nor panics, whatever the pod holds in its annotations and whatever calls fail, and
  the state it returns in is of the same kind. So distinct pods of a pool keep holding
  disjoint slots over any sequence of reconciles.
\<close>

theorem pod_reconcile_serves:
  assumes "consistent_client api view" and "retries_on_conflict api retry" and "patches_pods api view"
    and "serving view (Some pa, s)"
  shows "\<exists>res pa' s'. PodReconciler_Reconcile fz api retry req (Some pa, s) = Returns res (Some pa', s') \<and>
    serving view (Some pa', s') \<and> exclusive (ledger_of (view s'))"
proof -
  from PodReconciler_returns [OF assms, of fz req] obtain res pa' s' where
    run: "PodReconciler_Reconcile fz api retry req (Some pa, s) = Returns res (Some pa', s')"
    and inv: "serving view (Some pa', s')" by blast
  from inv have "ledger_ok (view s')" by (simp add: serving_def)
  with run inv ledger_ok_exclusive show ?thesis by blast
qed

theorem pod_reconcile_serves_witness:
  "\<exists>res st. PodReconciler_Reconcile mem_finalizers mem_api mem_retry (demo_key_of ''b'')
      (Some (NewPoolAllocator StrategyRoundRobin), pod_cluster (ports_pod ''b'')) = Returns res st"
  using pod_reconcile_serves [OF mem_consistent mem_retries mem_patches_pods pod_cluster_serving] by blast

text \<open>
  C25. As cmd/main.go wires it, without an Allocator, the reconciler panics, with no effect
  on the cluster, on the first active pod that asks for ports in the usual way and lacks
  an allocation in one of its pools: the pod is marked for allocation, names its pools and
  its ports parse.
\<close>

theorem nil_allocator_panics:
  assumes "consistent_client api view" and "never_fails api view"
    and "kc_GetPod api req s = (Inr pod, s1)"
    and "shouldManagePod pod" and "om_DeletionTimestamp (po_ObjectMeta pod) = None"
    and "parseNetworkPools pod = (Inr pools :: 'e error + string list)"
    and "parseContainerPorts pod = (Inr cps :: 'e error + PodPortAllocation list)"
    and "\<exists>p\<in>set pools. \<not> allocated (view s) pod p"
  shows "\<exists>s'. PodReconciler_Reconcile fz (api :: ('s, 'e) kube_client) retry req (main_PodReconciler s) = Panics (None, s') \<and>
    view s' = view s"
proof -
  have v1: "view s1 = view s" by (rule get_pod_view [OF assms(1,3)])
  with not_all_exist [OF assms(1,2), where pools = pools and pod = pod and s = s1] assms(8) obtain s2 where
    ex: "all_allocations_exist api pod pools s1 = (Inr False, s2)" and v2: "view s2 = view s" by auto
  with nil_allocate_pools [OF assms(1,2), where pools = pools and pod = pod and s = s2 and retry = retry
      and cps = cps and acc = "([], 0)"] assms(8) obtain s3 where
    "allocate_pools api retry pod cps pools ([], 0) (None, s2) = Panics (None, s3)" "view s3 = view s" by auto
  with ex assms(3-7) show ?thesis
    by (simp add: PodReconciler_Reconcile_def main_PodReconciler_def handlePodAllocation_def)
qed

lemma mem_get_ports_pod:
  "mem_get_pod (demo_key_of nm) (pod_cluster (ports_pod nm)) = (Inr (ports_pod nm), pod_cluster (ports_pod nm))"
  by (simp add: mem_get_pod_def pod_cluster_def demo_key_of_def ports_pod_def demo_pod_def meta_key_def)

theorem nil_allocator_panics_witness:
  "\<exists>c. PodReconciler_Reconcile mem_finalizers mem_api mem_retry (demo_key_of ''b'')
     (main_PodReconciler (pod_cluster (ports_pod ''b''))) = Panics (None, c)"
proof -
  have get: "kc_GetPod mem_api (demo_key_of ''b'') (pod_cluster (ports_pod ''b'')) =
      (Inr (ports_pod ''b''), pod_cluster (ports_pod ''b''))"
    by (simp add: mem_get_ports_pod)
  have "pool_allocs (pod_cluster (ports_pod ''b'')) ''p'' = pool_allocs demo_one ''p''"
    by (simp add: pod_cluster_def pool_allocs_def)
  then have new: "\<exists>p\<in>set [''p'']. \<not> allocated (pod_cluster (ports_pod ''b'')) (ports_pod ''b'') p"
    by (simp add: allocated_def demo_pool_allocs demo_pod_of)
  from nil_allocator_panics [OF mem_consistent mem_never_fails get ports_pod_managed ports_pod_meta(1)
      ports_pod_pools ports_pod_ports new] show ?thesis by blast
qed

lemma demo_pod_call:
  "\<exists>a pa c. AllocatePort mem_api mem_retry ''p'' '''' ''b'' ''ns'' [sample_port]
      (NewPoolAllocator StrategyRoundRobin) (pod_cluster (ports_pod ''b'')) = Returns (Inr a) (pa, c)"
  by (simp add: pod_cluster_def call_eval attempt_eval demo_one_def demo_pool_def)

lemma demo_pod_none:
  "findExistingAllocation mem_api ''p'' ''b'' ''ns'' (pod_cluster (ports_pod ''b'')) =
     (Inr None, pod_cluster (ports_pod ''b''))"
  by (simp add: findExistingAllocation_def mem_list_def pod_cluster_def demo_one_def demo_cluster_def
      sample_alloc_def selected_by_def Let_def)

lemma demo_pod_run:
  "\<exists>pa c. PodReconciler_Reconcile mem_finalizers mem_api mem_retry (demo_key_of ''b'')
      (Some (NewPoolAllocator StrategyRoundRobin), pod_cluster (ports_pod ''b'')) = Returns (zero_result, None) (pa, c)"
proof -
  obtain a pa c where call: "AllocatePort mem_api mem_retry ''p'' '''' ''b'' ''ns'' [sample_port]
      (NewPoolAllocator StrategyRoundRobin) (pod_cluster (ports_pod ''b'')) = Returns (Inr a) (pa, c)"
    using demo_pod_call by blast
  have "fst (ensureFinalizer mem_finalizers mem_api (ports_pod ''b'') c) = None"
    by (simp add: ensureFinalizer_def mem_patch_pod_def)
  then obtain c' where "ensureFinalizer mem_finalizers mem_api (ports_pod ''b'') c = (None, c')"
    by (metis prod.collapse)
  then show ?thesis
    by (simp add: PodReconciler_Reconcile_def mem_get_ports_pod ports_pod_managed handlePodAllocation_def
        ports_pod_pools ports_pod_ports demo_pod_none call conclude_allocation_def finish_def)
qed

text \<open>
  C8. A reconcile of an active pod that reports no error has left the pod covered: the pod
  has an allocation in at least one of the pools it names, and every stored pod of that
  key carries the finalizer that makes its deletion release it. When it reports that all
  allocations failed, no allocation was stored.
\<close>

theorem pod_allocation_covered:
  assumes "consistent_client api view" and "retries_on_conflict api retry" and "patches_pods api view"
    and "gets_pods api view" and "finalizer_laws fz" and "serving view (Some pa, s)"
    and "stored_pod (view s) req pod" and "shouldManagePod pod" and "om_DeletionTimestamp (po_ObjectMeta pod) = None"
    and "parseNetworkPools pod = (Inr pools :: 'e error + string list)"
    and "PodReconciler_Reconcile fz (api :: ('s, 'e) kube_client) retry req (Some pa, s) = Returns (res, err) (pa', s')"
  shows "(err = None \<longrightarrow>
      (\<exists>p\<in>set pools. allocated (view s') pod p) \<and>
      (\<forall>q\<in>set (cl_Pods (view s')). meta_key (po_ObjectMeta q) = req \<longrightarrow>
         ApolloNetworkFinalizer \<in> set (om_Finalizers (po_ObjectMeta q)))) \<and>
    (\<forall>es. err = Some (AllAllocationsFailed es) \<longrightarrow> cl_Allocs (view s') = cl_Allocs (view s))"
proof -
  obtain r s1 where g: "kc_GetPod api req s = (r, s1)" by (cases "kc_GetPod api req s")
  have v1: "view s1 = view s" by (rule get_pod_view [OF assms(1) g])
  have s1: "serving view (Some pa, s1)" by (rule serving_view [OF assms(6) v1])
  have key: "meta_key (po_ObjectMeta pod) = req" and
    one: "\<forall>q\<in>set (cl_Pods (view s1)). meta_key (po_ObjectMeta q) = meta_key (po_ObjectMeta pod) \<longrightarrow> q = pod"
    using assms(7) v1 by (simp_all add: stored_pod_def)
  from get_stored_pod [OF assms(4,7) g] consider "r = Inr pod" | e where "r = Inl e" "\<not> kc_IsNotFound api e" by blast
  then show ?thesis
  proof cases
    case 1
    with g assms(8,9,11) have "handlePodAllocation fz api retry pod (Some pa, s1) = Returns (res, err) (pa', s')"
      by (simp add: PodReconciler_Reconcile_def)
    from handlePodAllocation_outcome [OF assms(1-3,5) s1 one assms(10) this] key v1 show ?thesis by simp
  qed (use g assms(11) in \<open>auto simp: PodReconciler_Reconcile_def\<close>)
qed

theorem pod_allocation_covered_witness:
  "\<exists>pa c. PodReconciler_Reconcile mem_finalizers mem_api mem_retry (demo_key_of ''b'')
      (Some (NewPoolAllocator StrategyRoundRobin), pod_cluster (ports_pod ''b'')) = Returns (zero_result, None) (pa, c) \<and>
    allocated c (ports_pod ''b'') ''p''"
proof -
  have stored: "stored_pod (pod_cluster (ports_pod ''b'')) (demo_key_of ''b'') (ports_pod ''b'')"
    using pod_cluster_stored [of "ports_pod ''b''"] by (simp add: demo_key_of_def meta_key_def)
  obtain pa c where run: "PodReconciler_Reconcile mem_finalizers mem_api mem_retry (demo_key_of ''b'')
      (Some (NewPoolAllocator StrategyRoundRobin), pod_cluster (ports_pod ''b'')) = Returns (zero_result, None) (pa, c)"
    using demo_pod_run by blast
  from pod_allocation_covered [OF mem_consistent mem_retries mem_patches_pods mem_gets_pods mem_finalizer_laws
      pod_cluster_serving stored ports_pod_managed ports_pod_meta(1) ports_pod_pools run] run
  show ?thesis by simp
qed

text \<open>
  C9. A reconcile of a pod that is being deleted and carries the finalizer, when it reports
  no error, has released the pod: no allocation that a release of the pod may delete is
  left in any of the pools it names, and no stored pod of that key has the finalizer any
  more, so the deletion can go on. Nothing was allocated, and every allocation of another
  pod is still there.
\<close>

theorem pod_deletion_releases:
  assumes "consistent_client api view" and "retries_on_conflict api retry" and "patches_pods api view"
    and "gets_pods api view" and "finalizer_laws fz" and "never_fails api view" and "removes api view"
    and "serving view (Some pa, s)" and "stored_pod (view s) req pod"
    and "shouldManagePod pod" and "om_DeletionTimestamp (po_ObjectMeta pod) \<noteq> None"
    and "ApolloNetworkFinalizer \<in> set (om_Finalizers (po_ObjectMeta pod))"
    and "parseNetworkPools pod = (Inr pools :: 'e error + string list)"
    and "PodReconciler_Reconcile fz (api :: ('s, 'e) kube_client) retry req (Some pa, s) = Returns (res, None) (pa', s')"
  shows "(\<forall>p\<in>set pools. \<forall>a\<in>set (cl_Allocs (view s')). \<not> releasable p '''' (pod_name pod) (pod_namespace pod) a) \<and>
    (\<forall>q\<in>set (cl_Pods (view s')). meta_key (po_ObjectMeta q) = req \<longrightarrow>
       ApolloNetworkFinalizer \<notin> set (om_Finalizers (po_ObjectMeta q))) \<and>
    set (cl_Allocs (view s')) \<subseteq> set (cl_Allocs (view s)) \<and>
    (\<forall>a\<in>set (cl_Allocs (view s)). pod_of a \<noteq> (pod_namespace pod, pod_name pod) \<longrightarrow> a \<in> set (cl_Allocs (view s')))"
proof -
  obtain r s1 where g: "kc_GetPod api req s = (r, s1)" by (cases "kc_GetPod api req s")
  have v1: "view s1 = view s" by (rule get_pod_view [OF assms(1) g])
  have s1: "serving view (Some pa, s1)" by (rule serving_view [OF assms(8) v1])
  from get_stored_pod [OF assms(4,9) g] assms(14) g have r: "r = Inr pod"
    by (auto simp: PodReconciler_Reconcile_def)
  with g assms(10,11,14) have run: "handlePodDeletion fz api pod (Some pa, s1) = Returns (res, None) (pa', s')"
    by (simp add: PodReconciler_Reconcile_def)
  have one: "\<forall>q\<in>set (cl_Pods (view s1)). meta_key (po_ObjectMeta q) = meta_key (po_ObjectMeta pod) \<longrightarrow> q = pod"
    and key: "meta_key (po_ObjectMeta pod) = req" using assms(9) v1 by (simp_all add: stored_pod_def)
  from handlePodDeletion_outcome [OF assms(1-3,5-7) s1 one assms(12,13) run] v1 key show ?thesis by simp
qed

definition leaving_pod :: "string \<Rightarrow> Pod" where
  "leaving_pod nm = (ports_pod nm)\<lparr>po_ObjectMeta := (po_ObjectMeta (ports_pod nm))
     \<lparr>om_DeletionTimestamp := Some 7, om_Finalizers := [ApolloNetworkFinalizer]\<rparr>\<rparr>"

lemma leaving_pod_call:
  "\<exists>pa c. ReleasePort mem_api ''p'' '''' ''a'' ''ns'' (NewPoolAllocator StrategyRoundRobin)
      (pod_cluster (leaving_pod ''a'')) = Returns None (pa, c)"
  by (simp add: pod_cluster_def ReleasePort_cases release_held_def call_eval attempt_eval demo_one_def)

lemma leaving_pod_meta [simp]:
  "om_DeletionTimestamp (po_ObjectMeta (leaving_pod nm)) = Some 7"
  "om_Finalizers (po_ObjectMeta (leaving_pod nm)) = [ApolloNetworkFinalizer]"
  "pod_name (leaving_pod nm) = nm" "pod_namespace (leaving_pod nm) = ''ns''"
  "om_Annotations (po_ObjectMeta (leaving_pod nm)) = om_Annotations (po_ObjectMeta (ports_pod nm))"
  "annotation (leaving_pod nm) k = annotation (ports_pod nm) k"
  by (simp_all add: leaving_pod_def annotation_def)

lemma leaving_pod_facts:
  "shouldManagePod (leaving_pod nm)"
  "parseNetworkPools (leaving_pod nm) = (Inr [''p''] :: 'e error + string list)"
  "mem_get_pod (demo_key_of nm) (pod_cluster (leaving_pod nm)) = (Inr (leaving_pod nm), pod_cluster (leaving_pod nm))"
proof -
  show "shouldManagePod (leaving_pod nm)"
    by (simp add: shouldManagePod_def)
  show "parseNetworkPools (leaving_pod nm) = (Inr [''p''] :: 'e error + string list)"
    using ports_pod_pools [of nm, where 'e = 'e] by (simp add: parseNetworkPools_def)
  show "mem_get_pod (demo_key_of nm) (pod_cluster (leaving_pod nm)) = (Inr (leaving_pod nm), pod_cluster (leaving_pod nm))"
    by (simp add: mem_get_pod_def pod_cluster_def demo_key_of_def meta_key_def)
qed

theorem pod_deletion_releases_witness:
  "\<exists>pa c. PodReconciler_Reconcile mem_finalizers mem_api mem_retry (demo_key_of ''a'')
      (Some (NewPoolAllocator StrategyRoundRobin), pod_cluster (leaving_pod ''a'')) = Returns (zero_result, None) (pa, c) \<and>
    (\<forall>a\<in>set (cl_Allocs c). \<not> releasable ''p'' '''' ''a'' ''ns'' a)"
proof -
  have stored: "stored_pod (pod_cluster (leaving_pod ''a'')) (demo_key_of ''a'') (leaving_pod ''a'')"
    using pod_cluster_stored [of "leaving_pod ''a''"] by (simp add: demo_key_of_def meta_key_def)
  obtain pa c where call: "ReleasePort mem_api ''p'' '''' ''a'' ''ns'' (NewPoolAllocator StrategyRoundRobin)
      (pod_cluster (leaving_pod ''a'')) = Returns None (pa, c)"
    using leaving_pod_call by blast
  have "fst (removeFinalizer mem_finalizers mem_api (leaving_pod ''a'') c) = (zero_result, None)"
    by (simp add: removeFinalizer_def mem_patch_pod_def)
  then obtain c' where fin: "removeFinalizer mem_finalizers mem_api (leaving_pod ''a'') c = ((zero_result, None), c')"
    by (metis prod.collapse)
  have run: "PodReconciler_Reconcile mem_finalizers mem_api mem_retry (demo_key_of ''a'')
      (Some (NewPoolAllocator StrategyRoundRobin), pod_cluster (leaving_pod ''a'')) = Returns (zero_result, None) (Some pa, c')"
    by (simp add: PodReconciler_Reconcile_def leaving_pod_facts handlePodDeletion_def call fin finish_def
        mem_contains)
  from pod_deletion_releases [OF mem_consistent mem_retries mem_patches_pods mem_gets_pods mem_finalizer_laws
      mem_never_fails mem_removes pod_cluster_serving stored leaving_pod_facts(1) _ _ leaving_pod_facts(2) run] run
  show ?thesis by simp
qed

text \<open>
  A pod that is not marked for allocation is left alone: Reconcile returns at once with
  no effect, whatever finalizers the pod has. The check comes before the one for deletion,
  so a pod that was marked when its ports were allocated and is not any more is never
  released: it keeps the finalizer and its allocation, and its deletion never completes.
\<close>

theorem unmanaged_pod_ignored:
  assumes "consistent_client api view" and "kc_GetPod api req s = (Inr pod, s1)" and "\<not> shouldManagePod pod"
  shows "PodReconciler_Reconcile fz api retry req (pa, s) = Returns (zero_result, None) (pa, s1) \<and> view s1 = view s"
  using assms get_pod_view [OF assms(1,2)] by (simp add: PodReconciler_Reconcile_def)

definition unmarked_pod :: Pod where
  "unmarked_pod = (leaving_pod ''a'')\<lparr>po_ObjectMeta := (po_ObjectMeta (leaving_pod ''a''))
     \<lparr>om_Annotations := Some [(PodAnnotationNetworkPoolKey, ''p'')]\<rparr>\<rparr>"

theorem unmanaged_pod_ignored_witness:
  "PodReconciler_Reconcile mem_finalizers mem_api mem_retry (demo_key_of ''a'')
     (Some (NewPoolAllocator StrategyRoundRobin), pod_cluster unmarked_pod) =
       Returns (zero_result, None) (Some (NewPoolAllocator StrategyRoundRobin), pod_cluster unmarked_pod) \<and>
   om_DeletionTimestamp (po_ObjectMeta unmarked_pod) \<noteq> None \<and>
   om_Finalizers (po_ObjectMeta unmarked_pod) = [ApolloNetworkFinalizer] \<and>
   allocated (pod_cluster unmarked_pod) unmarked_pod ''p''"
proof -
  have meta: "om_DeletionTimestamp (po_ObjectMeta unmarked_pod) = Some 7"
    "om_Finalizers (po_ObjectMeta unmarked_pod) = [ApolloNetworkFinalizer]"
    "pod_name unmarked_pod = ''a''" "pod_namespace unmarked_pod = ''ns''"
    by (simp_all add: unmarked_pod_def)
  have get: "kc_GetPod mem_api (demo_key_of ''a'') (pod_cluster unmarked_pod) = (Inr unmarked_pod, pod_cluster unmarked_pod)"
    by (simp add: mem_get_pod_def pod_cluster_def demo_key_of_def meta_key_def meta)
  have "annotation unmarked_pod PodAnnotationEnableAllocKey = None"
    by (simp add: annotation_def unmarked_pod_def)
  then have "\<not> shouldManagePod unmarked_pod" by (simp add: shouldManagePod_def)
  from unmanaged_pod_ignored [OF mem_consistent get this] 
  have "PodReconciler_Reconcile mem_finalizers mem_api mem_retry (demo_key_of ''a'')
     (Some (NewPoolAllocator StrategyRoundRobin), pod_cluster unmarked_pod) =
       Returns (zero_result, None) (Some (NewPoolAllocator StrategyRoundRobin), pod_cluster unmarked_pod)" by blast
  moreover have "pool_allocs (pod_cluster unmarked_pod) ''p'' = pool_allocs demo_one ''p''"
    by (simp add: pod_cluster_def pool_allocs_def)
  then have "allocated (pod_cluster unmarked_pod) unmarked_pod ''p''"
    by (simp add: allocated_def demo_pool_allocs demo_pod_of meta)
  ultimately show ?thesis using meta by simp
qed

end
