(* ===== verification/PodTransform.thy ===== *)
theory PodTransform
  imports PodReconciler
begin

text \<open>
  internal/controller/pod\_controller.go, the cache transform: what is kept of a pod to save
  memory, and that the reconciler decides the same on what is kept. In cmd/main.go,
  \<open>SetupPodCacheTransform\<close> offers it as a cache option for pods.
\<close>

section \<open>The operations\<close>

text \<open>\<open>if val, exists := annotations[k]; exists { relevant[k] = val }\<close>\<close>

definition keep_annotation ::
  "(string, string) gomap \<Rightarrow> string \<Rightarrow> (string, string) gomap \<Rightarrow> (string, string) gomap" where
  "keep_annotation annotations k relevant =
     (case map_of annotations k of None \<Rightarrow> relevant | Some val \<Rightarrow> gm_put k val relevant)"

definition filterRelevantAnnotations :: "(string, string) gomap option \<Rightarrow> (string, string) gomap option" where
  "filterRelevantAnnotations annotations =
     (case annotations of
        None \<Rightarrow> None
      | Some m \<Rightarrow>
          let relevant = keep_annotation m PodAnnotationContainerPortsKey
                (keep_annotation m PodAnnotationNetworkPoolKey
                  (keep_annotation m PodAnnotationEnableAllocKey []))
          in if length relevant = 0 then None else Some relevant)"

definition zero_container :: Container where
  "zero_container = \<lparr>ct_Name = '''', ct_Image = '''', ct_Command = [], ct_Args = [], ct_Env = [], ct_Ports = []\<rparr>"

definition transformContainers :: "Container list \<Rightarrow> Container list" where
  "transformContainers containers =
     (if length containers = 0 then []
      else map (\<lambda>container. zero_container\<lparr>ct_Name := ct_Name container, ct_Ports := ct_Ports container\<rparr>) containers)"

definition transform_pod :: "Pod \<Rightarrow> Pod" where
  "transform_pod pod =
     (let m = po_ObjectMeta pod in
      \<lparr>po_TypeMeta = po_TypeMeta pod,
       po_ObjectMeta = zero_object_meta
         \<lparr>om_Name := om_Name m, om_Namespace := om_Namespace m, om_UID := om_UID m,
          om_ResourceVersion := om_ResourceVersion m, om_Generation := om_Generation m,
          om_DeletionTimestamp := om_DeletionTimestamp m, om_Finalizers := om_Finalizers m,
          om_Annotations := filterRelevantAnnotations (om_Annotations m), om_Labels := om_Labels m\<rparr>,
       po_Spec = \<lparr>psp_Containers = transformContainers (psp_Containers (po_Spec pod)), psp_InitContainers = [],
         psp_NodeName = '''', psp_ServiceAccountName = '''', psp_RestartPolicy = ''''\<rparr>,
       po_Status = \<lparr>pst_Phase = pst_Phase (po_Status pod), pst_PodIP = '''', pst_HostIP = '''', pst_Message = ''''\<rparr>\<rparr>)"

text \<open>An object that is no pod is returned as it is; there is never an error.\<close>

definition PodTransform :: "api_object \<Rightarrow> api_object" where
  "PodTransform obj = (case obj of PodObject pod \<Rightarrow> PodObject (transform_pod pod) | _ \<Rightarrow> obj)"

definition SetupPodCacheTransform :: "string \<Rightarrow> (api_object \<Rightarrow> api_object) option" where
  "SetupPodCacheTransform kind = (if kind = ''Pod'' then Some PodTransform else None)"

section \<open>What is kept\<close>

lemma keep_annotation_lookup:
  "map_of (keep_annotation m k r) j = (if j = k \<and> map_of m k \<noteq> None then map_of m k else map_of r j)"
  by (auto simp: keep_annotation_def go_simps split: option.splits)

definition relevant_keys :: "string set" where
  "relevant_keys = {PodAnnotationEnableAllocKey, PodAnnotationNetworkPoolKey, PodAnnotationContainerPortsKey}"

lemma filterRelevantAnnotations_lookup:
  "(case filterRelevantAnnotations anns of None \<Rightarrow> None | Some r \<Rightarrow> map_of r k) =
     (if k \<in> relevant_keys then (case anns of None \<Rightarrow> None | Some m \<Rightarrow> map_of m k) else None)"
proof (cases anns)
  case None
  then show ?thesis by (simp add: filterRelevantAnnotations_def)
next
  case (Some m)
  let ?r = "keep_annotation m PodAnnotationContainerPortsKey
    (keep_annotation m PodAnnotationNetworkPoolKey (keep_annotation m PodAnnotationEnableAllocKey []))"
  have "map_of ?r k = (if k \<in> relevant_keys then map_of m k else None)"
    by (auto simp: keep_annotation_lookup relevant_keys_def)
  moreover have "(case (if length ?r = 0 then None else Some ?r) of None \<Rightarrow> None | Some r \<Rightarrow> map_of r k) = map_of ?r k"
    by (cases ?r) auto
  ultimately show ?thesis by (simp only: Some filterRelevantAnnotations_def option.case Let_def)
qed

lemma annotation_transform:
  "annotation (transform_pod pod) k = (if k \<in> relevant_keys then annotation pod k else None)"
  using filterRelevantAnnotations_lookup [of k "om_Annotations (po_ObjectMeta pod)"]
  by (simp add: annotation_def transform_pod_def Let_def)

lemma shouldManagePod_annotations:
  "shouldManagePod pod \<longleftrightarrow>
     annotation pod PodAnnotationEnableAllocKey = Some ''true'' \<and> annotation pod PodAnnotationNetworkPoolKey \<noteq> None"
  by (auto simp: shouldManagePod_def annotation_def split: option.splits)

lemma transformContainers_ports [simp]: "map ct_Ports (transformContainers cs) = map ct_Ports cs"
  by (simp add: transformContainers_def zero_container_def)

lemma transformContainers_idem [simp]: "transformContainers (transformContainers cs) = transformContainers cs"
  by (simp add: transformContainers_def zero_container_def)

lemma filterRelevantAnnotations_idem:
  "filterRelevantAnnotations (filterRelevantAnnotations anns) = filterRelevantAnnotations anns"
proof (cases anns)
  case None
  then show ?thesis by (simp add: filterRelevantAnnotations_def)
next
  case (Some m)
  then show ?thesis
    by (cases "map_of m PodAnnotationEnableAllocKey"; cases "map_of m PodAnnotationNetworkPoolKey";
        cases "map_of m PodAnnotationContainerPortsKey")
      (simp_all add: filterRelevantAnnotations_def keep_annotation_def)
qed

section \<open>The reconciler decides the same\<close>

lemma spec_ports_transform [simp]: "spec_ports (transform_pod pod) = spec_ports pod"
proof -
  have "map ct_Ports (psp_Containers (po_Spec (transform_pod pod))) = map ct_Ports (psp_Containers (po_Spec pod))"
    by (simp add: transform_pod_def Let_def)
  then show ?thesis by (simp only: spec_ports_concat)
qed

lemma transform_decisions [simp]:
  "shouldManagePod (transform_pod pod) = shouldManagePod pod"
  "parseNetworkPools (transform_pod pod) = parseNetworkPools pod"
  "parseContainerPorts (transform_pod pod) = parseContainerPorts pod"
  by (simp_all add: shouldManagePod_annotations parseNetworkPools_def parseContainerPorts_def annotation_transform
      relevant_keys_def split: option.splits)

lemma transform_meta [simp]:
  "om_Name (po_ObjectMeta (transform_pod pod)) = om_Name (po_ObjectMeta pod)"
  "om_Namespace (po_ObjectMeta (transform_pod pod)) = om_Namespace (po_ObjectMeta pod)"
  "om_DeletionTimestamp (po_ObjectMeta (transform_pod pod)) = om_DeletionTimestamp (po_ObjectMeta pod)"
  "om_Finalizers (po_ObjectMeta (transform_pod pod)) = om_Finalizers (po_ObjectMeta pod)"
  "meta_key (po_ObjectMeta (transform_pod pod)) = meta_key (po_ObjectMeta pod)"
  by (simp_all add: transform_pod_def Let_def meta_key_def)

lemma transform_pod_idem [simp]: "transform_pod (transform_pod p) = transform_pod p"
  by (simp add: transform_pod_def Let_def filterRelevantAnnotations_idem)

text \<open>
  A merge patch between two versions of a pod that differ in their finalizers only sends
  the new finalizers to the pod's key, so whether it fails and what it changes depend on
  nothing else.
\<close>

fun patch_outcome :: "('e + 'a) \<times> 's \<Rightarrow> 'e option \<times> 's" where
  "patch_outcome (Inl e, s) = (Some e, s)"
| "patch_outcome (Inr _, s) = (None, s)"

definition patches_finalizers_only :: "('s, 'e) kube_client \<Rightarrow> bool" where
  "patches_finalizers_only api \<longleftrightarrow>
     (\<forall>p q fs s. meta_key (po_ObjectMeta p) = meta_key (po_ObjectMeta q) \<longrightarrow>
        om_Finalizers (po_ObjectMeta p) = om_Finalizers (po_ObjectMeta q) \<longrightarrow>
        patch_outcome (kc_PatchPod api p (with_finalizers fs p) s) =
          patch_outcome (kc_PatchPod api q (with_finalizers fs q) s))"

lemma patch_case:
  "(case X of (Inl e, s) \<Rightarrow> F e s | (Inr _, s) \<Rightarrow> G s) = (case patch_outcome X of (Some e, s) \<Rightarrow> F e s | (None, s) \<Rightarrow> G s)"
  by (cases X rule: patch_outcome.cases) simp_all

text \<open>The client of a manager whose cache transforms pods: a get returns the transformed pod.\<close>

definition cached :: "(api_object \<Rightarrow> api_object) \<Rightarrow> ('s, 'e) kube_client \<Rightarrow> ('s, 'e) kube_client" where
  "cached transform api = api\<lparr>kc_GetPod := (\<lambda>k s.
     case kc_GetPod api k s of
       (Inl err, s1) \<Rightarrow> (Inl err, s1)
     | (Inr pod, s1) \<Rightarrow> (case transform (PodObject pod) of PodObject q \<Rightarrow> (Inr q, s1) | _ \<Rightarrow> (Inr pod, s1)))\<rparr>"

lemma cached_sel [simp]:
  "kc_GetPool (cached f api) = kc_GetPool api" "kc_GetAllocation (cached f api) = kc_GetAllocation api"
  "kc_ListAllocations (cached f api) = kc_ListAllocations api"
  "kc_CreateAllocation (cached f api) = kc_CreateAllocation api"
  "kc_DeleteAllocation (cached f api) = kc_DeleteAllocation api" "kc_PatchPod (cached f api) = kc_PatchPod api"
  "kc_IsNotFound (cached f api) = kc_IsNotFound api" "kc_Now (cached f api) = kc_Now api"
  by (simp_all add: cached_def)

lemma cached_allocator [simp]:
  "AllocatePort (cached f api) retry pool n pod ns cps pa s = AllocatePort api retry pool n pod ns cps pa s"
  "ReleasePort (cached f api) pool n pod ns pa s = ReleasePort api pool n pod ns pa s"
proof -
  have "checkForDuplicateAllocation (cached f api) = checkForDuplicateAllocation api"
    "getPoolAndAllocations (cached f api) = getPoolAndAllocations api"
    "createAllocation (cached f api) = createAllocation api"
    unfolding fun_eq_iff checkForDuplicateAllocation_def getPoolAndAllocations_def createAllocation_def cached_sel
    by blast+
  note steps = this
  have try_same: "tryAllocatePort (cached f api) = tryAllocatePort api"
    unfolding fun_eq_iff tryAllocatePort_def steps cached_sel by blast
  have "allocate_attempt (cached f api) = allocate_attempt api"
    unfolding fun_eq_iff allocate_attempt_def try_same steps by blast
  then show "AllocatePort (cached f api) retry pool n pod ns cps pa s = AllocatePort api retry pool n pod ns cps pa s"
    unfolding AllocatePort_def by (rule arg_cong)
  show "ReleasePort (cached f api) pool n pod ns pa s = ReleasePort api pool n pod ns pa s"
    unfolding ReleasePort_def release_held_def cached_sel by (rule refl)
qed

lemma cached_find [simp]:
  "findExistingAllocation (cached f api) p pod ns s = findExistingAllocation api p pod ns s"
  unfolding findExistingAllocation_def cached_sel by (rule refl)

lemma all_allocations_exist_cached [simp]:
  "all_allocations_exist (cached f api) (transform_pod pod) pools s = all_allocations_exist api pod pools s"
  by (induction pools arbitrary: s) (simp_all split: prod.splits sum.splits option.splits)

lemma allocate_pools_cached [simp]:
  "allocate_pools (cached f api) retry (transform_pod pod) cps pools acc st = allocate_pools api retry pod cps pools acc st"
proof (induction pools arbitrary: acc st)
  case Nil
  then show ?case by simp
next
  case (Cons p pools)
  obtain errs ok pa s where "acc = (errs, ok)" "st = (pa, s)" by (cases acc; cases st)
  then show ?case by (simp add: Cons.IH split: prod.splits sum.splits option.splits go.splits)
qed

lemma release_pools_cached [simp]:
  "release_pools (cached f api) (transform_pod pod) pools errs st = release_pools api pod pools errs st"
proof (induction pools arbitrary: errs st)
  case Nil
  then show ?case by simp
next
  case (Cons p pools)
  obtain pa s where "st = (pa, s)" by (cases st)
  then show ?case by (cases pa) (simp_all add: Cons.IH split: prod.splits option.splits go.splits)
qed

lemma patch_transformed:
  assumes "patches_finalizers_only api"
  shows "patch_outcome (kc_PatchPod api (transform_pod pod) (with_finalizers fs (transform_pod pod)) s) =
    patch_outcome (kc_PatchPod api pod (with_finalizers fs pod) s)"
  by (rule assms [unfolded patches_finalizers_only_def, rule_format, OF transform_meta(5) transform_meta(4)])

lemma ensureFinalizer_cached:
  assumes "finalizer_laws fz" and "patches_finalizers_only api"
  shows "ensureFinalizer fz (cached f api) (transform_pod pod) s = ensureFinalizer fz api pod s"
proof -
  have fz: "fz_Contains fz p x \<longleftrightarrow> x \<in> set (om_Finalizers (po_ObjectMeta p))"
    "fz_Add fz p x = (if x \<in> set (om_Finalizers (po_ObjectMeta p)) then p
       else with_finalizers (om_Finalizers (po_ObjectMeta p) @ [x]) p)"
    "fz_Remove fz p x = with_finalizers (filter (\<lambda>g. g \<noteq> x) (om_Finalizers (po_ObjectMeta p))) p" for p x
    using assms(1) unfolding finalizer_laws_def by blast+
  show ?thesis
    by (simp add: ensureFinalizer_def fz patch_case [where X = "kc_PatchPod api p q t" for p q t] patch_transformed [OF assms(2)])
qed

lemma removeFinalizer_cached:
  assumes "finalizer_laws fz" and "patches_finalizers_only api"
  shows "removeFinalizer fz (cached f api) (transform_pod pod) s = removeFinalizer fz api pod s"
proof -
  have fz: "fz_Contains fz p x \<longleftrightarrow> x \<in> set (om_Finalizers (po_ObjectMeta p))"
    "fz_Add fz p x = (if x \<in> set (om_Finalizers (po_ObjectMeta p)) then p
       else with_finalizers (om_Finalizers (po_ObjectMeta p) @ [x]) p)"
    "fz_Remove fz p x = with_finalizers (filter (\<lambda>g. g \<noteq> x) (om_Finalizers (po_ObjectMeta p))) p" for p x
    using assms(1) unfolding finalizer_laws_def by blast+
  show ?thesis
    by (simp add: removeFinalizer_def fz patch_case [where X = "kc_PatchPod api p q t" for p q t] patch_transformed [OF assms(2)])
qed

section \<open>Property\<close>

text \<open>
  C11. The cache transform loses nothing the controller needs: a reconcile that reads the
  transformed pods returns the same result, panics or waits at the same point and leaves
  the same state as one that reads the whole pods, for every request, state and client
  whose patches depend on the pod's key and finalizers only. Transforming twice is
  transforming once, and objects of other kinds pass as they are.
\<close>

theorem cached_reconcile_same:
  assumes "finalizer_laws fz" and "patches_finalizers_only api"
  shows "PodReconciler_Reconcile fz (cached PodTransform api) retry req st = PodReconciler_Reconcile fz api retry req st \<and>
    PodTransform (PodTransform obj) = PodTransform obj \<and>
    PodTransform (PoolObject np) = PoolObject np \<and> PodTransform (AllocationObject a) = AllocationObject a"
proof (intro conjI)
  obtain r s1 where g: "kc_GetPod api req (snd st) = (r, s1)" by (cases "kc_GetPod api req (snd st)")
  let ?api = "cached PodTransform api"
  have del: "handlePodDeletion fz ?api (transform_pod pod) st' = handlePodDeletion fz api pod st'" for pod st'
    using assms(1) by (simp add: handlePodDeletion_def removeFinalizer_cached [OF assms] finalizer_laws_def
        split: sum.splits go.splits)
  have con: "conclude_allocation fz ?api (transform_pod pod) errs ok s = conclude_allocation fz api pod errs ok s" for pod errs ok s
    by (simp add: conclude_allocation_def ensureFinalizer_cached [OF assms])
  have alloc: "handlePodAllocation fz ?api retry (transform_pod pod) st' = handlePodAllocation fz api retry pod st'" for pod st'
    by (simp add: handlePodAllocation_def ensureFinalizer_cached [OF assms] con
        split: sum.splits prod.splits go.splits bool.splits)
  show "PodReconciler_Reconcile fz ?api retry req st = PodReconciler_Reconcile fz api retry req st"
  proof (cases r)
    case (Inl e)
    with g show ?thesis by (simp add: PodReconciler_Reconcile_def cached_def)
  next
    case (Inr pod)
    with g have "kc_GetPod ?api req (snd st) = (Inr (transform_pod pod), s1)" by (simp add: cached_def PodTransform_def)
    with g Inr del alloc show ?thesis by (simp add: PodReconciler_Reconcile_def)
  qed
qed (auto simp: PodTransform_def split: api_object.splits)

theorem cached_reconcile_same_witness:
  "\<exists>pa c. PodReconciler_Reconcile mem_finalizers (cached PodTransform mem_api) mem_retry (demo_key_of ''b'')
      (Some (NewPoolAllocator StrategyRoundRobin), pod_cluster (ports_pod ''b'')) = Returns (zero_result, None) (pa, c)"
proof -
  have "patches_finalizers_only mem_api"
    by (auto simp: patches_finalizers_only_def mem_patch_pod_def)
  from cached_reconcile_same [OF mem_finalizer_laws this] demo_pod_run show ?thesis by simp
qed

end
