(* ===== verification/PodLifecycle.thy ===== *)
theory PodLifecycle
  imports PodReconciler
begin

text \<open>
  The reconciles of one pod over its life: a pod that has all it asked for is left alone by
  every further reconcile, and the reconcile of its deletion gives back exactly what the
  reconciles of its life have taken.
\<close>

section \<open>A settled pod\<close>

text \<open>
  The pool holds an allocation of the pod that a list by the two labels finds; the list
  asks for at most a hundred.
\<close>

definition listed :: "cluster \<Rightarrow> Pod \<Rightarrow> string \<Rightarrow> bool" where
  "listed c pod pool \<longleftrightarrow>
     (let found = filter (selected_by [(LabelPoolNameKey, pool), (LabelPodNameKey, pod_name pod)]) (cl_Allocs c) in
      length found \<le> 100 \<and> (pod_namespace pod, pod_name pod) \<in> pod_of ` set found)"

lemma findExistingAllocation_listed:
  assumes "consistent_client api view" and "never_fails api view" and "listed (view s) pod p"
  shows "\<exists>a s'. findExistingAllocation api p (pod_name pod) (pod_namespace pod) s = (Inr (Some a), s') \<and> view s' = view s"
proof -
  let ?sel = "[(LabelPoolNameKey, p), (LabelPodNameKey, pod_name pod)]"
  obtain l s' where l: "kc_ListAllocations api ?sel (Some 100) s = (Inr l, s')"
    using assms(2) unfolding never_fails_def by blast
  have "lists_current api view" using assms(1) by (simp add: consistent_client_def)
  from this [unfolded lists_current_def, rule_format, OF l] assms(3)
  have "set (al_Items l) = {a \<in> set (cl_Allocs (view s)). selected_by ?sel a}" by (simp add: listed_def Let_def)
  with assms(3) have "(pod_namespace pod, pod_name pod) \<in> pod_of ` set (al_Items l)" by (simp add: listed_def Let_def)
  then have "find (\<lambda>a. pi_Name (pod_info a) = pod_name pod \<and> pi_Namespace (pod_info a) = pod_namespace pod) (al_Items l) \<noteq> None"
    by (auto simp: find_None_iff pod_of_def)
  with l list_view [OF assms(1) l] show ?thesis by (auto simp: findExistingAllocation_def)
qed

lemma all_allocations_exist_listed:
  assumes "consistent_client api view" and "never_fails api view" and "\<forall>p\<in>set pools. listed (view s) pod p"
  shows "\<exists>s'. all_allocations_exist api pod pools s = (Inr True, s') \<and> view s' = view s"
  using assms(3)
proof (induction pools arbitrary: s)
  case (Cons p pools)
  then obtain a s1 where
    f: "findExistingAllocation api p (pod_name pod) (pod_namespace pod) s = (Inr (Some a), s1)" and v: "view s1 = view s"
    using findExistingAllocation_listed [OF assms(1,2), of s pod p] by auto
  with Cons.IH [of s1] Cons.prems show ?case by auto
qed simp

section \<open>What the allocation loop adds\<close>

definition cluster_scoped :: "cluster \<Rightarrow> bool" where
  "cluster_scoped c \<longleftrightarrow> (\<forall>p\<in>set (cl_Pools c). om_Namespace (np_ObjectMeta p) = '''')"

text \<open>What was granted in a cluster-scoped pool is what a release of the pod gives back.\<close>

lemma grants_releasable:
  assumes "cluster_scoped c" and "grants c pool pod ns cps a"
  shows "releasable pool '''' pod ns a"
  using assms by (auto simp: cluster_scoped_def grants_def grants_in_def grantable_def releasable_def gm_get_def)

definition adds :: "Pod \<Rightarrow> string list \<Rightarrow> cluster \<Rightarrow> cluster \<Rightarrow> bool" where
  "adds pod pools c c' \<longleftrightarrow> set (cl_Allocs c) \<subseteq> set (cl_Allocs c') \<and>
     (\<forall>a\<in>set (cl_Allocs c') - set (cl_Allocs c). \<exists>p\<in>set pools. releasable p '''' (pod_name pod) (pod_namespace pod) a)"

lemma adds_same: "cl_Allocs c' = cl_Allocs c \<Longrightarrow> adds pod pools c c'"
  by (simp add: adds_def)

lemma adds_trans: "adds pod pools c d \<Longrightarrow> adds pod pools d e \<Longrightarrow> adds pod pools c e"
  by (auto simp: adds_def)

lemma adds_more: "adds pod pools c d \<Longrightarrow> set pools \<subseteq> set pools' \<Longrightarrow> adds pod pools' c d"
  unfolding adds_def by blast

lemma AllocatePort_adds:
  assumes "consistent_client api view" and "retries_on_conflict api retry" and "serving view (Some pa, s)"
    and "cluster_scoped (view s)" and "p \<in> set pools"
    and "AllocatePort api retry p n (pod_name pod) (pod_namespace pod) cps pa s = Returns r (pa', s')"
  shows "adds pod pools (view s) (view s')"
proof -
  have "pools_bounded (view s)" using assms(3) by (simp add: serving_def)
  from AllocatePort_view_cases [OF assms(1,2) this, of p n "pod_name pod" "pod_namespace pod" cps pa pa' s'] assms(6)
  consider "view s' = view s"
    | a where "grants (view s) p (pod_name pod) (pod_namespace pod) cps a" "view s' = store_alloc a (view s)"
    by auto
  then show ?thesis
  proof cases
    case 2
    with grants_releasable [OF assms(4) 2(1)] assms(5) show ?thesis unfolding adds_def by auto
  qed (simp add: adds_same)
qed

lemma allocate_pools_adds:
  assumes "consistent_client api view" and "retries_on_conflict api retry" and "serving view (Some pa, s)"
    and "cluster_scoped (view s)"
    and "allocate_pools api retry pod cps pools acc (Some pa, s) = Returns acc' (pa', s')"
  shows "adds pod pools (view s) (view s')"
  using assms(3-5)
proof (induction pools arbitrary: acc pa s)
  case Nil
  then show ?case by (simp add: adds_same)
next
  case (Cons p pools)
  obtain errs ok where acc: "acc = (errs, ok)" by (cases acc)
  obtain x s1 where f: "findExistingAllocation api p (pod_name pod) (pod_namespace pod) s = (x, s1)"
    by (cases "findExistingAllocation api p (pod_name pod) (pod_namespace pod) s")
  have v: "view s1 = view s" by (rule findExistingAllocation_view [OF assms(1) f])
  have s1: "serving view (Some pa, s1)" by (rule serving_view [OF Cons.prems(1) v])
  have scoped: "cluster_scoped (view s1)" using Cons.prems(2) v by simp
  show ?case
  proof (cases "x = Inr None")
    case True
    from AllocatePort_carries [OF assms(1,2) s1, of p "''''" "pod_name pod" "pod_namespace pod" cps]
    obtain r pa2 s2 where
      run: "AllocatePort api retry p '''' (pod_name pod) (pod_namespace pod) cps pa s1 = Returns r (pa2, s2)"
      and s2: "serving view (Some pa2, s2)" "cl_Pools (view s2) = cl_Pools (view s1)" by (auto simp: carries_def)
    have scoped2: "cluster_scoped (view s2)" using scoped s2(2) by (simp add: cluster_scoped_def)
    obtain acc2 where "allocate_pools api retry pod cps pools acc2 (Some pa2, s2) = Returns acc' (pa', s')"
      using Cons.prems(3) f True run acc by (cases r) auto
    from Cons.IH [OF s2(1) scoped2 this] have "adds pod (p # pools) (view s2) (view s')" by (rule adds_more) auto
    moreover have "adds pod (p # pools) (view s) (view s2)"
      using AllocatePort_adds [OF assms(1,2) s1 scoped _ run, of "p # pools"] v by simp
    ultimately show ?thesis by (metis adds_trans)
  next
    case False
    with Cons.prems(3) f acc obtain acc2 where "allocate_pools api retry pod cps pools acc2 (Some pa, s1) = Returns acc' (pa', s')"
      by (cases x) (auto split: option.splits)
    from Cons.IH [OF s1 scoped this] v show ?thesis by (auto intro: adds_more)
  qed
qed

lemma handlePodAllocation_adds:
  fixes api :: "('s, 'e) kube_client"
  assumes "consistent_client api view" and "retries_on_conflict api retry" and "patches_pods api view"
    and "serving view (Some pa, s)" and "cluster_scoped (view s)"
    and "parseNetworkPools pod = (Inr pools :: 'e error + string list)"
    and "handlePodAllocation fz api retry pod (Some pa, s) = Returns out (pa', s')"
  shows "adds pod pools (view s) (view s')"
proof -
  obtain res err where out: "out = (res, err)" by (cases out)
  show ?thesis
    using assms(1,2,4) assms(7) [unfolded out]
  proof (cases rule: handlePodAllocation_cases)
    case (settled pools' s1)
    with ensureFinalizer_rest [OF assms(3) settled(4)] show ?thesis by (simp add: adds_same)
  next
    case (loop pools' cps s1 errs ok pa2 s2)
    have "adds pod pools (view s2) (view s')" using conclude_rest [OF assms(3) loop(5)] by (simp add: adds_same)
    moreover have "adds pod pools (view s) (view s2)"
      using allocate_pools_adds [OF assms(1,2) loop(3) _ loop(4)] assms(5,6) loop(1,2) by simp
    ultimately show ?thesis by (metis adds_trans)
  qed (simp add: adds_same)
qed

section \<open>Properties\<close>

text \<open>
  C12. A settled pod is left alone: an active managed pod that carries the finalizer and has
  a listed allocation in each of its pools is reconciled with no error, no requeue, no
  call of the allocator (so this holds even for a nil one) and no effect on the cluster.
  Repeating the reconcile changes nothing.
\<close>

theorem settled_pod_untouched:
  fixes api :: "('s, 'e) kube_client"
  assumes "consistent_client api view" and "never_fails api view" and "finalizer_laws fz"
    and "kc_GetPod api req s = (Inr pod, s1)" and "shouldManagePod pod"
    and "om_DeletionTimestamp (po_ObjectMeta pod) = None"
    and "ApolloNetworkFinalizer \<in> set (om_Finalizers (po_ObjectMeta pod))"
    and "parseNetworkPools pod = (Inr pools :: 'e error + string list)"
    and "parseContainerPorts pod = (Inr cps :: 'e error + PodPortAllocation list)"
    and "\<forall>p\<in>set pools. listed (view s) pod p"
  shows "\<exists>s'. PodReconciler_Reconcile fz api retry req (pa, s) = Returns (zero_result, None) (pa, s') \<and> view s' = view s"
proof -
  have v1: "view s1 = view s" by (rule get_pod_view [OF assms(1,4)])
  with all_allocations_exist_listed [OF assms(1,2), of pools s1 pod] assms(10) obtain s2 where
    ex: "all_allocations_exist api pod pools s1 = (Inr True, s2)" and v2: "view s2 = view s" by auto
  have "ensureFinalizer fz api pod s2 = (None, s2)"
    using assms(3,7) by (simp add: ensureFinalizer_def finalizer_laws_def)
  with ex v2 assms(4-9) show ?thesis
    by (simp add: PodReconciler_Reconcile_def handlePodAllocation_def finish_def)
qed

definition settled_pod :: Pod where
  "settled_pod = (ports_pod ''a'')\<lparr>po_ObjectMeta := (po_ObjectMeta (ports_pod ''a''))
     \<lparr>om_Finalizers := [ApolloNetworkFinalizer]\<rparr>\<rparr>"

lemma settled_pod_meta [simp]:
  "om_DeletionTimestamp (po_ObjectMeta settled_pod) = None"
  "om_Finalizers (po_ObjectMeta settled_pod) = [ApolloNetworkFinalizer]"
  "pod_name settled_pod = ''a''" "pod_namespace settled_pod = ''ns''"
  "om_Annotations (po_ObjectMeta settled_pod) = om_Annotations (po_ObjectMeta (ports_pod ''a''))"
  "annotation settled_pod k = annotation (ports_pod ''a'') k"
  "spec_ports settled_pod = spec_ports (ports_pod ''a'')"
  by (simp_all add: settled_pod_def annotation_def spec_ports_def)

theorem settled_pod_untouched_witness:
  "\<exists>c. PodReconciler_Reconcile mem_finalizers mem_api mem_retry (demo_key_of ''a'')
      (None, pod_cluster settled_pod) = Returns (zero_result, None) (None, c) \<and> c = pod_cluster settled_pod"
proof -
  have get: "kc_GetPod mem_api (demo_key_of ''a'') (pod_cluster settled_pod) = (Inr settled_pod, pod_cluster settled_pod)"
    by (simp add: mem_get_pod_def pod_cluster_def demo_key_of_def meta_key_def)
  have managed: "shouldManagePod settled_pod" by (simp add: shouldManagePod_def)
  have pools: "parseNetworkPools settled_pod = (Inr [''p''] :: mem_error error + string list)"
    using ports_pod_pools [of "''a''", where 'e = mem_error] by (simp add: parseNetworkPools_def)
  have ports: "parseContainerPorts settled_pod = (Inr [sample_port] :: mem_error error + PodPortAllocation list)"
    using ports_pod_ports [of "''a''", where 'e = mem_error] unfolding parseContainerPorts_def settled_pod_meta .
  have fin: "ApolloNetworkFinalizer \<in> set (om_Finalizers (po_ObjectMeta settled_pod))" by simp
  have "\<forall>p\<in>set [''p'']. listed (pod_cluster settled_pod) settled_pod p"
    by (simp add: listed_def selected_by_def pod_cluster_def demo_eval pod_of_def)
  from settled_pod_untouched [OF mem_consistent mem_never_fails mem_finalizer_laws get managed settled_pod_meta(1) fin
      pools ports this] show ?thesis by blast
qed

text \<open>
  C5. The life of a pod is a round trip: a pod that holds nothing is reconciled while it is
  active (whatever that returns, all of its pools served or some or none); later it is
  stored as being deleted, carrying the finalizer and naming the same pools, and is
  reconciled again without an error. Then the allocations stored are exactly those from
  before: everything allocated for the pod has been given back and nothing else is gone.
\<close>

theorem pod_lifecycle_roundtrip:
  fixes api :: "('s, 'e) kube_client"
  assumes "consistent_client api view" and "retries_on_conflict api retry" and "patches_pods api view"
    and "gets_pods api view" and "finalizer_laws fz" and "never_fails api view" and "removes api view"
    and "serving view (Some pa, s)" and "cluster_scoped (view s)"
    and "\<forall>a\<in>set (cl_Allocs (view s)). pod_of a \<noteq> (nn_Namespace req, nn_Name req)"
    and first: "stored_pod (view s) req pod" "shouldManagePod pod" "om_DeletionTimestamp (po_ObjectMeta pod) = None"
      "parseNetworkPools pod = (Inr pools :: 'e error + string list)"
      "PodReconciler_Reconcile fz api retry req (Some pa, s) = Returns out (pa1, s1)"
    and between: "cl_Allocs (view t) = cl_Allocs (view s1)" "pools_bounded (view t)"
    and last: "stored_pod (view t) req pod'" "shouldManagePod pod'" "om_DeletionTimestamp (po_ObjectMeta pod') \<noteq> None"
      "ApolloNetworkFinalizer \<in> set (om_Finalizers (po_ObjectMeta pod'))"
      "parseNetworkPools pod' = (Inr pools :: 'e error + string list)"
      "PodReconciler_Reconcile fz api retry req (pa1, t) = Returns (res, None) (pa2, u)"
  shows "set (cl_Allocs (view u)) = set (cl_Allocs (view s))"
proof -
  from PodReconciler_returns [OF assms(1-3,8), of fz req] first(5) obtain pa1' where
    pa1: "pa1 = Some pa1'" and s1: "serving view (Some pa1', s1)" by auto
  have t: "serving view (Some pa1', t)"
    using s1 between ledger_ok_allocs [OF between(1)] by (simp add: serving_def keys_distinct_def)
  have names: "pod_name q = nn_Name req" "pod_namespace q = nn_Namespace req" if "stored_pod c req q" for c q
    using that by (auto simp: stored_pod_def meta_key_def)
  obtain r1 s0 where g1: "kc_GetPod api req s = (r1, s0)" by (cases "kc_GetPod api req s")
  have v0: "view s0 = view s" by (rule get_pod_view [OF assms(1) g1])
  have added: "adds pod pools (view s) (view s1)"
  proof (cases r1)
    case (Inl e)
    with g1 first(5) v0 show ?thesis by (auto simp: PodReconciler_Reconcile_def adds_same split: if_splits)
  next
    case (Inr q)
    with get_stored_pod [OF assms(4) first(1) g1] have "q = pod" by simp
    with g1 Inr first have run: "handlePodAllocation fz api retry pod (Some pa, s0) = Returns out (pa1, s1)"
      by (simp add: PodReconciler_Reconcile_def)
    have "serving view (Some pa, s0)" "cluster_scoped (view s0)"
      using serving_view [OF assms(8) v0] assms(9) v0 by simp_all
    from handlePodAllocation_adds [OF assms(1-3) this first(4) run] v0 show ?thesis by simp
  qed
  obtain r2 t0 where g2: "kc_GetPod api req t = (r2, t0)" by (cases "kc_GetPod api req t")
  have w: "view t0 = view t" by (rule get_pod_view [OF assms(1) g2])
  from get_stored_pod [OF assms(4) last(1) g2] last(6) g2 have "r2 = Inr pod'"
    by (auto simp: PodReconciler_Reconcile_def)
  with g2 last pa1 have run: "handlePodDeletion fz api pod' (Some pa1', t0) = Returns (res, None) (pa2, u)"
    by (simp add: PodReconciler_Reconcile_def)
  have "\<forall>q\<in>set (cl_Pods (view t0)). meta_key (po_ObjectMeta q) = meta_key (po_ObjectMeta pod') \<longrightarrow> q = pod'"
    using last(1) w by (simp add: stored_pod_def)
  note gone = handlePodDeletion_outcome [OF assms(1-3,5-7) serving_view [OF t w] this last(4,5) run]
  show ?thesis
    using gone added assms(10) names [OF first(1)] names [OF last(1)] between(1) w
    unfolding adds_def by (fastforce dest: subsetD)
qed

text \<open>The deletion of the demo pod ends without an error in any cluster that stores it.\<close>

lemma leaving_run:
  assumes "serving (\<lambda>c. c) (Some pa, c)" and "cl_Pods c = [leaving_pod ''b'']"
  shows "\<exists>res pa' d. PodReconciler_Reconcile mem_finalizers mem_api mem_retry (demo_key_of ''b'') (Some pa, c) =
    Returns (res, None) (pa', d)"
proof -
  have get: "kc_GetPod mem_api (demo_key_of ''b'') c = (Inr (leaving_pod ''b''), c)"
    using assms(2) by (simp add: mem_get_pod_def demo_key_of_def meta_key_def)
  from release_pools_carries [OF mem_consistent mem_retries assms(1), of "leaving_pod ''b''" "[''p'']" "[]"]
  obtain errs pa2 d where rel: "release_pools mem_api (leaving_pod ''b'') [''p''] [] (Some pa, c) = Returns errs (Some pa2, d)"
    by blast
  have "fst (removeFinalizer mem_finalizers mem_api (leaving_pod ''b'') d) = (zero_result, None)"
    by (simp add: removeFinalizer_def mem_patch_pod_def)
  with get rel leaving_pod_facts(1) [of "''b''"] leaving_pod_facts(2) [of "''b''", where 'e = mem_error] show ?thesis
    by (simp add: PodReconciler_Reconcile_def handlePodDeletion_def finish_def mem_contains del: release_pools.simps)
qed

theorem pod_lifecycle_roundtrip_witness:
  "\<exists>out pa1 c res pa2 d.
     PodReconciler_Reconcile mem_finalizers mem_api mem_retry (demo_key_of ''b'')
       (Some (NewPoolAllocator StrategyRoundRobin), pod_cluster (ports_pod ''b'')) = Returns out (pa1, c) \<and>
     PodReconciler_Reconcile mem_finalizers mem_api mem_retry (demo_key_of ''b'')
       (pa1, c\<lparr>cl_Pods := [leaving_pod ''b'']\<rparr>) = Returns (res, None) (pa2, d) \<and>
     set (cl_Allocs d) = set (cl_Allocs demo_one)"
proof -
  let ?pa = "NewPoolAllocator StrategyRoundRobin" and ?s = "pod_cluster (ports_pod ''b'')" and ?k = "demo_key_of ''b''"
  from PodReconciler_returns [OF mem_consistent mem_retries mem_patches_pods pod_cluster_serving, of mem_finalizers ?k]
  obtain out pa1 c where run: "PodReconciler_Reconcile mem_finalizers mem_api mem_retry ?k (Some ?pa, ?s) = Returns out (Some pa1, c)"
    and c: "serving (\<lambda>c. c) (Some pa1, c)" by blast
  let ?t = "c\<lparr>cl_Pods := [leaving_pod ''b'']\<rparr>"
  have t: "serving (\<lambda>c. c) (Some pa1, ?t)" by (rule serving_rest [OF c]) simp
  from leaving_run [OF this] obtain res pa2 d where
    gone: "PodReconciler_Reconcile mem_finalizers mem_api mem_retry ?k (Some pa1, ?t) = Returns (res, None) (pa2, d)"
    by auto
  have key: "meta_key (po_ObjectMeta (ports_pod ''b'')) = ?k" "meta_key (po_ObjectMeta (leaving_pod ''b'')) = ?k"
    by (simp_all add: demo_key_of_def meta_key_def)
  have "stored_pod ?s ?k (ports_pod ''b'')" using pod_cluster_stored [of "ports_pod ''b''"] key by simp
  moreover have "stored_pod ?t ?k (leaving_pod ''b'')" using key by (simp add: stored_pod_def)
  moreover have "cluster_scoped ?s" "\<forall>a\<in>set (cl_Allocs ?s). pod_of a \<noteq> (nn_Namespace ?k, nn_Name ?k)"
    by (simp_all add: cluster_scoped_def pod_cluster_def demo_eval demo_key_of_def zero_object_meta_def pod_of_def)
  moreover have "pools_bounded ?t" using t by (simp add: serving_def)
  ultimately have "set (cl_Allocs d) = set (cl_Allocs ?s)"
    using leaving_pod_facts(1) [of "''b''"] leaving_pod_facts(2) [of "''b''", where 'e = mem_error]
    by (intro pod_lifecycle_roundtrip [OF mem_consistent mem_retries mem_patches_pods mem_gets_pods mem_finalizer_laws
        mem_never_fails mem_removes pod_cluster_serving _ _ _ ports_pod_managed ports_pod_meta(1) ports_pod_pools run
        _ _ _ _ _ _ _ gone]) simp_all
  with run gone show ?thesis by (auto simp: pod_cluster_def)
qed

end
