(* ===== verification/PodOrphan.thy ===== *)
theory PodOrphan
  imports PodLifecycle
begin

text \<open>
  Allocations whose pod is gone. The finalizer that makes the deletion of a pod wait for its
  release is added after the ports are allocated (pod\_controller.go:282), and it is removed
  even when a release failed (pod\_controller.go:192), so a pod can go and leave allocations.
  What the reconciles do about them: nothing.
\<close>

section \<open>Whose allocations a reconcile touches\<close>

abbreviation owner_key :: "PortAllocation \<Rightarrow> request" where
  "owner_key a \<equiv> \<lparr>nn_Namespace = fst (pod_of a), nn_Name = snd (pod_of a)\<rparr>"

lemma ReleasePort_spares:
  assumes "consistent_client api view" and "keys_distinct (view s)"
    and "ReleasePort api pool n pod ns pa s = Returns r (pa', s')"
    and "a \<in> set (cl_Allocs (view s))" and "pod_of a \<noteq> (ns, pod)"
  shows "a \<in> set (cl_Allocs (view s'))"
proof (cases r)
  case (Some e)
  with ReleasePort_post [OF assms(1), of pool n pod ns pa s] assms(3,4) show ?thesis
    by (simp add: release_post_def)
next
  case None
  with ReleasePort_post [OF assms(1), of pool n pod ns pa s] assms(3) obtain b where
    b: "b \<in> set (cl_Allocs (view s))" "releasable pool n pod ns b"
    and out: "view s' = remove_key (alloc_key b) (view s) \<or> (\<exists>t. view s' = mark_key t (alloc_key b) (view s))"
    by (auto simp: release_post_def)
  have "alloc_key a \<noteq> alloc_key b"
    using keys_distinctD [OF assms(2,4) b(1)] b(2) assms(5) by (auto simp: releasable_def)
  with out assms(4) show ?thesis by (force simp: image_iff)
qed

lemma release_pools_spares:
  fixes api :: "('s, 'e) kube_client" and retry :: "('s alloc_vars, 'e error) retrier"
  assumes "consistent_client api view" and "retries_on_conflict api retry" and "serving view (Some pa, s)"
    and "release_pools api pod pools errs (Some pa, s) = Returns errs' (pa', s')"
    and "a \<in> set (cl_Allocs (view s))" and "pod_of a \<noteq> (pod_namespace pod, pod_name pod)"
  shows "a \<in> set (cl_Allocs (view s'))"
  using assms(3-5)
proof (induction pools arbitrary: errs pa s)
  case (Cons p pools)
  from ReleasePort_carries [OF assms(1,2) Cons.prems(1), of p "''''" "pod_name pod" "pod_namespace pod"]
  obtain r pa1 s1 where run: "ReleasePort api p '''' (pod_name pod) (pod_namespace pod) pa s = Returns r (pa1, s1)"
    and s1: "serving view (Some pa1, s1)" by (auto simp: carries_def)
  have "a \<in> set (cl_Allocs (view s1))"
    using ReleasePort_spares [OF assms(1) _ run Cons.prems(3) assms(6)] Cons.prems(1) by (simp add: serving_def)
  from Cons.IH [OF s1 _ this] Cons.prems(2) run show ?case by (cases r) auto
qed simp

lemma handlePodDeletion_spares:
  fixes api :: "('s, 'e) kube_client" and retry :: "('s alloc_vars, 'e error) retrier"
  assumes "consistent_client api view" and "retries_on_conflict api retry" and "patches_pods api view"
    and "serving view (Some pa, s)" and "handlePodDeletion fz api pod (Some pa, s) = Returns out (pa', s')"
    and "a \<in> set (cl_Allocs (view s))" and "pod_of a \<noteq> (pod_namespace pod, pod_name pod)"
  shows "a \<in> set (cl_Allocs (view s'))"
proof (cases "fz_Contains fz pod ApolloNetworkFinalizer")
  case False
  with assms(5,6) show ?thesis by (simp add: handlePodDeletion_def)
next
  case True
  show ?thesis
  proof (cases "parseNetworkPools pod :: 'e error + string list")
    case (Inl e)
    with True assms(5) have "snd (removeFinalizer fz api pod s) = s'" by (simp add: handlePodDeletion_def finish_def)
    with removeFinalizer_rest [OF assms(3) prod.collapse [symmetric], of fz pod s] assms(6) show ?thesis by simp
  next
    case (Inr pools)
    from release_pools_carries [OF assms(1,2,4), of pod pools "[]"] obtain errs pa1 s1 where
      run: "release_pools api pod pools [] (Some pa, s) = Returns errs (Some pa1, s1)" by blast
    with True Inr assms(5) have "snd (removeFinalizer fz api pod s1) = s'" by (simp add: handlePodDeletion_def finish_def)
    with removeFinalizer_rest [OF assms(3) prod.collapse [symmetric], of fz pod s1]
      release_pools_spares [OF assms(1,2,4) run assms(6,7)] show ?thesis by simp
  qed
qed

lemma handlePodAllocation_keeps:
  fixes api :: "('s, 'e) kube_client"
  assumes "consistent_client api view" and "retries_on_conflict api retry" and "patches_pods api view"
    and "serving view (Some pa, s)" and "handlePodAllocation fz api retry pod (Some pa, s) = Returns out (pa', s')"
  shows "set (cl_Allocs (view s)) \<subseteq> set (cl_Allocs (view s'))"
proof -
  obtain res err where out: "out = (res, err)" by (cases out)
  show ?thesis
    using assms(1,2,4) assms(5) [unfolded out]
  proof (cases rule: handlePodAllocation_cases)
    case (settled pools s1)
    with ensureFinalizer_rest [OF assms(3) settled(4)] show ?thesis by simp
  next
    case (loop pools cps s1 errs ok pa2 s2)
    with conclude_rest [OF assms(3) loop(5)] allocate_pools_loop_post [OF assms(1,2) loop(3,4)]
    show ?thesis by (simp add: loop_post_def)
  qed simp
qed

text \<open>The pod that is reconciled is a stored one, so without a stored owner an allocation is left alone.\<close>

lemma Reconcile_spares:
  fixes api :: "('s, 'e) kube_client" and retry :: "('s alloc_vars, 'e error) retrier"
  assumes "consistent_client api view" and "retries_on_conflict api retry" and "patches_pods api view"
    and "gets_pods api view" and "serving view (Some pa, s)"
    and "a \<in> set (cl_Allocs (view s))" and "\<forall>p\<in>set (cl_Pods (view s)). meta_key (po_ObjectMeta p) \<noteq> owner_key a"
    and "PodReconciler_Reconcile fz api retry req (Some pa, s) = Returns out (pa', s')"
  shows "a \<in> set (cl_Allocs (view s'))"
proof -
  obtain r s1 where g: "kc_GetPod api req s = (r, s1)" by (cases "kc_GetPod api req s")
  have v1: "view s1 = view s" by (rule get_pod_view [OF assms(1) g])
  have s1: "serving view (Some pa, s1)" by (rule serving_view [OF assms(5) v1])
  show ?thesis
  proof (cases r)
    case (Inl e)
    with g assms(6,8) v1 show ?thesis by (auto simp: PodReconciler_Reconcile_def split: if_splits)
  next
    case (Inr pod)
    with g assms(4) have "pod \<in> set (cl_Pods (view s))" unfolding gets_pods_def by blast
    with assms(7) have other: "pod_of a \<noteq> (pod_namespace pod, pod_name pod)" by (auto simp: meta_key_def)
    have stored: "a \<in> set (cl_Allocs (view s1))" using assms(6) v1 by simp
    consider "out = (zero_result, None)" "s' = s1"
      | "handlePodDeletion fz api pod (Some pa, s1) = Returns out (pa', s')"
      | "handlePodAllocation fz api retry pod (Some pa, s1) = Returns out (pa', s')"
      using assms(8) g Inr by (auto simp: PodReconciler_Reconcile_def split: if_splits)
    then show ?thesis
    proof cases
      case 2
      show ?thesis by (rule handlePodDeletion_spares [OF assms(1-3) s1 2 stored other])
    next
      case 3
      from handlePodAllocation_keeps [OF assms(1-3) s1 3] stored show ?thesis by blast
    qed (simp add: stored)
  qed
qed
section \<open>While the pod is gone\<close>

text \<open>
  Reconciles of any requests, between which the pods and the pools may change in any way, as
  long as no pod of the name is stored.
\<close>

inductive orphan_history ::
  "finalizer_ops \<Rightarrow> ('s, 'e) kube_client \<Rightarrow> ('s alloc_vars, 'e error) retrier \<Rightarrow> ('s \<Rightarrow> cluster) \<Rightarrow> request \<Rightarrow>
   PoolAllocator \<times> 's \<Rightarrow> PoolAllocator \<times> 's \<Rightarrow> bool"
  for fz :: finalizer_ops and api :: "('s, 'e) kube_client" and retry :: "('s alloc_vars, 'e error) retrier"
    and view :: "'s \<Rightarrow> cluster" and k :: request and c0 :: "PoolAllocator \<times> 's" where
  starts: "orphan_history fz api retry view k c0 c0"
| reconciles: "orphan_history fz api retry view k c0 (pa, s) \<Longrightarrow>
    \<forall>p\<in>set (cl_Pods (view s)). meta_key (po_ObjectMeta p) \<noteq> k \<Longrightarrow>
    PodReconciler_Reconcile fz api retry req (Some pa, s) = Returns out (Some pa', s') \<Longrightarrow>
    orphan_history fz api retry view k c0 (pa', s')"
| changes: "orphan_history fz api retry view k c0 (pa, s) \<Longrightarrow>
    cl_Allocs (view s') = cl_Allocs (view s) \<Longrightarrow> pools_bounded (view s') \<Longrightarrow>
    orphan_history fz api retry view k c0 (pa, s')"

lemma orphan_invariant:
  fixes api :: "('s, 'e) kube_client" and retry :: "('s alloc_vars, 'e error) retrier"
  assumes "orphan_history fz api retry view (owner_key a) c0 c"
    and "consistent_client api view" and "retries_on_conflict api retry" and "patches_pods api view" and "gets_pods api view"
    and "serving view (Some (fst c0), snd c0)" and "a \<in> set (cl_Allocs (view (snd c0)))"
  shows "serving view (Some (fst c), snd c) \<and> a \<in> set (cl_Allocs (view (snd c)))"
  using assms(1)
proof (induction rule: orphan_history.induct)
  case starts
  with assms(6,7) show ?case by simp
next
  case (reconciles pa s req out pa' s')
  then have s: "serving view (Some pa, s)" "a \<in> set (cl_Allocs (view s))" by simp_all
  from PodReconciler_returns [OF assms(2-4) s(1), of fz req] reconciles.hyps(3) have "serving view (Some pa', s')" by auto
  with Reconcile_spares [OF assms(2-5) s reconciles.hyps(2,3)] show ?case by simp
next
  case (changes pa s s')
  then show ?case
    by (simp add: serving_def keys_distinct_def ledger_ok_allocs [of "view s'" "view s"])
qed

text \<open>
  C13. An allocation whose pod is gone stays, and so do its ports: as long as no pod of that
  name is stored, no reconcile of any request, however many there are and whatever happens to
  the other pods and to the pools, removes the allocation, and its slots are given to no
  other pod of the pool. The reconciles of a pod release only what that pod holds, and a pod
  that is not found is not reconciled. Such allocations come about: a reconcile that has
  allocated and then fails to add the finalizer leaves a pod that is deleted at once (the
  witness), and a deletion goes on after a failed release.
\<close>

theorem orphan_stays:
  fixes api :: "('s, 'e) kube_client" and retry :: "('s alloc_vars, 'e error) retrier"
  assumes "orphan_history fz api retry view \<lparr>nn_Namespace = ns, nn_Name = pod\<rparr> c0 (pa, s)"
    and "consistent_client api view" and "retries_on_conflict api retry" and "patches_pods api view" and "gets_pods api view"
    and "serving view (Some (fst c0), snd c0)"
    and "a \<in> set (cl_Allocs (view (snd c0)))" and "pod_of a = (ns, pod)" and "in_pool p a"
  shows "a \<in> set (cl_Allocs (view s)) \<and> ledger_of (view s) p (ns, pod) = Some (map slot_of (bindings a)) \<and>
    exclusive (ledger_of (view s))"
proof -
  have "orphan_history fz api retry view (owner_key a) c0 (pa, s)" using assms(1,8) by simp
  from orphan_invariant [OF this assms(2-7)] have "a \<in> set (cl_Allocs (view s))" and ok: "ledger_ok (view s)"
    by (simp_all add: serving_def)
  moreover from this assms(9) have "(pod_of a, map slot_of (bindings a)) \<in>
      set (map (\<lambda>b. (pod_of b, map slot_of (bindings b))) (pool_allocs (view s) p))"
    by (auto simp: set_pool_allocs)
  then have "ledger_of (view s) p (pod_of a) = Some (map slot_of (bindings a))"
    unfolding ledger_of_def using ok
    by (intro map_of_is_SomeI) (simp_all add: comp_def ledger_ok_def pool_ok_def)
  ultimately show ?thesis using ledger_ok_exclusive [OF ok] assms(8) by simp
qed

section \<open>A patch that fails\<close>

text \<open>The in-memory client, where adding a finalizer fails because the pod has just gone.\<close>

definition unpatched_api :: mem_client where
  "unpatched_api = mem_api\<lparr>kc_PatchPod := \<lambda>base new c. (Inl MemNotFound, c)\<rparr>"

lemma unpatched_laws:
  "consistent_client unpatched_api (\<lambda>c. c)" "gets_pods unpatched_api (\<lambda>c. c)" "patches_pods unpatched_api (\<lambda>c. c)"
proof -
  show "consistent_client unpatched_api (\<lambda>c. c)"
    using mem_reads mem_lists mem_gets mem_creates mem_deletes
    by (simp add: consistent_client_def reads_preserve_def lists_current_def gets_current_def creates_def deletes_def
        unpatched_api_def)
  show "gets_pods unpatched_api (\<lambda>c. c)" using mem_gets_pods by (simp add: gets_pods_def unpatched_api_def)
  show "patches_pods unpatched_api (\<lambda>c. c)" by (simp add: patches_pods_def unpatched_api_def)
qed

lemma unpatched_retries: "retries_on_conflict unpatched_api mem_retry"
proof -
  have "is_conflict unpatched_api = is_conflict mem_api"
    by (intro ext) (simp add: is_conflict_def unpatched_api_def split: option.splits)
  then show ?thesis by (simp add: retries_on_conflict_def mem_retry_def)
qed

lemma unpatched_call:
  "\<exists>a pa c. AllocatePort unpatched_api mem_retry ''p'' '''' ''b'' ''ns'' [sample_port]
      (NewPoolAllocator StrategyRoundRobin) (pod_cluster (ports_pod ''b'')) = Returns (Inr a) (pa, c)"
  by (simp add: pod_cluster_def call_eval attempt_eval demo_one_def demo_pool_def unpatched_api_def)

lemma unpatched_none:
  "findExistingAllocation unpatched_api ''p'' ''b'' ''ns'' (pod_cluster (ports_pod ''b'')) =
     (Inr None, pod_cluster (ports_pod ''b''))"
  using demo_pod_none by (simp add: findExistingAllocation_def unpatched_api_def)

lemma unpatched_run:
  "\<exists>a pa c. AllocatePort unpatched_api mem_retry ''p'' '''' ''b'' ''ns'' [sample_port]
      (NewPoolAllocator StrategyRoundRobin) (pod_cluster (ports_pod ''b'')) = Returns (Inr a) (pa, c) \<and>
    PodReconciler_Reconcile mem_finalizers unpatched_api mem_retry (demo_key_of ''b'')
      (Some (NewPoolAllocator StrategyRoundRobin), pod_cluster (ports_pod ''b'')) =
      Returns (zero_result, Some (ApiError MemNotFound)) (Some pa, c)"
proof -
  obtain a pa c where call: "AllocatePort unpatched_api mem_retry ''p'' '''' ''b'' ''ns'' [sample_port]
      (NewPoolAllocator StrategyRoundRobin) (pod_cluster (ports_pod ''b'')) = Returns (Inr a) (pa, c)"
    using unpatched_call by blast
  have get: "kc_GetPod unpatched_api (demo_key_of ''b'') (pod_cluster (ports_pod ''b'')) =
      (Inr (ports_pod ''b''), pod_cluster (ports_pod ''b''))"
    by (simp add: unpatched_api_def mem_get_ports_pod)
  have patch: "ensureFinalizer mem_finalizers unpatched_api (ports_pod ''b'') c = (Some (ApiError MemNotFound), c)"
    by (simp add: ensureFinalizer_def unpatched_api_def mem_finalizers_def ports_pod_def demo_pod_def zero_object_meta_def)
  show ?thesis
    by (intro exI conjI, rule call)
      (simp add: PodReconciler_Reconcile_def get ports_pod_managed handlePodAllocation_def ports_pod_pools ports_pod_ports
        unpatched_none call conclude_allocation_def patch finish_def)
qed

text \<open>The pod that failed to get its finalizer goes, its request is served again, and the allocation stays.\<close>

theorem orphan_stays_witness:
  "\<exists>a pa c pa' c'. PodReconciler_Reconcile mem_finalizers unpatched_api mem_retry (demo_key_of ''b'')
      (Some (NewPoolAllocator StrategyRoundRobin), pod_cluster (ports_pod ''b'')) =
        Returns (zero_result, Some (ApiError MemNotFound)) (Some pa, c) \<and>
    a \<notin> set (cl_Allocs (pod_cluster (ports_pod ''b''))) \<and>
    PodReconciler_Reconcile mem_finalizers unpatched_api mem_retry (demo_key_of ''b'') (Some pa, c\<lparr>cl_Pods := []\<rparr>) =
      Returns (zero_result, None) (Some pa', c') \<and>
    a \<in> set (cl_Allocs c')"
proof -
  note laws = unpatched_laws(1) unpatched_retries unpatched_laws(3)
  obtain a pa c where call: "AllocatePort unpatched_api mem_retry ''p'' '''' ''b'' ''ns'' [sample_port]
      (NewPoolAllocator StrategyRoundRobin) (pod_cluster (ports_pod ''b'')) = Returns (Inr a) (pa, c)"
    and run: "PodReconciler_Reconcile mem_finalizers unpatched_api mem_retry (demo_key_of ''b'')
      (Some (NewPoolAllocator StrategyRoundRobin), pod_cluster (ports_pod ''b'')) =
      Returns (zero_result, Some (ApiError MemNotFound)) (Some pa, c)"
    using unpatched_run by blast
  have served: "serving (\<lambda>c. c) (Some pa, c)"
    using PodReconciler_returns [OF laws pod_cluster_serving, of mem_finalizers "demo_key_of ''b''" "ports_pod ''b''"] run by auto
  have "pools_bounded (pod_cluster (ports_pod ''b''))" using pod_cluster_serving [of "ports_pod ''b''"] by (simp add: serving_def)
  note made = AllocatePort_Inr [OF laws(1,2) this call]
  have stored: "a \<in> set (cl_Allocs (c\<lparr>cl_Pods := []\<rparr>))" using made(3) by simp
  have new: "a \<notin> set (cl_Allocs (pod_cluster (ports_pod ''b'')))" using made(2) by blast
  have pod: "pod_of a = (''ns'', ''b'')" "in_pool ''p'' a"
    using grants_grantable [OF made(1)] grantable_in_pool by blast+
  have gone: "serving (\<lambda>c. c) (Some pa, c\<lparr>cl_Pods := []\<rparr>)" by (rule serving_rest [OF served]) simp
  from PodReconciler_returns [OF laws gone, of mem_finalizers "demo_key_of ''b''"] obtain res pa' c' where
    again: "PodReconciler_Reconcile mem_finalizers unpatched_api mem_retry (demo_key_of ''b'') (Some pa, c\<lparr>cl_Pods := []\<rparr>) =
      Returns res (Some pa', c')" by blast
  then have "res = (zero_result, None)"
    by (simp add: PodReconciler_Reconcile_def unpatched_api_def mem_get_pod_def split: if_splits)
  have "orphan_history mem_finalizers unpatched_api mem_retry (\<lambda>c. c) \<lparr>nn_Namespace = ''ns'', nn_Name = ''b''\<rparr>
      (pa, c\<lparr>cl_Pods := []\<rparr>) (pa', c')"
    by (rule orphan_history.reconciles [OF orphan_history.starts _ again]) simp
  from orphan_stays [OF this laws(1-3) unpatched_laws(2) _ _ pod] gone stored have "a \<in> set (cl_Allocs c')" by simp
  with run new again \<open>res = (zero_result, None)\<close> show ?thesis by blast
qed

end
