(* ===== verification/Workers.thy ===== *)
theory Workers
  imports Release
begin

text \<open>
  The allocator under concurrent calls. The pod controller runs up to ten reconciles at a
  time (SetupWithManager in internal/controller/pod\_controller.go), and each may be inside
  AllocatePort or ReleasePort. Here the two are cut into the steps between which another
  goroutine can run: taking the pool's mutex, each call to the API server, giving the
  mutex back. Any number of such calls are interleaved in any order, while the rest of the
  cluster changes too. A call that runs alone is shown to do what its definition in
  Allocator or Release says.
\<close>

section \<open>Calls and their stages\<close>

datatype call =
    Allocating (call_pool: string) (call_namespace: string) (call_pod: string) (call_podns: string)
      "PodPortAllocation list"
  | Releasing (call_pool: string) (call_namespace: string) (call_pod: string) (call_podns: string)

fun call_ports :: "call \<Rightarrow> PodPortAllocation list" where
  "call_ports (Allocating _ _ _ _ cps) = cps"
| "call_ports (Releasing _ _ _ _) = []"

text \<open>
  Where a call is: the number is how many retries are left, the other arguments are the
  local variables that are still used. A result is an error or, from AllocatePort, the
  allocation. \<open>Spinning\<close> is the port loop that does not end, with the mutex held.
\<close>

datatype 'e stage =
    Entering
  | CheckingDuplicate nat
  | GettingPool nat
  | ListingAllocations nat ApolloNetworkPool
  | Choosing nat poolAndAllocations
  | GettingExisting nat PortAllocation
  | Creating nat PortAllocation
  | Fetching
  | Deleting PortAllocation
  | Leaving "'e error + PortAllocation option"
  | Spinning
  | Done "'e error + PortAllocation option"

text \<open>What follows an attempt that ended in an error: another one after a conflict, or the end.\<close>

definition after_error :: "('s, 'e) kube_client \<Rightarrow> nat \<Rightarrow> 'e error \<Rightarrow> 'e stage" where
  "after_error api n err =
     (if never_returns err then Spinning
      else if is_conflict api err \<and> 0 < n then CheckingDuplicate (n - 1)
      else Leaving (Inl err))"

text \<open>The part of tryAllocatePort that makes no call: the choice of load balancer and ports.\<close>

definition choose_ports ::
  "call \<Rightarrow> poolAndAllocations \<Rightarrow> time \<Rightarrow> PoolAllocator \<Rightarrow> ('e error + PortAllocation) \<times> PoolAllocator" where
  "choose_ports c allocations now pa =
     (let cps = call_ports c; build = build_allocation (pna_pool allocations) (call_pod c) (call_podns c) in
      if length cps = 0 then (Inr (build [] now), pa)
      else
        case SelectLoadBalancer pa allocations (int (length cps)) of
          (Inl err, pa') \<Rightarrow> (Inl (FailedToSelectLoadBalancer err), pa')
        | (Inr selectedLB, pa') \<Rightarrow>
            (case findAvailablePorts allocations selectedLB (int (length cps)) of
               Inl err \<Rightarrow> (Inl (FailedToFindPorts (lb_ID selectedLB) err), pa')
             | Inr lbPorts \<Rightarrow> (Inr (build (make_bindings selectedLB cps lbPorts) now), pa')))"

text \<open>
  One step of one call, \<open>None\<close> where it cannot move: its mutex is held, it is in the
  endless loop, or it has returned.
\<close>

fun advance ::
  "('s, 'e) kube_client \<Rightarrow> call \<Rightarrow> 'e stage \<Rightarrow> PoolAllocator \<Rightarrow> 's \<Rightarrow> ('e stage \<times> PoolAllocator \<times> 's) option" where
  "advance api c Entering pa s =
     (let (key, pa1) = getPoolMutex pa (call_pool c) (call_namespace c) in
      if mutex_held key pa1 then None
      else Some (case c of Allocating _ _ _ _ _ \<Rightarrow> CheckingDuplicate 4 | Releasing _ _ _ _ \<Rightarrow> Fetching,
                 set_mutex key True pa1, s))"
| "advance api c (CheckingDuplicate n) pa s =
     (case checkForDuplicateAllocation api (call_pool c) (call_pod c) (call_podns c) s of
        (Some err, s1) \<Rightarrow> Some (after_error api n err, pa, s1)
      | (None, s1) \<Rightarrow> Some (GettingPool n, pa, s1))"
| "advance api c (GettingPool n) pa s =
     (case kc_GetPool api \<lparr>nn_Namespace = call_podns c, nn_Name = call_pool c\<rparr> s of
        (Inl err, s1) \<Rightarrow>
          Some (after_error api n (FailedToGetPoolAndAllocations (FailedToGetPool (call_pool c) (ApiError err))), pa, s1)
      | (Inr pool, s1) \<Rightarrow> Some (ListingAllocations n pool, pa, s1))"
| "advance api c (ListingAllocations n pool) pa s =
     (case kc_ListAllocations api [(LabelPoolNameKey, om_Name (np_ObjectMeta pool))] None s of
        (Inl err, s1) \<Rightarrow>
          Some (after_error api n (FailedToGetPoolAndAllocations
                  (FailedToListAllocations (om_Name (np_ObjectMeta pool)) (ApiError err))), pa, s1)
      | (Inr allocations, s1) \<Rightarrow> Some (Choosing n \<lparr>pna_pool = pool, pna_allocations = allocations\<rparr>, pa, s1))"
| "advance api c (Choosing n sn) pa s =
     (case choose_ports c sn (kc_Now api s) pa of
        (Inl err, pa') \<Rightarrow> Some (after_error api n err, pa', s)
      | (Inr allocation, pa') \<Rightarrow> Some (GettingExisting n allocation, pa', s))"
| "advance api c (GettingExisting n allocation) pa s =
     (case kc_GetAllocation api (alloc_key allocation) s of
        (Inl err, s1) \<Rightarrow>
          Some (if \<not> kc_IsNotFound api err then after_error api n (FailedToCheckExisting (ApiError err))
                else Creating n allocation, pa, s1)
      | (Inr existing, s1) \<Rightarrow>
          Some (after_error api n
            (if om_DeletionTimestamp (pa_ObjectMeta existing) \<noteq> None
             then AllocationBeingDeleted (om_Namespace (pa_ObjectMeta existing)) (om_Name (pa_ObjectMeta existing))
             else AllocationAlreadyExists (om_Namespace (pa_ObjectMeta existing)) (om_Name (pa_ObjectMeta existing))),
            pa, s1))"
| "advance api c (Creating n allocation) pa s =
     (case kc_CreateAllocation api allocation s of
        (Inl err, s1) \<Rightarrow> Some (after_error api n (FailedToCreateAllocation (ApiError err)), pa, s1)
      | (Inr created, s1) \<Rightarrow> Some (Leaving (Inr (Some created)), pa, s1))"
| "advance api c Fetching pa s =
     (let allocationName = sprintf_dash (call_pool c) (call_pod c) in
      case kc_GetAllocation api \<lparr>nn_Namespace = call_namespace c, nn_Name = allocationName\<rparr> s of
        (Inl err, s1) \<Rightarrow>
          Some (Leaving (Inl
            (if \<not> kc_IsNotFound api err then FailedToGetAllocation allocationName (ApiError err)
             else AllocationNotFound (call_podns c) (call_pod c) (call_pool c))), pa, s1)
      | (Inr allocation, s1) \<Rightarrow>
          Some (if pi_Name (pod_info allocation) \<noteq> call_pod c \<or> pi_Namespace (pod_info allocation) \<noteq> call_podns c
                then Leaving (Inl (AllocationNotOfPod allocationName (call_podns c) (call_pod c)))
                else if gm_get '''' (om_Labels (pa_ObjectMeta allocation)) LabelPoolNameKey \<noteq> call_pool c
                then Leaving (Inl (AllocationNotOfPool allocationName (call_pool c)))
                else if om_DeletionTimestamp (pa_ObjectMeta allocation) \<noteq> None
                then Leaving (Inl (AllocationAlreadyDeleting allocationName))
                else Deleting allocation, pa, s1))"
| "advance api c (Deleting allocation) pa s =
     (case kc_DeleteAllocation api allocation s of
        (Inl err, s1) \<Rightarrow>
          Some (Leaving (Inl (FailedToDeleteAllocation (sprintf_dash (call_pool c) (call_pod c)) (ApiError err))), pa, s1)
      | (Inr _, s1) \<Rightarrow> Some (Leaving (Inr None), pa, s1))"
| "advance api c (Leaving r) pa s =
     Some (Done r, set_mutex (sprintf_slash (call_namespace c) (call_pool c)) False pa, s)"
| "advance api c Spinning pa s = None"
| "advance api c (Done r) pa s = None"

section \<open>A call that runs alone\<close>

definition advances ::
  "('s, 'e) kube_client \<Rightarrow> call \<Rightarrow> 'e stage \<times> PoolAllocator \<times> 's \<Rightarrow> 'e stage \<times> PoolAllocator \<times> 's \<Rightarrow> bool" where
  "advances api c x y \<longleftrightarrow> (case x of (st, pa, s) \<Rightarrow> advance api c st pa s = Some y)"

text \<open>The whole call as Allocator and Release define it.\<close>

definition run_call ::
  "('s, 'e) kube_client \<Rightarrow> ('s alloc_vars, 'e error) retrier \<Rightarrow> call \<Rightarrow> PoolAllocator \<Rightarrow> 's \<Rightarrow>
   ('e error + PortAllocation option, PoolAllocator \<times> 's) go" where
  "run_call api retry c pa s =
     (case c of
        Allocating pool n pod ns cps \<Rightarrow> map_go (map_sum id Some) id (AllocatePort api retry pool n pod ns cps pa s)
      | Releasing pool n pod ns \<Rightarrow>
          map_go (\<lambda>err. case err of None \<Rightarrow> Inr None | Some e \<Rightarrow> Inl e) id (ReleasePort api pool n pod ns pa s))"

lemma solo_first:
  "advance api c st pa s = Some x \<Longrightarrow> (advances api c)\<^sup>*\<^sup>* x y \<Longrightarrow> (advances api c)\<^sup>*\<^sup>* (st, pa, s) y"
  by (rule converse_rtranclp_into_rtranclp) (simp_all add: advances_def)

lemma solo_one: "advance api c st pa s = Some x \<Longrightarrow> (advances api c)\<^sup>*\<^sup>* (st, pa, s) x"
  by (rule solo_first [OF _ rtranclp.rtrancl_refl])

lemma never_returns_no_conflict: "never_returns e \<Longrightarrow> \<not> is_conflict api e"
proof -
  have "never_returns e \<Longrightarrow> api_cause e = None" by (induction e) simp_all
  then show "never_returns e \<Longrightarrow> \<not> is_conflict api e" by (simp add: is_conflict_def)
qed

text \<open>tryAllocatePort is its three calls and the choice between them.\<close>

lemma tryAllocatePort_choose:
  "tryAllocatePort api (call_pool c) n (call_pod c) (call_podns c) (call_ports c) pa s =
     (case checkForDuplicateAllocation api (call_pool c) (call_pod c) (call_podns c) s of
        (Some err, s1) \<Rightarrow> (Inl err, pa, s1)
      | (None, s1) \<Rightarrow>
          (case getPoolAndAllocations api (call_pool c) (call_podns c) s1 of
             (Inl err, s2) \<Rightarrow> (Inl (FailedToGetPoolAndAllocations err), pa, s2)
           | (Inr sn, s2) \<Rightarrow> (case choose_ports c sn (kc_Now api s2) pa of (r, pa') \<Rightarrow> (r, pa', s2))))"
  by (simp add: tryAllocatePort_def choose_ports_def Let_def split: option.splits prod.splits sum.splits)

definition attempt_end ::
  "('s, 'e) kube_client \<Rightarrow> nat \<Rightarrow> 'e error option \<times> 's alloc_vars \<Rightarrow> 'e stage \<times> PoolAllocator \<times> 's" where
  "attempt_end api n out =
     (case out of
        (Some e, _, pa, s) \<Rightarrow> (after_error api n e, pa, s)
      | (None, v, pa, s) \<Rightarrow> (Leaving (Inr v), pa, s))"

lemma create_solo:
  "(advances api c)\<^sup>*\<^sup>* (GettingExisting n a, pa, s)
     (case createAllocation api (Some a) s of
        (Inl err, s') \<Rightarrow> (after_error api n err, pa, s')
      | (Inr b, s') \<Rightarrow> (Leaving (Inr (Some b)), pa, s'))"
proof -
  obtain e s1 where ex: "kc_GetAllocation api (alloc_key a) s = (e, s1)" by (cases "kc_GetAllocation api (alloc_key a) s")
  show ?thesis
  proof (cases "\<exists>err. e = Inl err \<and> kc_IsNotFound api err")
    case True
    with ex have "advance api c (GettingExisting n a) pa s = Some (Creating n a, pa, s1)" by auto
    note first = solo_first [OF this solo_one]
    from ex True show ?thesis
      by (auto simp: createAllocation_def intro: first split: prod.split sum.split)
  next
    case False
    with ex show ?thesis
      by (intro solo_one) (auto simp: createAllocation_def split: sum.splits)
  qed
qed

lemma choose_solo:
  "(advances api c)\<^sup>*\<^sup>* (Choosing n sn, pa, s)
     (case choose_ports c sn (kc_Now api s) pa of
        (Inl err, pa') \<Rightarrow> (after_error api n err, pa', s)
      | (Inr a, pa') \<Rightarrow>
          (case createAllocation api (Some a) s of
             (Inl err, s') \<Rightarrow> (after_error api n err, pa', s')
           | (Inr b, s') \<Rightarrow> (Leaving (Inr (Some b)), pa', s')))"
  by (auto split: prod.split sum.split intro: solo_one solo_first [OF _ create_solo [of api, THEN rtranclp_trans]])

lemma pool_solo:
  "(advances api c)\<^sup>*\<^sup>* (GettingPool n, pa, s)
     (case getPoolAndAllocations api (call_pool c) (call_podns c) s of
        (Inl err, s') \<Rightarrow> (after_error api n (FailedToGetPoolAndAllocations err), pa, s')
      | (Inr sn, s') \<Rightarrow> (Choosing n sn, pa, s'))"
proof -
  obtain p s1 where get: "kc_GetPool api \<lparr>nn_Namespace = call_podns c, nn_Name = call_pool c\<rparr> s = (p, s1)"
    by (cases "kc_GetPool api \<lparr>nn_Namespace = call_podns c, nn_Name = call_pool c\<rparr> s")
  show ?thesis
  proof (cases p)
    case (Inl err)
    with get show ?thesis by (intro solo_one) (simp add: getPoolAndAllocations_def)
  next
    case (Inr pool)
    with get have "advance api c (GettingPool n) pa s = Some (ListingAllocations n pool, pa, s1)" by simp
    note first = solo_first [OF this solo_one]
    from get Inr show ?thesis
      by (auto simp: getPoolAndAllocations_def intro: first split: prod.split sum.split)
  qed
qed

lemma attempt_solo:
  "(advances api c)\<^sup>*\<^sup>* (CheckingDuplicate n, pa, s)
     (attempt_end api n (allocate_attempt api (call_pool c) ns (call_pod c) (call_podns c) (call_ports c) (v, pa, s)))"
proof -
  note run = allocate_attempt_def tryAllocatePort_choose attempt_end_def
  obtain d s1 where chk: "checkForDuplicateAllocation api (call_pool c) (call_pod c) (call_podns c) s = (d, s1)"
    by (cases "checkForDuplicateAllocation api (call_pool c) (call_pod c) (call_podns c) s")
  obtain g s2 where get: "getPoolAndAllocations api (call_pool c) (call_podns c) s1 = (g, s2)"
    by (cases "getPoolAndAllocations api (call_pool c) (call_podns c) s1")
  show ?thesis
  proof (cases d)
    case (Some err)
    with chk show ?thesis by (intro solo_one) (simp add: run)
  next
    case None
    with chk have "advance api c (CheckingDuplicate n) pa s = Some (GettingPool n, pa, s1)" by simp
    note first = solo_first [OF this rtranclp_trans [OF pool_solo]]
    show ?thesis
    proof (cases g)
      case (Inl err)
      with chk None get show ?thesis by (intro first) (simp add: run)
    next
      case (Inr sn)
      have "attempt_end api n (allocate_attempt api (call_pool c) ns (call_pod c) (call_podns c) (call_ports c) (v, pa, s)) =
        (case choose_ports c sn (kc_Now api s2) pa of
           (Inl err, pa') \<Rightarrow> (after_error api n err, pa', s2)
         | (Inr a, pa') \<Rightarrow>
             (case createAllocation api (Some a) s2 of
                (Inl err, s') \<Rightarrow> (after_error api n err, pa', s')
              | (Inr b, s') \<Rightarrow> (Leaving (Inr (Some b)), pa', s')))"
        using chk None get Inr by (simp add: run split: prod.split sum.split)
      with get Inr choose_solo [of api c n sn pa s2] show ?thesis by (intro first) simp
    qed
  qed
qed

text \<open>After the last retry a conflict is the result, as any other error.\<close>

definition call_end :: "'e error option \<times> 's alloc_vars \<Rightarrow> 'e stage \<times> PoolAllocator \<times> 's" where
  "call_end out =
     (case out of
        (Some e, _, pa, s) \<Rightarrow> (if never_returns e then Spinning else Leaving (Inl e), pa, s)
      | (None, v, pa, s) \<Rightarrow> (Leaving (Inr v), pa, s))"

lemma retry_solo:
  "(advances api c)\<^sup>*\<^sup>* (CheckingDuplicate n, pa, s)
     (call_end (retry_runs (is_conflict api)
        (allocate_attempt api (call_pool c) ns (call_pod c) (call_podns c) (call_ports c)) n (v, pa, s)))"
proof (induction n arbitrary: v pa s)
  case 0
  let ?fn = "allocate_attempt api (call_pool c) ns (call_pod c) (call_podns c) (call_ports c)"
  have "attempt_end api 0 x = call_end x" for x
    by (simp add: attempt_end_def call_end_def after_error_def split: prod.split option.split)
  with attempt_solo [of api c 0 pa s ns v] show ?case by simp
next
  case (Suc n)
  let ?fn = "allocate_attempt api (call_pool c) ns (call_pod c) (call_podns c) (call_ports c)"
  obtain r v' pa' s' where out: "?fn (v, pa, s) = (r, v', pa', s')" by (cases "?fn (v, pa, s)") auto
  show ?case
  proof (cases "\<exists>e. r = Some e \<and> is_conflict api e")
    case True
    then obtain e where e: "r = Some e" "is_conflict api e" by blast
    with never_returns_no_conflict have "\<not> never_returns e" by blast
    with e out have "attempt_end api (Suc n) (?fn (v, pa, s)) = (CheckingDuplicate n, pa', s')"
      by (simp add: attempt_end_def after_error_def)
    with attempt_solo have "(advances api c)\<^sup>*\<^sup>* (CheckingDuplicate (Suc n), pa, s) (CheckingDuplicate n, pa', s')"
      by metis
    also note Suc.IH [of pa' s' v']
    finally show ?thesis using out e by simp
  next
    case False
    with out have "call_end (retry_runs (is_conflict api) ?fn (Suc n) (v, pa, s)) = attempt_end api (Suc n) (?fn (v, pa, s))"
      by (cases r) (simp_all add: attempt_end_def call_end_def after_error_def)
    then show ?thesis by (simp only: attempt_solo)
  qed
qed

lemma release_solo:
  "(advances api c)\<^sup>*\<^sup>* (Fetching, pa, s)
     (case release_held api (call_pool c) (call_namespace c) (call_pod c) (call_podns c) s of
        (err, s') \<Rightarrow> (Leaving (case err of None \<Rightarrow> Inr None | Some e \<Rightarrow> Inl e), pa, s'))"
proof -
  let ?k = "\<lparr>nn_Namespace = call_namespace c, nn_Name = sprintf_dash (call_pool c) (call_pod c)\<rparr>"
  obtain g s1 where get: "kc_GetAllocation api ?k s = (g, s1)" by (cases "kc_GetAllocation api ?k s")
  show ?thesis
  proof (cases "\<exists>a. advance api c Fetching pa s = Some (Deleting a, pa, s1)")
    case True
    then obtain a where a: "advance api c Fetching pa s = Some (Deleting a, pa, s1)" by blast
    with get have "g = Inr a" by (auto simp: Let_def split: sum.splits if_splits)
    note first = solo_first [OF a solo_one]
    from get a \<open>g = Inr a\<close> show ?thesis
      by (auto simp: release_held_def Let_def intro: first split: prod.split sum.split if_splits)
  next
    case False
    with get show ?thesis
      by (intro solo_one) (auto simp: release_held_def Let_def split: sum.splits if_splits)
  qed
qed

lemma retry_runs_stored:
  assumes "retry_runs conflict (allocate_attempt api pool n pod ns cps) k (v, pa, s) = (None, v', pa', s')"
  shows "v' \<noteq> None"
proof -
  from retry_runs_invariant [of "\<lambda>_. True" "(v, pa, s)" "allocate_attempt api pool n pod ns cps" conflict k] assms
  obtain c0 where "allocate_attempt api pool n pod ns cps c0 = (None, v', pa', s')" by auto
  then show ?thesis by (auto simp: allocate_attempt_def split: prod.splits sum.splits)
qed

text \<open>Where the call comes to rest: returned, waiting for the mutex, or in the endless loop.\<close>

definition rests ::
  "('e error + PortAllocation option, PoolAllocator \<times> 's) go \<Rightarrow> 'e stage \<times> PoolAllocator \<times> 's \<Rightarrow> bool" where
  "rests out y =
     (case out of
        Returns r (pa, s) \<Rightarrow> y = (Done r, pa, s)
      | Panics _ \<Rightarrow> False
      | Blocks _ \<Rightarrow> fst y \<in> {Entering, Spinning})"

lemma allocate_rests:
  assumes "retries_on_conflict api retry" and "\<not> mutex_held (sprintf_slash n pool) pa"
  shows "\<exists>y. (advances api (Allocating pool n pod ns cps))\<^sup>*\<^sup>*
      (CheckingDuplicate 4, set_mutex (sprintf_slash n pool) True (snd (getPoolMutex pa pool n)), s) y \<and>
    (\<forall>z. \<not> advances api (Allocating pool n pod ns cps) y z) \<and>
    rests (run_call api retry (Allocating pool n pod ns cps) pa s) y"
proof -
  let ?c = "Allocating pool n pod ns cps"
  let ?pa1 = "set_mutex (sprintf_slash n pool) True (snd (getPoolMutex pa pool n))"
  obtain r v pa2 s2 where out: "retry_runs (is_conflict api) (allocate_attempt api pool n pod ns cps) 4 (None, ?pa1, s) = (r, v, pa2, s2)"
    by (cases "retry_runs (is_conflict api) (allocate_attempt api pool n pod ns cps) 4 (None, ?pa1, s)") auto
  then have retry: "retry (allocate_attempt api pool n pod ns cps) (None, ?pa1, s) = (r, v, pa2, s2)"
    using assms(1) by (simp only: retries_on_conflict_def)
  note steps = retry_solo [of api ?c 4 ?pa1 s n None, simplified call.sel call_ports.simps out]
  let ?pa3 = "set_mutex (sprintf_slash n pool) False pa2"
  consider (spins) e where "r = Some e" "never_returns e" | (fails) e where "r = Some e" "\<not> never_returns e"
    | (stores) a where "r = None" "v = Some a"
    using retry_runs_stored [of "is_conflict api" api pool n pod ns cps 4 None ?pa1 s v pa2 s2] out by (cases r) auto
  then show ?thesis
  proof cases
    case spins
    with steps retry assms(2) show ?thesis
      by (intro exI [of _ "(Spinning, pa2, s2)"])
        (simp add: call_end_def advances_def rests_def run_call_def AllocatePort_def split_beta Let_def)
  next
    case fails
    with steps have "(advances api ?c)\<^sup>*\<^sup>* (CheckingDuplicate 4, ?pa1, s) (Leaving (Inl e), pa2, s2)"
      by (simp add: call_end_def)
    also have "(advances api ?c)\<^sup>*\<^sup>* (Leaving (Inl e), pa2, s2) (Done (Inl e), ?pa3, s2)" by (rule solo_one) simp
    finally show ?thesis
      using fails retry assms(2) by (intro exI [of _ "(Done (Inl e), ?pa3, s2)"])
        (simp add: advances_def rests_def run_call_def AllocatePort_def split_beta Let_def)
  next
    case stores
    with steps have "(advances api ?c)\<^sup>*\<^sup>* (CheckingDuplicate 4, ?pa1, s) (Leaving (Inr (Some a)), pa2, s2)"
      by (simp add: call_end_def)
    also have "(advances api ?c)\<^sup>*\<^sup>* (Leaving (Inr (Some a)), pa2, s2) (Done (Inr (Some a)), ?pa3, s2)"
      by (rule solo_one) simp
    finally show ?thesis
      using stores retry assms(2) by (intro exI [of _ "(Done (Inr (Some a)), ?pa3, s2)"])
        (simp add: advances_def rests_def run_call_def AllocatePort_def split_beta Let_def)
  qed
qed

lemma call_rests:
  assumes "retries_on_conflict api retry"
  shows "\<exists>y. (advances api c)\<^sup>*\<^sup>* (Entering, pa, s) y \<and> (\<forall>z. \<not> advances api c y z) \<and>
    rests (run_call api retry c pa s) y"
proof (cases "mutex_held (sprintf_slash (call_namespace c) (call_pool c)) pa")
  case True
  then show ?thesis
    by (intro exI [of _ "(Entering, pa, s)"])
      (cases c; simp add: advances_def rests_def run_call_def AllocatePort_def ReleasePort_cases split_beta Let_def)
next
  case False
  let ?key = "sprintf_slash (call_namespace c) (call_pool c)"
  let ?pa1 = "set_mutex ?key True (snd (getPoolMutex pa (call_pool c) (call_namespace c)))"
  show ?thesis
  proof (cases c)
    case (Allocating pool n pod ns cps)
    with False have "advance api c Entering pa s = Some (CheckingDuplicate 4, ?pa1, s)" by (simp add: split_beta Let_def)
    note first = solo_first [OF this]
    from allocate_rests [OF assms, of n pool pa pod ns cps s] False obtain y where
      "(advances api c)\<^sup>*\<^sup>* (CheckingDuplicate 4, ?pa1, s) y" "\<forall>z. \<not> advances api c y z"
      "rests (run_call api retry c pa s) y" using Allocating by auto
    with first show ?thesis by blast
  next
    case (Releasing pool n pod ns)
    obtain err s1 where rel: "release_held api pool n pod ns s = (err, s1)" by (cases "release_held api pool n pod ns s")
    let ?r = "case err of None \<Rightarrow> Inr None | Some e \<Rightarrow> Inl e"
    have "(advances api c)\<^sup>*\<^sup>* (Entering, pa, s) (Fetching, ?pa1, s)"
      using False Releasing by (intro solo_one) (simp add: split_beta Let_def)
    also have "(advances api c)\<^sup>*\<^sup>* (Fetching, ?pa1, s) (Leaving ?r, ?pa1, s1)"
      using release_solo [of api c ?pa1 s] rel Releasing by simp
    also have "(advances api c)\<^sup>*\<^sup>* (Leaving ?r, ?pa1, s1) (Done ?r, set_mutex ?key False ?pa1, s1)"
      by (rule solo_one) simp
    finally show ?thesis
      using False Releasing rel by (intro exI [of _ "(Done ?r, set_mutex ?key False ?pa1, s1)"])
        (simp add: advances_def rests_def run_call_def ReleasePort_cases)
  qed
qed

lemma rest_unique:
  assumes "(advances api c)\<^sup>*\<^sup>* x y" and "(advances api c)\<^sup>*\<^sup>* x z"
    and "\<forall>u. \<not> advances api c y u" and "\<forall>u. \<not> advances api c z u"
  shows "y = z"
  using assms
proof (induction rule: converse_rtranclp_induct)
  case base
  then show ?case by (meson converse_rtranclpE)
next
  case (step x x')
  then have "x \<noteq> z" by blast
  with step.prems(1) obtain x'' where "advances api c x x''" "(advances api c)\<^sup>*\<^sup>* x'' z"
    by (metis converse_rtranclpE)
  moreover from this(1) step.hyps(1) have "x'' = x'" by (auto simp: advances_def split: prod.splits)
  ultimately show ?case using step by blast
qed

section \<open>The interleaving\<close>

text \<open>
  The calls in flight, the allocator they share, and the world. A step is one call
  moving, a call arriving, or a change elsewhere in the cluster that leaves the
  allocations alone. All calls pass the same namespace \<open>n\<close> with the pool, as the pod
  controller does (it passes the empty one).
\<close>

type_synonym ('s, 'e) system = "(call \<times> 'e stage) list \<times> PoolAllocator \<times> 's"

inductive call_step :: "('s, 'e) kube_client \<Rightarrow> ('s, 'e) system \<Rightarrow> ('s, 'e) system \<Rightarrow> bool"
  for api :: "('s, 'e) kube_client" where
  moves: "i < length ws \<Longrightarrow> ws ! i = (c, st) \<Longrightarrow> advance api c st pa s = Some (st', pa', s') \<Longrightarrow>
    call_step api (ws, pa, s) (ws[i := (c, st')], pa', s')"

inductive_cases call_stepE: "call_step api (ws, pa, s) (ws', pa', s')"

inductive concurrent ::
  "('s, 'e) kube_client \<Rightarrow> ('s \<Rightarrow> cluster) \<Rightarrow> string \<Rightarrow> PoolAllocator \<times> 's \<Rightarrow> ('s, 'e) system \<Rightarrow> bool"
  for api :: "('s, 'e) kube_client" and view :: "'s \<Rightarrow> cluster" and n :: string and c0 :: "PoolAllocator \<times> 's" where
  starts: "concurrent api view n c0 ([], c0)"
| steps: "concurrent api view n c0 x \<Longrightarrow> call_step api x y \<Longrightarrow> concurrent api view n c0 y"
| arrives: "concurrent api view n c0 (ws, pa, s) \<Longrightarrow> call_namespace c = n \<Longrightarrow>
    concurrent api view n c0 (ws @ [(c, Entering)], pa, s)"
| changes: "concurrent api view n c0 (ws, pa, s) \<Longrightarrow> cl_Allocs (view s') = cl_Allocs (view s) \<Longrightarrow>
    pools_bounded (view s') \<Longrightarrow> concurrent api view n c0 (ws, pa, s')"

text \<open>The stages in which a call has the mutex.\<close>

fun inside :: "'e stage \<Rightarrow> bool" where
  "inside Entering = False"
| "inside (Done _) = False"
| "inside _ = True"

abbreviation call_key :: "call \<Rightarrow> string" where
  "call_key c \<equiv> sprintf_slash (call_namespace c) (call_pool c)"

section \<open>What a call knows\<close>

text \<open>
  The assertion at each stage about the cluster as it is now: once the duplicate check has
  passed the pod holds nothing in the pool; the snapshot covers every slot in use; the
  allocation that was built can be granted. While the call has the mutex the others can
  only make the pool's allocations fewer, which keeps all of it true.
\<close>

definition pool_fits :: "call \<Rightarrow> ApolloNetworkPool \<Rightarrow> bool" where
  "pool_fits c pool \<longleftrightarrow>
     om_Name (np_ObjectMeta pool) = call_pool c \<and> sint (pr_Max (port_range pool)) < 2 ^ 31 - 1"

definition pod_free :: "cluster \<Rightarrow> call \<Rightarrow> bool" where
  "pod_free cl c \<longleftrightarrow> (call_podns c, call_pod c) \<notin> pod_of ` set (pool_allocs cl (call_pool c))"

fun knows :: "cluster \<Rightarrow> call \<Rightarrow> 'e stage \<Rightarrow> bool" where
  "knows cl c (GettingPool _) = pod_free cl c"
| "knows cl c (ListingAllocations _ pool) = (pod_free cl c \<and> pool_fits c pool)"
| "knows cl c (Choosing _ sn) =
     (pod_free cl c \<and> pool_fits c (pna_pool sn) \<and>
      set (slots (pool_allocs cl (call_pool c))) \<subseteq> set (slots (al_Items (pna_allocations sn))))"
| "knows cl c (GettingExisting _ a) = grantable cl (call_pool c) a"
| "knows cl c (Creating _ a) = grantable cl (call_pool c) a"
| "knows cl c Spinning = False"
| "knows cl c _ = True"

definition shrinks :: "string \<Rightarrow> cluster \<Rightarrow> cluster \<Rightarrow> bool" where
  "shrinks pool cl cl' \<longleftrightarrow>
     pod_of ` set (pool_allocs cl' pool) \<subseteq> pod_of ` set (pool_allocs cl pool) \<and>
     set (slots (pool_allocs cl' pool)) \<subseteq> set (slots (pool_allocs cl pool))"

lemma knows_stable:
  assumes "knows cl c st" and "shrinks (call_pool c) cl cl'"
  shows "knows cl' c st"
  using assms by (cases st) (auto simp: shrinks_def pod_free_def grantable_def)

lemma shrinks_same: "cl_Allocs cl' = cl_Allocs cl \<Longrightarrow> shrinks pool cl cl'"
  by (simp add: shrinks_def pool_allocs_def)

lemma shrinks_remove: "shrinks pool cl (remove_key k cl)"
  by (auto simp: shrinks_def pool_allocs_remove slots_def set_all_bindings)

lemma shrinks_mark: "shrinks pool cl (mark_key t k cl)"
  by (auto simp: shrinks_def pool_allocs_mark)

lemma shrinks_store: "grantable cl q a \<Longrightarrow> pool \<noteq> q \<Longrightarrow> shrinks pool cl (store_alloc a cl)"
  using grantable_in_pool [of cl q a pool] by (simp add: shrinks_def pool_allocs_store)

section \<open>One step of a call\<close>

lemma choose_ports_grantable:
  assumes "knows cl c (Choosing n sn)" and "choose_ports c sn now pa = (Inr a, pa')"
  shows "grantable cl (call_pool c) a"
proof -
  from assms(1) have free: "pod_free cl c" and name: "om_Name (np_ObjectMeta (pna_pool sn)) = call_pool c"
    and m: "sint (pr_Max (port_range (pna_pool sn))) < 2 ^ 31 - 1"
    and sub: "set (slots (pool_allocs cl (call_pool c))) \<subseteq> set (slots (al_Items (pna_allocations sn)))"
    by (simp_all add: pool_fits_def)
  from assms(2) obtain bs where a: "a = build_allocation (pna_pool sn) (call_pod c) (call_podns c) bs now"
    and bs: "bs = [] \<or> (\<exists>lb ps. bs = make_bindings lb (call_ports c) ps \<and>
      findAvailablePorts sn lb (int (length (call_ports c))) = (Inr ps :: 'b error + int32 list))"
    by (auto simp: choose_ports_def Let_def split: if_splits prod.splits sum.splits)
  from bs have "distinct (map slot_of bs) \<and> set (map slot_of bs) \<inter> set (slots (al_Items (pna_allocations sn))) = {}"
  proof (elim disjE exE conjE)
    fix lb ps
    assume "bs = make_bindings lb (call_ports c) ps"
      and fnd: "findAvailablePorts sn lb (int (length (call_ports c))) = (Inr ps :: 'b error + int32 list)"
    with found_slots [OF m fnd] show ?thesis by simp
  qed simp
  with sub have "distinct (map slot_of bs)" "set (map slot_of bs) \<inter> set (slots (pool_allocs cl (call_pool c))) = {}"
    by blast+
  with free name show ?thesis by (auto simp: a grantable_def pod_free_def pod_of_def)
qed

lemma choose_ports_frame: "choose_ports c sn now pa = (r, pa') \<Longrightarrow> al_poolMutexes pa' = al_poolMutexes pa"
  using selection.select_frame
  by (fastforce simp: choose_ports_def Let_def split: if_splits prod.splits sum.splits)

lemma choose_ports_returns:
  assumes "pool_fits c (pna_pool sn)" and "choose_ports c sn now pa = (Inl e, pa')"
  shows "\<not> never_returns e"
proof -
  have m: "sint (pr_Max (port_range (pna_pool sn))) < 2 ^ 31 - 1" using assms(1) by (simp add: pool_fits_def)
  have "\<not> never_returns e'" if "findAvailablePorts sn lb k = (Inl e' :: 'a error + int32 list)" for lb k e'
    using findAvailablePorts_terminates [OF m] findAvailablePorts_error [OF that] that by metis
  then show ?thesis
    using assms(2) by (auto simp: choose_ports_def Let_def split: if_splits prod.splits sum.splits)
qed

text \<open>After an error the call knows nothing and keeps the mutex.\<close>

lemma after_error_knows: "\<not> never_returns e \<Longrightarrow> knows cl c (after_error api n e) \<and> inside (after_error api n e)"
  by (simp add: after_error_def)

text \<open>What a step may do to the cluster.\<close>

definition effect :: "call \<Rightarrow> 'e stage \<Rightarrow> cluster \<Rightarrow> cluster \<Rightarrow> bool" where
  "effect c st cl cl' \<longleftrightarrow>
     cl' = cl \<or> (inside st \<and> (\<exists>a. grantable cl (call_pool c) a \<and> cl' = store_alloc a cl)) \<or>
     (\<exists>k. cl' = remove_key k cl) \<or> (\<exists>k t. cl' = mark_key t k cl)"

lemma effect_ledger: "effect c st cl cl' \<Longrightarrow> ledger_ok cl \<Longrightarrow> ledger_ok cl'"
  by (auto simp: effect_def ledger_ok_store ledger_ok_remove ledger_ok_mark)

lemma effect_pools: "effect c st cl cl' \<Longrightarrow> cl_Pools cl' = cl_Pools cl"
  by (auto simp: effect_def)

lemma effect_shrinks: "effect c st cl cl' \<Longrightarrow> (inside st \<longrightarrow> pool \<noteq> call_pool c) \<Longrightarrow> shrinks pool cl cl'"
  by (auto simp: effect_def shrinks_same shrinks_remove shrinks_mark shrinks_store)

lemma grantable_same_content: "grantable cl pool a \<Longrightarrow> same_content a b \<Longrightarrow> grantable cl pool b"
  by (simp add: grantable_def same_content_def pod_of_def)

lemma advance_effect:
  assumes "consistent_client api view" and "advance api c st pa s = Some (st', pa', s')" and "knows (view s) c st"
  shows "effect c st (view s) (view s')"
proof (cases st)
  case (CheckingDuplicate n)
  with assms(2) checkForDuplicateAllocation_view [OF assms(1)] show ?thesis
    by (auto simp: effect_def split: prod.splits option.splits)
next
  case (Creating n a)
  then have g: "grantable (view s) (call_pool c) a" using assms(3) by simp
  obtain r s1 where k: "kc_CreateAllocation api a s = (r, s1)" by (cases "kc_CreateAllocation api a s")
  with assms(2) Creating have "s1 = s'" by (auto split: sum.splits)
  with k show ?thesis
  proof (cases r)
    case (Inr b)
    with k \<open>s1 = s'\<close> have k: "kc_CreateAllocation api a s = (Inr b, s')" by simp
    have "grantable (view s) (call_pool c) b" by (rule grantable_same_content [OF g create_Inr(1) [OF assms(1) k]])
    with create_Inr(3) [OF assms(1) k] Creating show ?thesis unfolding effect_def by simp blast
  qed (use create_Inl [OF assms(1)] in \<open>auto simp: effect_def\<close>)
next
  case (Deleting a)
  obtain r s1 where k: "kc_DeleteAllocation api a s = (r, s1)" by (cases "kc_DeleteAllocation api a s")
  with assms(2) Deleting have "s1 = s'" by (auto split: sum.splits)
  with k show ?thesis
  proof (cases r)
    case (Inr u)
    with k \<open>s1 = s'\<close> have "kc_DeleteAllocation api a s = (Inr (), s')" by simp
    from assms(1) this show ?thesis by (cases rule: delete_Inr) (auto simp: effect_def)
  qed (use delete_Inl [OF assms(1)] in \<open>auto simp: effect_def\<close>)
qed (use assms(2) get_pool_view [OF assms(1)] list_view [OF assms(1)] get_allocation_view [OF assms(1)]
  in \<open>auto simp: effect_def Let_def split: prod.splits sum.splits if_splits\<close>)

lemma advance_mutex:
  fixes api :: "('s, 'e) kube_client"
  assumes "advance api c st pa s = Some (st', pa', s')" and "inside st \<longrightarrow> mutex_held (call_key c) pa"
  shows "mutex_held k pa' \<longleftrightarrow> (if k = call_key c then inside st' else mutex_held k pa)"
    and "inside st \<or> \<not> mutex_held (call_key c) pa"
proof -
  have "mutex_held k pa' = (if k = call_key c then inside st' else mutex_held k pa) \<and>
      (inside st \<or> \<not> mutex_held (call_key c) pa)"
  proof (cases st)
    case Entering
    with assms(1) show ?thesis by (cases c) (auto simp: split_beta Let_def split: if_splits)
  next
    case (Choosing n sn)
    obtain r pa1 where ch: "choose_ports c sn (kc_Now api s) pa = (r :: 'e error + PortAllocation, pa1)"
      by (cases "choose_ports c sn (kc_Now api s) pa :: ('e error + PortAllocation) \<times> PoolAllocator")
    then have held: "mutex_held q pa1 = mutex_held q pa" for q by (rule mutex_held_cong [OF choose_ports_frame])
    have "pa' = pa1 \<and> inside st'"
      using ch assms(1) Choosing by (cases r) (auto simp: after_error_def)
    with assms(2) Choosing show ?thesis by (simp add: held)
  qed (use assms in \<open>auto simp: Let_def after_error_def split: prod.splits sum.splits option.splits if_splits\<close>)
  then show "mutex_held k pa' \<longleftrightarrow> (if k = call_key c then inside st' else mutex_held k pa)"
    "inside st \<or> \<not> mutex_held (call_key c) pa" by blast+
qed

lemma check_knows:
  assumes "consistent_client api view" and "advance api c (CheckingDuplicate n) pa s = Some (st', pa', s')"
  shows "knows (view s') c st'"
proof -
  obtain r s1 where k: "checkForDuplicateAllocation api (call_pool c) (call_pod c) (call_podns c) s = (r, s1)"
    by (cases "checkForDuplicateAllocation api (call_pool c) (call_pod c) (call_podns c) s")
  show ?thesis
  proof (cases r)
    case None
    with k checkForDuplicateAllocation_None [OF assms(1), of "call_pool c" "call_pod c" "call_podns c" s s1]
      checkForDuplicateAllocation_view [OF assms(1) k] assms(2)
    show ?thesis by (auto simp: pod_free_def)
  next
    case (Some e)
    with k have "\<not> never_returns e" using checkForDuplicateAllocation_returns by fast
    with Some k assms(2) show ?thesis by (auto simp: after_error_knows)
  qed
qed

lemma pool_knows:
  assumes "consistent_client api view" and "pools_bounded (view s)" and "knows (view s) c (GettingPool n :: 'e stage)"
    and "advance (api :: ('s, 'e) kube_client) c (GettingPool n) pa s = Some (st', pa', s')"
  shows "knows (view s') c st'"
proof -
  let ?k = "\<lparr>nn_Namespace = call_podns c, nn_Name = call_pool c\<rparr>"
  obtain r s1 where k: "kc_GetPool api ?k s = (r, s1)" by (cases "kc_GetPool api ?k s")
  show ?thesis
  proof (cases r)
    case (Inr p)
    with k have k': "kc_GetPool api ?k s = (Inr p, s1)" by simp
    with get_pool_found [OF assms(1) k'] get_pool_view [OF assms(1) k] assms(2-4)
    show ?thesis by (auto simp: pool_fits_def pools_bounded_def pod_free_def)
  next
    case (Inl e)
    with k assms(4) show ?thesis by (auto simp: after_error_knows)
  qed
qed

lemma list_knows:
  assumes "consistent_client api view" and "knows (view s) c (ListingAllocations n p :: 'e stage)"
    and "advance (api :: ('s, 'e) kube_client) c (ListingAllocations n p) pa s = Some (st', pa', s')"
  shows "knows (view s') c st'"
proof -
  let ?sel = "[(LabelPoolNameKey, om_Name (np_ObjectMeta p))]"
  obtain r s1 where k: "kc_ListAllocations api ?sel None s = (r, s1)" by (cases "kc_ListAllocations api ?sel None s")
  show ?thesis
  proof (cases r)
    case (Inr l)
    with k have k': "kc_ListAllocations api ?sel None s = (Inr l, s1)" by simp
    have name: "om_Name (np_ObjectMeta p) = call_pool c" using assms(2) by (simp add: pool_fits_def)
    have "set (al_Items l) = set (pool_allocs (view s) (call_pool c))"
      using list_items [OF assms(1) k'] unfolding name by (simp add: pool_allocs_def)
    note items = ports_on_lb_cong [OF this]
    have "set (slots (al_Items l)) = set (slots (pool_allocs (view s) (call_pool c)))"
      unfolding set_slots items by (rule refl)
    moreover have "st' = Choosing n \<lparr>pna_pool = p, pna_allocations = l\<rparr> \<and> s' = s1"
      using assms(3) k' by simp
    ultimately show ?thesis using list_view [OF assms(1) k] assms(2) by (simp add: pod_free_def)
  next
    case (Inl e)
    with k assms(3) show ?thesis by (auto simp: after_error_knows)
  qed
qed

lemma choose_knows:
  fixes api :: "('s, 'e) kube_client"
  assumes "knows (view s) c (Choosing n sn :: 'e stage)" and "advance api c (Choosing n sn) pa s = Some (st', pa', s')"
  shows "knows (view s') c st'"
proof -
  obtain r pa1 where k: "choose_ports c sn (kc_Now api s) pa = (r :: 'e error + PortAllocation, pa1)"
    by (cases "choose_ports c sn (kc_Now api s) pa :: ('e error + PortAllocation) \<times> PoolAllocator")
  show ?thesis
  proof (cases r)
    case (Inl e)
    with k have k: "choose_ports c sn (kc_Now api s) pa = (Inl e :: 'e error + PortAllocation, pa1)" by simp
    with assms(1) have "\<not> never_returns e" using choose_ports_returns [OF _ k] by simp
    with k assms(2) show ?thesis by (auto simp: after_error_knows)
  next
    case (Inr a)
    with k have k: "choose_ports c sn (kc_Now api s) pa = (Inr a :: 'e error + PortAllocation, pa1)" by simp
    with assms show ?thesis using choose_ports_grantable [OF _ k] by auto
  qed
qed

lemma advance_knows:
  fixes api :: "('s, 'e) kube_client"
  assumes "consistent_client api view" and "pools_bounded (view s)"
    and "advance api c st pa s = Some (st', pa', s')" and "knows (view s) c st"
  shows "knows (view s') c st'"
proof (cases st)
  case (CheckingDuplicate n)
  show ?thesis by (rule check_knows [OF assms(1) assms(3) [unfolded CheckingDuplicate]])
next
  case (GettingPool n)
  show ?thesis by (rule pool_knows [OF assms(1,2) assms(4,3) [unfolded GettingPool]])
next
  case (ListingAllocations n p)
  show ?thesis by (rule list_knows [OF assms(1) assms(4,3) [unfolded ListingAllocations]])
next
  case (Choosing n sn)
  show ?thesis by (rule choose_knows [where view = view, OF assms(4,3) [unfolded Choosing]])
next
  case (GettingExisting n a)
  with assms(3,4) get_allocation_view [OF assms(1)] show ?thesis
    by (auto simp: after_error_knows split: prod.splits sum.splits if_splits)
qed (use assms(3,4) in \<open>auto simp: Let_def after_error_knows split: prod.splits sum.splits if_splits call.splits\<close>)

section \<open>The invariant of the system\<close>

definition system_ok :: "('s \<Rightarrow> cluster) \<Rightarrow> string \<Rightarrow> ('s, 'e) system \<Rightarrow> bool" where
  "system_ok view n = (\<lambda>(ws, pa, s).
     pools_bounded (view s) \<and> ledger_ok (view s) \<and>
     (\<forall>(c, st)\<in>set ws. call_namespace c = n \<and> knows (view s) c st) \<and>
     (\<forall>i<length ws. \<forall>j<length ws. i \<noteq> j \<longrightarrow> inside (snd (ws ! i)) \<longrightarrow> inside (snd (ws ! j)) \<longrightarrow>
        call_key (fst (ws ! i)) \<noteq> call_key (fst (ws ! j))) \<and>
     (\<forall>k. mutex_held k pa \<longleftrightarrow> (\<exists>i<length ws. inside (snd (ws ! i)) \<and> call_key (fst (ws ! i)) = k)))"

text \<open>Nobody else is inside under the key of a call that can move.\<close>

lemma move_alone:
  fixes api :: "('s, 'e) kube_client"
  assumes "system_ok view n (ws, pa, s)" and "i < length ws" and "ws ! i = (c, st)"
    and "advance api c st pa s = Some (st', pa', s')"
  shows "inside st \<longrightarrow> mutex_held (call_key c) pa"
    and "j < length ws \<Longrightarrow> j \<noteq> i \<Longrightarrow> inside (snd (ws ! j)) \<Longrightarrow> call_key (fst (ws ! j)) \<noteq> call_key c"
proof -
  from assms(1-3) show held: "inside st \<longrightarrow> mutex_held (call_key c) pa" by (force simp: system_ok_def)
  assume "j < length ws" "j \<noteq> i" "inside (snd (ws ! j))"
  with advance_mutex(2) [OF assms(4) held] assms(1-3) show "call_key (fst (ws ! j)) \<noteq> call_key c"
    by (fastforce simp: system_ok_def)
qed

lemma move_knows:
  fixes api :: "('s, 'e) kube_client"
  assumes "consistent_client api view" and ok: "system_ok view n (ws, pa, s)"
    and i: "i < length ws" "ws ! i = (c, st)" and adv: "advance api c st pa s = Some (st', pa', s')"
    and j: "j < length ws" "ws[i := (c, st')] ! j = (d, sd)"
  shows "call_namespace d = n \<and> knows (view s') d sd"
proof -
  have calls: "call_namespace d = n \<and> knows (view s) d st" if "k < length ws" "ws ! k = (d, st)" for k d st
    using ok nth_mem [OF that(1)] that(2) by (auto simp: system_ok_def)
  have bounded: "pools_bounded (view s)" using ok by (simp add: system_ok_def)
  note c = calls [OF i]
  note eff = advance_effect [OF assms(1) adv conjunct2 [OF c]]
  show ?thesis
  proof (cases "j = i")
    case True
    with j i c advance_knows [OF assms(1) bounded adv] show ?thesis by simp
  next
    case False
    with j have wj: "ws ! j = (d, sd)" by simp
    show ?thesis
    proof (cases "inside sd")
      case True
      with move_alone(2) [OF ok i adv j(1) False] wj calls [OF j(1) wj] c have "call_pool d \<noteq> call_pool c" by auto
      with effect_shrinks [OF eff] calls [OF j(1) wj] knows_stable show ?thesis by blast
    next
      case False
      with calls [OF j(1) wj] show ?thesis by (cases sd) simp_all
    qed
  qed
qed

lemma move_ok:
  fixes api :: "('s, 'e) kube_client"
  assumes "consistent_client api view" and ok: "system_ok view n (ws, pa, s)"
    and i: "i < length ws" "ws ! i = (c, st)" and adv: "advance api c st pa s = Some (st', pa', s')"
  shows "system_ok view n (ws[i := (c, st')], pa', s')"
proof -
  let ?ws = "ws[i := (c, st')]"
  note alone = move_alone [OF ok i adv]
  note mutex = advance_mutex(1) [OF adv alone(1)]
  from ok i have excl: "\<And>j k. j < length ws \<Longrightarrow> k < length ws \<Longrightarrow> j \<noteq> k \<Longrightarrow> inside (snd (ws ! j)) \<Longrightarrow>
      inside (snd (ws ! k)) \<Longrightarrow> call_key (fst (ws ! j)) \<noteq> call_key (fst (ws ! k))"
    and held: "\<And>k. mutex_held k pa \<longleftrightarrow> (\<exists>j<length ws. inside (snd (ws ! j)) \<and> call_key (fst (ws ! j)) = k)"
    by (auto simp: system_ok_def)
  have "knows (view s) c st" using ok nth_mem [OF i(1)] i(2) by (auto simp: system_ok_def)
  note eff = advance_effect [OF assms(1) adv this]
  have "\<forall>(d, sd)\<in>set ?ws. call_namespace d = n \<and> knows (view s') d sd"
    using move_knows [OF assms(1) ok i adv] by (auto simp: in_set_conv_nth)
  moreover have "mutex_held k pa' \<longleftrightarrow> (\<exists>j<length ?ws. inside (snd (?ws ! j)) \<and> call_key (fst (?ws ! j)) = k)" for k
  proof (cases "k = call_key c")
    case True
    then show ?thesis using mutex alone(2) i by (auto simp: nth_list_update)
  next
    case False
    have "inside (snd (?ws ! j)) \<and> call_key (fst (?ws ! j)) = k \<longleftrightarrow> inside (snd (ws ! j)) \<and> call_key (fst (ws ! j)) = k"
      if "j < length ws" for j using False i that by (auto simp: nth_list_update)
    then show ?thesis using False mutex held by (auto cong: conj_cong)
  qed
  moreover have "call_key (fst (?ws ! j)) \<noteq> call_key (fst (?ws ! k))"
    if "j < length ws" "k < length ws" "j \<noteq> k" "inside (snd (?ws ! j))" "inside (snd (?ws ! k))" for j k
    using that excl [of j k] alone(2) [of j] alone(2) [of k] i by (auto simp: nth_list_update split: if_splits)
  ultimately show ?thesis
    using ok effect_pools [OF eff] effect_ledger [OF eff]
    by (simp add: system_ok_def pools_bounded_def)
qed

lemma call_step_ok:
  assumes "consistent_client api view" and "call_step api x y" and "system_ok view n x"
  shows "system_ok view n y"
  using assms(2,1,3) by (cases rule: call_step.cases) (auto intro: move_ok)

lemma arrive_ok:
  assumes "system_ok view n (ws, pa, s)" and "call_namespace c = n"
  shows "system_ok view n (ws @ [(c, Entering)], pa, s)"
  using assms by (auto simp: system_ok_def nth_append less_Suc_eq)

lemma concurrent_ok:
  assumes "concurrent api view n (pa0, s0) x" and "consistent_client api view"
    and "pools_bounded (view s0)" and "ledger_ok (view s0)" and "\<forall>k. \<not> mutex_held k pa0"
  shows "system_ok view n x"
  using assms(1)
proof (induction rule: concurrent.induct)
  case starts
  then show ?case using assms by (simp add: system_ok_def)
next
  case (steps x y)
  with call_step_ok [OF assms(2)] show ?case by blast
next
  case (arrives ws pa s c)
  then show ?case by (intro arrive_ok)
next
  case (changes ws pa s s')
  then have "\<forall>(c, st)\<in>set ws. knows (view s') c st"
    by (auto simp: system_ok_def intro: knows_stable shrinks_same)
  with changes ledger_ok_allocs [OF changes.hyps(2)] show ?case by (auto simp: system_ok_def)
qed

section \<open>Progress\<close>

lemma inside_moves: "inside st \<Longrightarrow> knows cl c st \<Longrightarrow> \<exists>y. advance api c st pa s = Some y"
  by (cases st) (auto simp: Let_def split: prod.split sum.split option.split)

lemma entering_moves: "\<not> mutex_held (call_key c) pa \<Longrightarrow> \<exists>y. advance api c Entering pa s = Some y"
  by (simp add: split_beta Let_def)

lemma system_moves:
  assumes "system_ok view n (ws, pa, s)" and "\<not> (\<forall>x\<in>set ws. \<exists>r. snd x = Done r)"
  shows "\<exists>y. call_step api (ws, pa, s) y"
proof -
  have move: "\<exists>y. call_step api (ws, pa, s) y" if "i < length ws" "ws ! i = (c, st)"
    "\<exists>y. advance api c st pa s = Some y" for i c st
    using that(3) call_step.moves [OF that(1,2)] by fast
  show ?thesis
  proof (cases "\<exists>i<length ws. inside (snd (ws ! i))")
    case True
    then obtain i c st where i: "i < length ws" "ws ! i = (c, st)" "inside st" by (metis prod.collapse)
    with assms(1) nth_mem [OF i(1)] have "knows (view s) c st" by (auto simp: system_ok_def)
    then show ?thesis by (rule move [OF i(1,2) inside_moves [OF i(3)]])
  next
    case False
    from assms(2) obtain i c st where i: "i < length ws" "ws ! i = (c, st)" "\<forall>r. st \<noteq> Done r"
      by (metis in_set_conv_nth prod.collapse snd_conv)
    with False have "st = Entering" by (cases st) force+
    from False assms(1) have "\<not> mutex_held (call_key c) pa" by (auto simp: system_ok_def)
    from entering_moves [OF this] \<open>st = Entering\<close> show ?thesis by (intro move [OF i(1,2)]) simp
  qed
qed

section \<open>Every call ends\<close>

text \<open>The steps a call has left at most: seven for each attempt, and those of entering and leaving.\<close>

fun weight :: "'e stage \<Rightarrow> nat" where
  "weight Entering = 32"
| "weight (CheckingDuplicate n) = 6 * n + 7"
| "weight (GettingPool n) = 6 * n + 6"
| "weight (ListingAllocations n _) = 6 * n + 5"
| "weight (Choosing n _) = 6 * n + 4"
| "weight (GettingExisting n _) = 6 * n + 3"
| "weight (Creating n _) = 6 * n + 2"
| "weight Fetching = 3"
| "weight (Deleting _) = 2"
| "weight (Leaving _) = 1"
| "weight Spinning = 0"
| "weight (Done _) = 0"

lemma after_error_weight: "weight (after_error api n e) \<le> 6 * n + 1"
  by (auto simp: after_error_def)

lemma advance_weight:
  assumes "advance api c st pa s = Some (st', pa', s')"
  shows "weight st' < weight st"
proof (cases st)
  case Entering
  with assms show ?thesis by (cases c) (auto simp: Let_def split: prod.splits if_splits)
qed (use assms in \<open>auto simp: Let_def intro: le_less_trans [OF after_error_weight]
  split: prod.splits sum.splits option.splits if_splits\<close>)

abbreviation total_weight :: "(call \<times> 'e stage) list \<Rightarrow> nat" where
  "total_weight ws \<equiv> sum_list (map (\<lambda>x. weight (snd x)) ws)"

lemma total_weight_update:
  assumes "i < length ws" and "weight st' < weight (snd (ws ! i))"
  shows "total_weight (ws[i := (c, st')]) < total_weight ws"
  using assms
proof (induction ws arbitrary: i)
  case (Cons x ws)
  then show ?case by (cases i) auto
qed simp

lemma call_step_weight: "call_step api x y \<Longrightarrow> total_weight (fst y) < total_weight (fst x)"
  by (cases x; cases y) (auto elim!: call_stepE simp: total_weight_update advance_weight)

lemma run_weight: "(call_step api ^^ k) x y \<Longrightarrow> k + total_weight (fst y) \<le> total_weight (fst x)"
proof (induction k arbitrary: y)
  case (Suc k)
  then obtain z where "(call_step api ^^ k) x z" "call_step api z y" by auto
  with Suc.IH [of z] call_step_weight [of api z y] show ?case by linarith
qed simp

lemma call_step_calls: "call_step api x y \<Longrightarrow> map fst (fst y) = map fst (fst x)"
  by (cases x; cases y) (auto elim!: call_stepE simp: map_update list_update_same_conv)

lemma run_ok:
  assumes "(call_step api ^^ k) x y" and "consistent_client api view" and "system_ok view n x"
  shows "system_ok view n y \<and> map fst (fst y) = map fst (fst x)"
  using assms(1)
proof (induction k arbitrary: y)
  case (Suc k)
  then obtain z where "(call_step api ^^ k) x z" "call_step api z y" by auto
  with Suc.IH [of z] call_step_ok [OF assms(2)] call_step_calls show ?case by metis
qed (use assms(3) in simp)

section \<open>A schedule to run\<close>

text \<open>The run in which the calls move in the given order.\<close>

fun scheduled :: "('s, 'e) kube_client \<Rightarrow> nat list \<Rightarrow> ('s, 'e) system \<Rightarrow> ('s, 'e) system option" where
  "scheduled api [] x = Some x"
| "scheduled api (i # is) (ws, pa, s) =
     (if i < length ws then
        (case advance api (fst (ws ! i)) (snd (ws ! i)) pa s of
           None \<Rightarrow> None
         | Some (st, pa', s') \<Rightarrow> scheduled api is (ws[i := (fst (ws ! i), st)], pa', s'))
      else None)"

lemma scheduled_run: "scheduled api is x = Some y \<Longrightarrow> (call_step api ^^ length is) x y"
proof (induction "is" arbitrary: x)
  case (Cons i js)
  obtain ws pa s where x: "x = (ws, pa, s)" by (cases x)
  with Cons.prems obtain st pa' s' where i: "i < length ws" and
    adv: "advance api (fst (ws ! i)) (snd (ws ! i)) pa s = Some (st, pa', s')" and
    rest: "scheduled api js (ws[i := (fst (ws ! i), st)], pa', s') = Some y"
    by (auto split: if_splits option.splits)
  from call_step.moves [OF i prod.collapse [symmetric] adv] Cons.IH [OF rest] show ?case
    unfolding x by (simp only: list.size relpowp_Suc_I2 add_0_right add_Suc_right)
qed simp

lemma scheduled_length: "scheduled api is x = Some y \<Longrightarrow> length is = k \<Longrightarrow> (call_step api ^^ k) x y"
  using scheduled_run by blast

lemma concurrent_run: "(call_step api ^^ k) x y \<Longrightarrow> concurrent api view n c0 x \<Longrightarrow> concurrent api view n c0 y"
proof (induction k arbitrary: y)
  case (Suc k)
  then show ?case by (auto intro: concurrent.steps)
qed simp

text \<open>Two pods ask the same pool for a port at once.\<close>

definition two_calls :: "string \<Rightarrow> string \<Rightarrow> call list" where
  "two_calls n1 n2 = [Allocating ''p'' n1 ''a'' ''ns'' [sample_port], Allocating ''p'' n2 ''b'' ''ns'' [sample_port]]"


lemma polite_run:
  "\<exists>ws pa c. scheduled mem_api [0, 0, 0, 0, 0, 0, 0, 0, 1, 1, 1, 1, 1, 1, 1, 1]
      (map (\<lambda>c. (c, Entering)) (two_calls '''' ''''), NewPoolAllocator StrategyRoundRobin, demo_cluster [demo_pool ''p''] []) =
        Some (ws, pa, c) \<and> length ws = 2 \<and> (\<forall>x\<in>set ws. \<exists>a. snd x = Done (Inr (Some a)))"
  by (simp add: two_calls_def call_eval attempt_eval demo_pool_def choose_ports_def after_error_def)

lemma demo_free:
  "pools_bounded (demo_cluster [demo_pool ''p''] [])" "ledger_ok (demo_cluster [demo_pool ''p''] [])"
  "\<forall>k. \<not> mutex_held k (NewPoolAllocator strategy)"
  by (simp_all add: pools_bounded_def ledger_ok_def pool_ok_def pool_allocs_def mutex_held_def gm_get_def
      NewPoolAllocator_def demo_eval slots_def all_bindings_def)

section \<open>Properties\<close>

text \<open>
  C3. However concurrent calls interleave, at the grain of single API calls and with
  arriving calls and foreign changes between them, as long as all pass the same namespace:
  in every reachable state no two pods of a pool share a slot and no slot is granted twice,
  no two calls are inside the same pool at a time, and unless all calls have returned some
  call can move (there is no deadlock).
\<close>

theorem concurrent_exclusive:
  assumes "consistent_client api view" and "pools_bounded (view s0)" and "ledger_ok (view s0)"
    and "\<forall>k. \<not> mutex_held k pa0" and "concurrent api view n (pa0, s0) (ws, pa, s)"
  shows "exclusive (ledger_of (view s)) \<and>
    (\<forall>i<length ws. \<forall>j<length ws. i \<noteq> j \<and> inside (snd (ws ! i)) \<and> inside (snd (ws ! j)) \<longrightarrow>
       call_pool (fst (ws ! i)) \<noteq> call_pool (fst (ws ! j))) \<and>
    ((\<forall>x\<in>set ws. \<exists>r. snd x = Done r) \<or> (\<exists>y. call_step api (ws, pa, s) y))"
proof (intro conjI)
  have ok: "system_ok view n (ws, pa, s)" by (rule concurrent_ok [OF assms(5,1-4)])
  then show "exclusive (ledger_of (view s))" by (simp add: system_ok_def ledger_ok_exclusive)
  have "call_namespace (fst (ws ! i)) = n" if "i < length ws" for i
    using ok nth_mem [OF that] by (cases "ws ! i") (auto simp: system_ok_def)
  moreover from ok have "\<forall>i<length ws. \<forall>j<length ws. i \<noteq> j \<longrightarrow> inside (snd (ws ! i)) \<longrightarrow> inside (snd (ws ! j)) \<longrightarrow>
      call_key (fst (ws ! i)) \<noteq> call_key (fst (ws ! j))" by (simp add: system_ok_def)
  ultimately show "\<forall>i<length ws. \<forall>j<length ws. i \<noteq> j \<and> inside (snd (ws ! i)) \<and> inside (snd (ws ! j)) \<longrightarrow>
      call_pool (fst (ws ! i)) \<noteq> call_pool (fst (ws ! j))"
    by metis
  show "(\<forall>x\<in>set ws. \<exists>r. snd x = Done r) \<or> (\<exists>y. call_step api (ws, pa, s) y)"
    using system_moves [OF ok] by blast
qed

theorem concurrent_exclusive_witness:
  "\<exists>ws pa c. concurrent mem_api (\<lambda>c. c) '''' (NewPoolAllocator StrategyRoundRobin, demo_cluster [demo_pool ''p''] []) (ws, pa, c) \<and>
    (\<forall>x\<in>set ws. \<exists>a. snd x = Done (Inr (Some a))) \<and> length ws = 2 \<and> exclusive (ledger_of c)"
proof -
  let ?c0 = "(NewPoolAllocator StrategyRoundRobin, demo_cluster [demo_pool ''p''] [])"
  let ?first = "two_calls '''' '''' ! 0" and ?second = "two_calls '''' '''' ! 1"
  obtain ws pa c where run: "scheduled mem_api [0, 0, 0, 0, 0, 0, 0, 0, 1, 1, 1, 1, 1, 1, 1, 1]
      (map (\<lambda>c. (c, Entering)) (two_calls '''' ''''), ?c0) = Some (ws, pa, c)"
    and ends: "length ws = 2" "\<forall>x\<in>set ws. \<exists>a. snd x = Done (Inr (Some a))"
    using polite_run by blast
  have "concurrent mem_api (\<lambda>c. c) '''' ?c0 ([] @ [(?first, Entering)], ?c0)"
    by (intro concurrent.arrives concurrent.starts) (simp add: two_calls_def)
  then have "concurrent mem_api (\<lambda>c. c) '''' ?c0 (([] @ [(?first, Entering)]) @ [(?second, Entering)], ?c0)"
    by (rule concurrent.arrives) (simp add: two_calls_def)
  then have "concurrent mem_api (\<lambda>c. c) '''' ?c0 (map (\<lambda>c. (c, Entering)) (two_calls '''' ''''), ?c0)"
    by (simp add: two_calls_def)
  from concurrent_run [OF scheduled_run [OF run] this] have reached: "concurrent mem_api (\<lambda>c. c) '''' ?c0 (ws, pa, c)" .
  from concurrent_exclusive [OF mem_consistent demo_free(1,2,3) reached] reached ends show ?thesis by blast
qed

text \<open>
  C14. Any number of concurrent calls come to an end: a run of k calls is never longer than
  32 k steps, whatever the scheduler picks and however many conflicts there are; and when
  no call can move any more, every call has returned and every mutex is free.
\<close>

theorem concurrent_calls_finish:
  fixes api :: "('s, 'e) kube_client"
  assumes "consistent_client api view" and "pools_bounded (view s0)" and "ledger_ok (view s0)"
    and "\<forall>k. \<not> mutex_held k pa0" and "\<forall>c\<in>set cs. call_namespace c = n"
    and "(call_step api ^^ k) (map (\<lambda>c. (c, Entering)) cs, pa0, s0) (ws, pa, s)"
  shows "k \<le> 32 * length cs \<and> map fst ws = cs \<and>
    ((\<nexists>y. call_step api (ws, pa, s) y) \<longrightarrow>
       (\<forall>x\<in>set ws. \<exists>r. snd x = Done r) \<and> (\<forall>k. \<not> mutex_held k pa))"
proof (intro conjI impI)
  let ?x = "(map (\<lambda>c. (c, Entering)) cs, pa0, s0) :: ('s, 'e) system"
  have "total_weight (fst ?x) = 32 * length cs" by (simp add: comp_def sum_list_triv)
  with run_weight [OF assms(6)] show "k \<le> 32 * length cs" by linarith
  have "system_ok view n ?x" using assms(2-5) by (auto simp: system_ok_def)
  from run_ok [OF assms(6,1) this] have ok: "system_ok view n (ws, pa, s)" and "map fst ws = map fst (fst ?x)"
    by simp_all
  then show "map fst ws = cs" by (simp add: comp_def)
  assume "\<nexists>y. call_step api (ws, pa, s) y"
  with system_moves [OF ok] show returned: "\<forall>x\<in>set ws. \<exists>r. snd x = Done r" by blast
  have "\<not> inside (snd (ws ! i))" if "i < length ws" for i
    using returned nth_mem [OF that] by (metis inside.simps(2))
  with ok show "\<forall>k. \<not> mutex_held k pa" by (auto simp: system_ok_def)
qed

theorem concurrent_calls_finish_witness:
  "\<exists>ws pa c. (call_step mem_api ^^ 16) (map (\<lambda>c. (c, Entering)) (two_calls '''' ''''),
      NewPoolAllocator StrategyRoundRobin, demo_cluster [demo_pool ''p''] []) (ws, pa, c) \<and>
    map fst ws = two_calls '''' '''' \<and> 16 \<le> 32 * length (two_calls '''' '''')"
proof -
  obtain ws pa c where sched: "scheduled mem_api [0, 0, 0, 0, 0, 0, 0, 0, 1, 1, 1, 1, 1, 1, 1, 1]
      (map (\<lambda>c. (c, Entering)) (two_calls '''' ''''), NewPoolAllocator StrategyRoundRobin,
       demo_cluster [demo_pool ''p''] []) = Some (ws, pa, c)"
    using polite_run by blast
  have run: "(call_step mem_api ^^ 16) (map (\<lambda>c. (c, Entering)) (two_calls '''' ''''),
      NewPoolAllocator StrategyRoundRobin, demo_cluster [demo_pool ''p''] []) (ws, pa, c)"
    by (rule scheduled_length [OF sched]) simp
  have "\<forall>c\<in>set (two_calls '''' ''''). call_namespace c = ''''" by (simp add: two_calls_def)
  from concurrent_calls_finish [OF mem_consistent demo_free(1,2,3) this run] run show ?thesis by blast
qed

text \<open>
  C15. A call that nobody interrupts does, step by step, what AllocatePort and ReleasePort
  do as a whole: it comes to rest returned with a result, an allocator and a world exactly
  when the whole call returns them.
\<close>

theorem solo_call:
  assumes "retries_on_conflict api retry"
  shows "run_call api retry c pa s = Returns r (pa', s') \<longleftrightarrow>
    (advances api c)\<^sup>*\<^sup>* (Entering, pa, s) (Done r, pa', s')"
proof -
  obtain y where y: "(advances api c)\<^sup>*\<^sup>* (Entering, pa, s) y" "\<forall>z. \<not> advances api c y z"
    "rests (run_call api retry c pa s) y"
    using call_rests [OF assms, of c pa s] by blast
  have stuck: "\<forall>z. \<not> advances api c (Done r, pa', s') z" by (simp add: advances_def)
  show ?thesis
  proof
    assume "run_call api retry c pa s = Returns r (pa', s')"
    with y show "(advances api c)\<^sup>*\<^sup>* (Entering, pa, s) (Done r, pa', s')" by (simp add: rests_def)
  next
    assume "(advances api c)\<^sup>*\<^sup>* (Entering, pa, s) (Done r, pa', s')"
    from rest_unique [OF y(1) this y(2) stuck] y(3) show "run_call api retry c pa s = Returns r (pa', s')"
      by (auto simp: rests_def split: go.splits prod.splits)
  qed
qed

theorem solo_call_witness:
  "\<exists>a pa c. (advances mem_api (Allocating ''p'' '''' ''b'' ''ns'' [sample_port]))\<^sup>*\<^sup>*
     (Entering, NewPoolAllocator StrategyRoundRobin, demo_one) (Done (Inr (Some a)), pa, c)"
proof -
  obtain a pa c where "AllocatePort mem_api mem_retry ''p'' '''' ''b'' ''ns'' [sample_port]
      (NewPoolAllocator StrategyRoundRobin) demo_one = Returns (Inr a) (pa, c)"
    using demo_call by blast
  then have "run_call mem_api mem_retry (Allocating ''p'' '''' ''b'' ''ns'' [sample_port])
      (NewPoolAllocator StrategyRoundRobin) demo_one = Returns (Inr (Some a)) (pa, c)"
    by (simp add: run_call_def)
  with solo_call [OF mem_retries] show ?thesis by blast
qed


end
