(* ===== verification/StaleCache.thy ===== *)
theory StaleCache
  imports AllocatorSafety
begin

text \<open>
  The client that a manager hands out (cmd/main.go:208 and 215 take it for the reconcilers):
  it reads from a cache and writes to the server, and the cache hears of a write later. Two
  clusters are kept, the server's and the cache's.
\<close>

section \<open>Reading from a cache\<close>

definition on_server :: "('s \<Rightarrow> 'r \<times> 's) \<Rightarrow> 's \<times> 's \<Rightarrow> 'r \<times> 's \<times> 's" where
  "on_server f = (\<lambda>(server, cache). let (r, server') = f server in (r, server', cache))"

definition on_cache :: "('s \<Rightarrow> 'r \<times> 's) \<Rightarrow> 's \<times> 's \<Rightarrow> 'r \<times> 's \<times> 's" where
  "on_cache f = (\<lambda>(server, cache). let (r, cache') = f cache in (r, server, cache'))"

definition split_client :: "('s, 'e) kube_client \<Rightarrow> ('s \<times> 's, 'e) kube_client" where
  "split_client api =
     \<lparr>kc_GetPool = (\<lambda>k. on_cache (kc_GetPool api k)),
      kc_GetAllocation = (\<lambda>k. on_cache (kc_GetAllocation api k)),
      kc_GetPod = (\<lambda>k. on_cache (kc_GetPod api k)),
      kc_ListAllocations = (\<lambda>sel lim. on_cache (kc_ListAllocations api sel lim)),
      kc_CreateAllocation = (\<lambda>a. on_server (kc_CreateAllocation api a)),
      kc_DeleteAllocation = (\<lambda>a. on_server (kc_DeleteAllocation api a)),
      kc_PatchPod = (\<lambda>base new. on_server (kc_PatchPod api base new)),
      kc_UpdatePoolStatus = (\<lambda>np. on_server (kc_UpdatePoolStatus api np)),
      kc_IsNotFound = kc_IsNotFound api, kc_IsConflict = kc_IsConflict api,
      kc_Now = (\<lambda>(server, cache). kc_Now api server)\<rparr>"

lemma split_client_simps [simp]:
  "kc_GetPool (split_client api) k = on_cache (kc_GetPool api k)"
  "kc_GetAllocation (split_client api) k = on_cache (kc_GetAllocation api k)"
  "kc_GetPod (split_client api) k = on_cache (kc_GetPod api k)"
  "kc_ListAllocations (split_client api) sel lim = on_cache (kc_ListAllocations api sel lim)"
  "kc_CreateAllocation (split_client api) a = on_server (kc_CreateAllocation api a)"
  "kc_DeleteAllocation (split_client api) a = on_server (kc_DeleteAllocation api a)"
  "kc_UpdatePoolStatus (split_client api) np = on_server (kc_UpdatePoolStatus api np)"
  "kc_IsNotFound (split_client api) = kc_IsNotFound api"
  "kc_IsConflict (split_client api) = kc_IsConflict api"
  "kc_Now (split_client api) (server, cache) = kc_Now api server"
  by (simp_all add: split_client_def)

lemma is_conflict_split [simp]: "is_conflict (split_client api) = is_conflict api"
  by (intro ext) (simp add: is_conflict_def split: option.split)

text \<open>What is promised of a read holds of the cache.\<close>

lemma on_cache_fst: "on_cache f s = (r, s') \<Longrightarrow> fst s' = fst s \<and> f (snd s) = (r, snd s')"
  by (cases s) (auto simp: on_cache_def split_beta)

lemma split_lists_current:
  assumes "lists_current api view"
  shows "lists_current (split_client api) (\<lambda>s. view (snd s))"
  unfolding lists_current_def
proof (intro allI impI)
  fix sel lim and s :: "'a \<times> 'a" and l s'
  assume "kc_ListAllocations (split_client api) sel lim s = (Inr l, s')"
  then have "kc_ListAllocations api sel lim (snd s) = (Inr l, snd s')" by (auto dest: on_cache_fst)
  from assms [unfolded lists_current_def, rule_format, OF this]
  show "set (al_Items l) \<subseteq> {a \<in> set (cl_Allocs (view (snd s))). selected_by sel a} \<and>
    (distinct (cl_Allocs (view (snd s))) \<longrightarrow> distinct (al_Items l)) \<and>
    ((case lim of None \<Rightarrow> True | Some n \<Rightarrow> length (filter (selected_by sel) (cl_Allocs (view (snd s)))) \<le> n) \<longrightarrow>
     set (al_Items l) = {a \<in> set (cl_Allocs (view (snd s))). selected_by sel a})" .
qed

lemma split_gets_current:
  assumes "gets_current api view"
  shows "gets_current (split_client api) (\<lambda>s. view (snd s))"
proof -
  note gets = assms [unfolded gets_current_def]
  note pool = gets [THEN conjunct1, rule_format] and alloc = gets [THEN conjunct2, THEN conjunct1, rule_format]
    and missing = gets [THEN conjunct2, THEN conjunct2, rule_format, OF conjI]
  show ?thesis
    unfolding gets_current_def split_client_simps
    by (intro conjI allI impI) (blast dest!: on_cache_fst pool alloc missing)+
qed

text \<open>Reading a cache is reading local memory: it changes nothing.\<close>

definition pure_reads :: "('s, 'e) kube_client \<Rightarrow> bool" where
  "pure_reads api \<longleftrightarrow>
     (\<forall>k s. snd (kc_GetPool api k s) = s) \<and> (\<forall>k s. snd (kc_GetAllocation api k s) = s) \<and>
     (\<forall>sel lim s. snd (kc_ListAllocations api sel lim s) = s)"

lemma on_cache_pure:
  assumes "\<And>s. snd (f s) = s"
  shows "on_cache f (server, cache) = (fst (f cache), server, cache)"
  using assms [of cache] by (simp add: on_cache_def split_beta)

lemma split_reads:
  assumes "pure_reads api"
  shows "on_cache (kc_GetPool api k) (server, cache) = (fst (kc_GetPool api k cache), server, cache)"
    and "on_cache (kc_GetAllocation api k) (server, cache) = (fst (kc_GetAllocation api k cache), server, cache)"
    and "on_cache (kc_ListAllocations api sel lim) (server, cache) =
      (fst (kc_ListAllocations api sel lim cache), server, cache)"
  using assms by (simp_all add: pure_reads_def on_cache_pure)

section \<open>Allocating by a cache\<close>

text \<open>
  With least-used selection what a successful attempt binds depends on the cache and on the
  ports asked for, not on the pod, the server or the state of the allocator.
\<close>

lemma getPoolAndAllocations_split:
  assumes "pure_reads api"
  shows "\<exists>r. \<forall>server. getPoolAndAllocations (split_client api) pool ns (server, cache) = (r, server, cache)"
proof -
  have "getPoolAndAllocations (split_client api) pool ns (server, cache) =
      (fst (getPoolAndAllocations (split_client api) pool ns (undefined, cache)), server, cache)" for server
    by (auto simp: getPoolAndAllocations_def split_reads [OF assms] split: sum.splits)
  then show ?thesis by blast
qed

lemma checkForDuplicateAllocation_split:
  assumes "pure_reads api"
  shows "snd (checkForDuplicateAllocation (split_client api) pool pod ns (server, cache)) = (server, cache)"
  by (auto simp: checkForDuplicateAllocation_def split_reads [OF assms] split: sum.splits)

lemma selectLeastUsed_frame: "selectLeastUsed pa sn n = (r, pa') \<Longrightarrow> pa' = pa"
  by (auto simp: selectLeastUsed_def Let_def split: option.splits if_splits)

lemma selectLeastUsed_stateless: "selectLeastUsed pa sn n = (r, pa') \<Longrightarrow> selectLeastUsed pb sn n = (r', pb') \<Longrightarrow> r = r'"
  by (auto simp: selectLeastUsed_def Let_def split: option.splits if_splits)

lemma tryAllocatePort_split:
  assumes "pure_reads api" and "al_strategy pa = StrategyLeastUsed"
    and "tryAllocatePort (split_client api) pool n pod ns cps pa (server, cache) = (r, pa', t)"
  shows "t = (server, cache) \<and> pa' = pa"
proof -
  obtain d where d: "checkForDuplicateAllocation (split_client api) pool pod ns (server, cache) = (d, server, cache)"
    using checkForDuplicateAllocation_split [OF assms(1)] by (metis surjective_pairing)
  obtain g where g: "getPoolAndAllocations (split_client api) pool ns (server, cache) = (g, server, cache)"
    using getPoolAndAllocations_split [OF assms(1)] by blast
  show ?thesis
    using assms(2,3)
    by (auto dest: selectLeastUsed_frame simp: tryAllocatePort_def d g SelectLoadBalancer_def strategy_defs split: option.splits sum.splits if_splits prod.splits)
qed

lemma tryAllocatePort_split_Inr:
  assumes "pure_reads api" and "al_strategy pa = StrategyLeastUsed"
    and "tryAllocatePort (split_client api :: ('s \<times> 's, 'e) kube_client) pool n pod ns cps pa (server, cache) = (Inr a, pa', t)"
  obtains sn where "getPoolAndAllocations (split_client api) pool ns (server, cache) = (Inr sn, server, cache)"
    and "cps = []" "a = build_allocation (pna_pool sn) pod ns [] (kc_Now api server)"
  | sn lb ps where "getPoolAndAllocations (split_client api) pool ns (server, cache) = (Inr sn, server, cache)"
    and "cps \<noteq> []" "selectLeastUsed pa sn (int (length cps)) = (Inr lb :: 'e error + LoadBalancerRef, pa')"
    and "findAvailablePorts sn lb (int (length cps)) = (Inr ps :: 'e error + int32 list)"
      "a = build_allocation (pna_pool sn) pod ns (make_bindings lb cps ps) (kc_Now api server)"
proof -
  obtain d where d: "checkForDuplicateAllocation (split_client api) pool pod ns (server, cache) = (d, server, cache)"
    using checkForDuplicateAllocation_split [OF assms(1)] by (metis surjective_pairing)
  obtain g where g: "getPoolAndAllocations (split_client api) pool ns (server, cache) = (g, server, cache)"
    using getPoolAndAllocations_split [OF assms(1)] by blast
  show ?thesis
    using assms(2,3) that g
    by (auto simp: tryAllocatePort_def d SelectLoadBalancer_def strategy_defs
        split: option.splits sum.splits if_splits prod.splits)
qed

lemma tryAllocatePort_by_cache:
  assumes "pure_reads api" and "al_strategy pa = StrategyLeastUsed" "al_strategy pb = StrategyLeastUsed"
    and first: "tryAllocatePort (split_client api) pool n pod ns cps pa (server, cache) = (Inr a, pa', t)"
    and second: "tryAllocatePort (split_client api) pool n pod' ns cps pb (server', cache) = (Inr b, pb', t')"
  shows "bindings b = bindings a \<and> length (bindings a) = length cps \<and> pod_of a = (ns, pod) \<and> pod_of b = (ns, pod') \<and>
    (\<exists>pool. in_pool pool a \<and> in_pool pool b)"
proof -
  obtain g where g: "\<And>server. getPoolAndAllocations (split_client api) pool ns (server, cache) = (g, server, cache)"
    using getPoolAndAllocations_split [OF assms(1)] by blast
  show ?thesis
    using assms(1,2) first
  proof (cases rule: tryAllocatePort_split_Inr)
    case (1 sn)
    with second g show ?thesis
      by (auto simp: in_pool_def pod_of_def elim!: tryAllocatePort_split_Inr [OF assms(1,3)])
  next
    case (2 sn lb ps)
    note one = 2
    show ?thesis
      using assms(1,3) second
    proof (cases rule: tryAllocatePort_split_Inr)
      case 1
      with one show ?thesis by simp
    next
      case (2 sn' lb' ps')
      have "sn' = sn" using one(1) 2(1) g by simp
      moreover from this have "lb' = lb" using selectLeastUsed_stateless [OF 2(3)] one(3) by auto
      ultimately show ?thesis using one(4,5) 2(4,5) by (simp add: in_pool_def pod_of_def)
    qed
  qed
qed

section \<open>A call by a cache\<close>

lemma attempt_split:
  assumes "pure_reads api" and "consistent_client api view" and "al_strategy pa = StrategyLeastUsed"
    and "allocate_attempt (split_client api) pool n pod ns cps (v, pa, server, cache) = (r, v', pa', t)"
  obtains (fails) e server' where "r = Some e" "t = (server', cache)" "view server' = view server" "pa' = pa"
  | (stores) a b server' t0 where "r = None" "v' = Some b" "t = (server', cache)" "pa' = pa"
      "tryAllocatePort (split_client api) pool n pod ns cps pa (server, cache) = (Inr a, pa, t0)"
      "same_content a b" "view server' = store_alloc b (view server)"
proof -
  obtain x pa1 t1 where run: "tryAllocatePort (split_client api) pool n pod ns cps pa (server, cache) = (x, pa1, t1)"
    by (metis surj_pair)
  have frame: "t1 = (server, cache)" "pa1 = pa" using tryAllocatePort_split [OF assms(1,3) run] by simp_all
  show ?thesis
  proof (cases x)
    case (Inl e)
    with run frame assms(4) have "r = Some e" "t = (server, cache)" "pa' = pa"
      by (simp_all add: allocate_attempt_def)
    then show ?thesis by (intro fails) simp_all
  next
    case (Inr a)
    have client: "\<And>b s'. kc_CreateAllocation api a server = (Inr b, s') \<Longrightarrow>
        same_content a b \<and> view s' = store_alloc b (view server)"
      "\<And>e s'. kc_CreateAllocation api a server = (Inl e, s') \<Longrightarrow> view s' = view server"
      using create_Inr [OF assms(2)] create_Inl [OF assms(2)] by blast+
    show ?thesis
      using assms(4) run frame Inr fails stores client
      by (auto simp: allocate_attempt_def createAllocation_def split_reads [OF assms(1)] on_server_def
          split: prod.splits sum.splits if_splits)
  qed
qed

lemma AllocatePort_split:
  assumes "pure_reads api" and "consistent_client api view" and "retries_on_conflict (split_client api) retry"
    and "al_strategy pa = StrategyLeastUsed"
    and "AllocatePort (split_client api) retry pool n pod ns cps pa (server, cache) = Returns (Inr b) (pa', t)"
  obtains a pb server0 server' pc t0 where "t = (server', cache)" "al_strategy pa' = StrategyLeastUsed"
    "al_strategy pb = StrategyLeastUsed"
    "tryAllocatePort (split_client api) pool n pod ns cps pb (server0, cache) = (Inr a, pc, t0)"
    "same_content a b" "view server' = store_alloc b (view server)"
proof -
  let ?pa1 = "set_mutex (sprintf_slash n pool) True (snd (getPoolMutex pa pool n))"
  let ?fn = "allocate_attempt (split_client api) pool n pod ns cps"
  let ?P = "\<lambda>(v, pb, s, c). view s = view server \<and> c = cache \<and> al_strategy pb = StrategyLeastUsed"
  have "\<exists>c0. ?P c0 \<and> retry ?fn (None, ?pa1, server, cache) = ?fn c0"
  proof (rule retries_on_conflict_invariant [OF assms(3)])
    show "?P (None, ?pa1, server, cache)" using assms(4) by simp
  next
    fix c e c'
    assume P: "?P c" and run: "?fn c = (Some e, c')"
    obtain v pb s where c: "c = (v, pb, s, cache)" using P by (cases c) auto
    obtain v' pb' t' where c': "c' = (v', pb', t')" by (cases c')
    have pb: "al_strategy pb = StrategyLeastUsed" using P c by simp
    show "?P c'"
      using assms(1,2) pb run [unfolded c c']
      by (cases rule: attempt_split) (use P c c' in auto)
  qed
  then obtain v pb s where s: "view s = view server" "al_strategy pb = StrategyLeastUsed"
    and run: "retry ?fn (None, ?pa1, server, cache) = ?fn (v, pb, s, cache)" by auto
  obtain r v' pb' t' where out: "?fn (v, pb, s, cache) = (r, v', pb', t')" by (metis surj_pair)
  from assms(5) run out have ends: "r = None" "v' = Some b" "t = t'" "pa' = set_mutex (sprintf_slash n pool) False pb'"
    by (auto simp: AllocatePort_def split_beta Let_def split: if_splits option.splits)
  show ?thesis
    using assms(1,2) s(2) out
    by (cases rule: attempt_split) (use ends s that in auto)
qed

section \<open>Two pods, one slot\<close>

lemma shared_slots_break_ledger:
  assumes "a \<in> set (cl_Allocs c)" "b \<in> set (cl_Allocs c)" "in_pool pool a" "in_pool pool b" "pod_of a \<noteq> pod_of b"
    and "bindings b = bindings a" "bindings a \<noteq> []"
  shows "\<not> ledger_ok c"
proof
  assume "ledger_ok c"
  then have "distinct (slots (pool_allocs c pool))" by (simp add: ledger_ok_def pool_ok_def)
  moreover have "a \<in> set (pool_allocs c pool)" "b \<in> set (pool_allocs c pool)" "a \<noteq> b"
    using assms(1-5) by (auto simp: set_pool_allocs)
  ultimately have "set (map slot_of (bindings a)) \<inter> set (map slot_of (bindings b)) = {}"
    by (rule distinct_slots_disjoint)
  with assms(6,7) show False by simp
qed

lemma same_content_sel:
  "same_content a b \<Longrightarrow> bindings b = bindings a \<and> pod_of b = pod_of a \<and> (in_pool pool b \<longleftrightarrow> in_pool pool a)"
  by (simp add: same_content_def pod_of_def in_pool_def)

text \<open>
  C4. The mutex of a pool does not make up for a client that reads from a cache. A call reads
  the allocations of the pool from there, writes a new one to the server and gives the mutex
  back; a second call that starts before the cache has heard of the write reads the same
  allocations and, with least-used selection, makes the same choice for another pod of the
  namespace. Both calls report success, and both pods hold the same slots. The exclusiveness
  of allocations holds for clients whose reads are current.
\<close>

theorem stale_cache_double_books:
  assumes "pure_reads api" and "consistent_client api view" and "retries_on_conflict (split_client api) retry"
    and "al_strategy pa = StrategyLeastUsed" and "cps \<noteq> []" and "pod' \<noteq> pod"
    and "AllocatePort (split_client api) retry pool n pod ns cps pa (server, cache) = Returns (Inr a) (pa1, s1)"
    and "AllocatePort (split_client api) retry pool n pod' ns cps pa1 s1 = Returns (Inr b) (pa2, s2)"
  shows "bindings b = bindings a \<and> pod_of a = (ns, pod) \<and> pod_of b = (ns, pod') \<and>
    {a, b} \<subseteq> set (cl_Allocs (view (fst s2))) \<and> \<not> ledger_ok (view (fst s2))"
proof -
  note client = assms(1-3)
  obtain a0 server1 pb server0 pc t0 where s1: "s1 = (server1, cache)" and least: "al_strategy pa1 = StrategyLeastUsed"
    and one: "al_strategy pb = StrategyLeastUsed" "same_content a0 a" "view server1 = store_alloc a (view server)"
    and try1: "tryAllocatePort (split_client api) pool n pod ns cps pb (server0, cache) = (Inr a0, pc, t0)"
    by (rule AllocatePort_split [OF client assms(4,7)])
  obtain b0 server2 qb server3 qc t2 where s2: "s2 = (server2, cache)"
    and two: "al_strategy qb = StrategyLeastUsed" "same_content b0 b" "view server2 = store_alloc b (view server1)"
    and try2: "tryAllocatePort (split_client api) pool n pod' ns cps qb (server3, cache) = (Inr b0, qc, t2)"
    by (rule AllocatePort_split [OF client least assms(8) [unfolded s1]])
  from tryAllocatePort_by_cache [OF assms(1) one(1) two(1) try1 try2] obtain p where
    same: "bindings b0 = bindings a0" "length (bindings a0) = length cps" "pod_of a0 = (ns, pod)" "pod_of b0 = (ns, pod')"
      "in_pool p a0" "in_pool p b0" by blast
  note content = same_content_sel [OF one(2), of p] same_content_sel [OF two(2), of p]
  have stored: "{a, b} \<subseteq> set (cl_Allocs (view server2))" using one(3) two(3) by simp
  moreover have "\<not> ledger_ok (view server2)"
  proof (rule shared_slots_break_ledger)
    show "a \<in> set (cl_Allocs (view server2))" "b \<in> set (cl_Allocs (view server2))" using stored by simp_all
  qed (use content same assms(5,6) in auto)
  ultimately show ?thesis using content same s2 by simp
qed

lemma mem_pure_reads: "pure_reads mem_api"
  by (simp add: pure_reads_def mem_api_def mem_get_pool_def mem_get_alloc_def mem_list_def Let_def split: list.split)

lemma split_retries: "retries_on_conflict (split_client mem_api) mem_retry"
  by (simp add: retries_on_conflict_def mem_retry_def)

abbreviation demo_allocator :: PoolAllocator where
  "demo_allocator \<equiv> NewPoolAllocator StrategyLeastUsed"

lemma one_below_max [simp]: "(1 :: int32) <s max_int32"
  by (simp add: word_sless_alt sint_max_int32)

lemma stale_runs:
  "\<exists>a pa1 s1 b pa2 s2.
    AllocatePort (split_client mem_api) mem_retry ''p'' '''' ''b'' ''ns'' [sample_port] demo_allocator (demo_one, demo_one) =
      Returns (Inr a) (pa1, s1) \<and>
    AllocatePort (split_client mem_api) mem_retry ''p'' '''' ''c'' ''ns'' [sample_port] pa1 s1 = Returns (Inr b) (pa2, s2) \<and>
    slots [a] = [(''lb-1'', 30001)]"
  by (simp add: call_eval attempt_eval demo_one_def demo_pool_def on_cache_def on_server_def
      selectLeastUsed_def least_used_step_def)

theorem stale_cache_double_books_witness:
  "\<exists>a pa1 s1 b pa2 s2.
    AllocatePort (split_client mem_api) mem_retry ''p'' '''' ''b'' ''ns'' [sample_port] demo_allocator (demo_one, demo_one) =
      Returns (Inr a) (pa1, s1) \<and>
    AllocatePort (split_client mem_api) mem_retry ''p'' '''' ''c'' ''ns'' [sample_port] pa1 s1 = Returns (Inr b) (pa2, s2) \<and>
    slots [a] = [(''lb-1'', 30001)] \<and> slots [b] = [(''lb-1'', 30001)] \<and> ledger_ok demo_one \<and> \<not> ledger_ok (fst s2)"
proof -
  from stale_runs obtain a pa1 s1 b pa2 s2 where
    runs: "AllocatePort (split_client mem_api) mem_retry ''p'' '''' ''b'' ''ns'' [sample_port] demo_allocator (demo_one, demo_one) =
      Returns (Inr a) (pa1, s1)"
    "AllocatePort (split_client mem_api) mem_retry ''p'' '''' ''c'' ''ns'' [sample_port] pa1 s1 = Returns (Inr b) (pa2, s2)"
    and slots: "slots [a] = [(''lb-1'', 30001)]" by blast
  have least: "al_strategy demo_allocator = StrategyLeastUsed" by (simp add: NewPoolAllocator_def)
  have "bindings b = bindings a" "\<not> ledger_ok (fst s2)"
    using stale_cache_double_books [OF mem_pure_reads mem_consistent split_retries least _ _ runs] by simp_all
  moreover from this slots have "slots [b] = [(''lb-1'', 30001)]" by simp
  ultimately show ?thesis using runs slots demo_ledger_ok(1) by blast
qed

end
