(* ===== verification/Startup.thy ===== *)
theory Startup
  imports PoolReconciler PodTransform
begin

text \<open>
  cmd/main.go and the set-up of the two controllers: which calls main makes in which order,
  what each failure does, and what the servers are configured with. The slices of TLS
  options are modelled with their backing arrays, because two of them are made by
  appending to the same one.
\<close>

section \<open>Setting up the controllers\<close>

text \<open>
  What the controller builder is told: the kind that is reconciled, the kinds that are
  watched with their map functions, the name, and the number of workers if it is set.
\<close>

record controller_spec =
  cs_For :: string
  cs_Watches :: "(string \<times> (api_object \<Rightarrow> request list)) list"
  cs_Named :: string
  cs_MaxConcurrentReconciles :: "nat option"

definition ApolloNetworkPoolReconciler_SetupWithManager :: controller_spec where
  "ApolloNetworkPoolReconciler_SetupWithManager =
     \<lparr>cs_For = ''ApolloNetworkPool'', cs_Watches = [(''PortAllocation'', mapPortAllocationToPool)],
      cs_Named = ''apollonetworkpool'', cs_MaxConcurrentReconciles = None\<rparr>"

definition PodReconciler_SetupWithManager :: controller_spec where
  "PodReconciler_SetupWithManager =
     \<lparr>cs_For = ''Pod'', cs_Watches = [], cs_Named = ''pod'', cs_MaxConcurrentReconciles = Some 10\<rparr>"

definition GroupVersion :: "string \<times> string" where
  "GroupVersion = (''network.apollo.io'', ''v1'')"

section \<open>Flags\<close>

record flags =
  fl_metricsAddr :: string
  fl_probeAddr :: string
  fl_enableLeaderElection :: bool
  fl_secureMetrics :: bool
  fl_webhookCertPath :: string
  fl_webhookCertName :: string
  fl_webhookCertKey :: string
  fl_metricsCertPath :: string
  fl_metricsCertName :: string
  fl_metricsCertKey :: string
  fl_enableHTTP2 :: bool

text \<open>The values without arguments.\<close>

definition default_flags :: flags where
  "default_flags =
     \<lparr>fl_metricsAddr = ''0'', fl_probeAddr = '':8081'', fl_enableLeaderElection = False, fl_secureMetrics = True,
      fl_webhookCertPath = '''', fl_webhookCertName = ''tls.crt'', fl_webhookCertKey = ''tls.key'',
      fl_metricsCertPath = '''', fl_metricsCertName = ''tls.crt'', fl_metricsCertKey = ''tls.key'',
      fl_enableHTTP2 = False\<rparr>"

section \<open>Paths\<close>

text \<open>filepath.Clean and filepath.Join of two elements, for Unix.\<close>

definition clean_component :: "bool \<Rightarrow> string \<Rightarrow> string list \<Rightarrow> string list" where
  "clean_component rooted c out =
     (if c = '''' \<or> c = ''.'' then out
      else if c = ''..'' then
        (if out \<noteq> [] \<and> last out \<noteq> ''..'' then butlast out
         else if rooted then out else out @ [c])
      else out @ [c])"

definition path_Clean :: "string \<Rightarrow> string" where
  "path_Clean path =
     (let rooted = HasPrefix path ''/'';
          out = fold (clean_component rooted) (Split path (CHR ''/'')) []
      in if rooted then CHR ''/'' # join (CHR ''/'') out
         else if out = [] then ''.'' else join (CHR ''/'') out)"

definition path_Join :: "string \<Rightarrow> string \<Rightarrow> string" where
  "path_Join a b =
     (if a \<noteq> '''' then path_Clean (join (CHR ''/'') [a, b])
      else if b \<noteq> '''' then path_Clean b else '''')"

section \<open>TLS options\<close>

text \<open>
  A certificate watcher is named by its two files. The closures that main makes: one that
  turns HTTP/2 off, one per watcher.
\<close>

type_synonym cert_watcher = "string \<times> string"

datatype tls_opt = DisableHTTP2 | UseCertificate cert_watcher

record tls_config =
  tc_NextProtos :: "string list"
  tc_GetCertificate :: "cert_watcher option"

fun apply_opt :: "tls_opt \<Rightarrow> tls_config \<Rightarrow> tls_config" where
  "apply_opt DisableHTTP2 c = c\<lparr>tc_NextProtos := [''http/1.1'']\<rparr>"
| "apply_opt (UseCertificate w) c = c\<lparr>tc_GetCertificate := Some w\<rparr>"

text \<open>
  A slice is an array in the store (its index), a length and a capacity; nil has no array.
  Appending writes behind the length when the capacity allows it, seen by every slice of
  the same array, and otherwise moves to a new array, whose capacity the language leaves
  open: \<open>grow\<close> gives it from the old length (at least one more than that is taken).
\<close>

record slice =
  sl_array :: nat
  sl_len :: nat
  sl_cap :: nat

type_synonym store = "tls_opt option list list"

definition nil_slice :: slice where
  "nil_slice = \<lparr>sl_array = 0, sl_len = 0, sl_cap = 0\<rparr>"

definition slice_items :: "store \<Rightarrow> slice \<Rightarrow> tls_opt option list" where
  "slice_items st sl = (if sl_len sl = 0 then [] else take (sl_len sl) (st ! sl_array sl))"

definition append_opt :: "(nat \<Rightarrow> nat) \<Rightarrow> slice \<Rightarrow> tls_opt \<Rightarrow> store \<Rightarrow> slice \<times> store" where
  "append_opt grow sl opt st =
     (if sl_len sl < sl_cap sl
      then (sl\<lparr>sl_len := sl_len sl + 1\<rparr>, st[sl_array sl := (st ! sl_array sl)[sl_len sl := Some opt]])
      else let cap = max (sl_len sl + 1) (grow (sl_len sl)) in
        (\<lparr>sl_array = length st, sl_len = sl_len sl + 1, sl_cap = cap\<rparr>,
         st @ [slice_items st sl @ [Some opt] @ replicate (cap - sl_len sl - 1) None]))"

section \<open>main\<close>

record manager_options =
  mo_BindAddress :: string
  mo_SecureServing :: bool
  mo_MetricsTLSOpts :: slice
  mo_FilterProvider :: bool
  mo_WebhookTLSOpts :: slice
  mo_HealthProbeBindAddress :: string
  mo_LeaderElection :: bool
  mo_LeaderElectionID :: string
  mo_Cache :: "string \<Rightarrow> (api_object \<Rightarrow> api_object) option"

text \<open>The calls that can fail, in the vocabulary of main.\<close>

datatype action =
    AddToScheme string
  | NewCertWatcher cert_watcher
  | GetConfigOrDie
  | NewManager manager_options
  | SetupController controller_spec
  | AddRunnable cert_watcher
  | AddHealthzCheck string
  | AddReadyzCheck string
  | StartManager

text \<open>A run ends with an exit code, or in the panic of \<open>Must\<close>.\<close>

datatype exit = ExitCode nat | Panicked

type_synonym main_result = "exit \<times> action list \<times> store"

text \<open>
  One call: \<open>fails\<close> says whether it fails after the calls made so far; then the run ends with
  the given exit, otherwise it goes on.
\<close>

definition attempt ::
  "(action list \<Rightarrow> action \<Rightarrow> bool) \<Rightarrow> exit \<Rightarrow> action \<Rightarrow> action list \<times> store \<Rightarrow>
   (action list \<times> store \<Rightarrow> main_result) \<Rightarrow> main_result" where
  "attempt fails on_error act = (\<lambda>(made, st) continue.
     if fails made act then (on_error, made @ [act], st) else continue (made @ [act], st))"

text \<open>The option and the watcher for the certificates at a path, if one is given.\<close>

definition with_watcher ::
  "(nat \<Rightarrow> nat) \<Rightarrow> (action list \<Rightarrow> action \<Rightarrow> bool) \<Rightarrow> string \<Rightarrow> string \<Rightarrow> string \<Rightarrow> slice \<Rightarrow> action list \<times> store \<Rightarrow>
   (cert_watcher option \<Rightarrow> slice \<Rightarrow> action list \<times> store \<Rightarrow> main_result) \<Rightarrow> main_result" where
  "with_watcher grow fails certPath certName certKey tlsOpts c continue =
     (if length certPath > 0 then
        let watcher = (path_Join certPath certName, path_Join certPath certKey) in
        attempt fails (ExitCode 1) (NewCertWatcher watcher) c (\<lambda>(made, st).
          let (tlsOpts', st') = append_opt grow tlsOpts (UseCertificate watcher) st in
          continue (Some watcher) tlsOpts' (made, st'))
      else continue None tlsOpts c)"

definition add_watcher ::
  "(action list \<Rightarrow> action \<Rightarrow> bool) \<Rightarrow> cert_watcher option \<Rightarrow> action list \<times> store \<Rightarrow>
   (action list \<times> store \<Rightarrow> main_result) \<Rightarrow> main_result" where
  "add_watcher fails watcher c continue =
     (case watcher of
        None \<Rightarrow> continue c
      | Some w \<Rightarrow> attempt fails (ExitCode 1) (AddRunnable w) c continue)"

text \<open>init registers the types; main follows.\<close>

definition main_init ::
  "(action list \<Rightarrow> action \<Rightarrow> bool) \<Rightarrow> (action list \<times> store \<Rightarrow> main_result) \<Rightarrow> main_result" where
  "main_init fails continue =
     attempt fails Panicked (AddToScheme ''client-go'') ([], []) (\<lambda>c.
     attempt fails Panicked (AddToScheme (fst GroupVersion)) c continue)"

definition main_manager ::
  "(action list \<Rightarrow> action \<Rightarrow> bool) \<Rightarrow> manager_options \<Rightarrow> cert_watcher option \<Rightarrow> cert_watcher option \<Rightarrow>
   action list \<times> store \<Rightarrow> main_result" where
  "main_manager fails options metricsCertWatcher webhookCertWatcher c =
     attempt fails (ExitCode 1) GetConfigOrDie c (\<lambda>c.
     attempt fails (ExitCode 1) (NewManager options) c (\<lambda>c.
     attempt fails (ExitCode 1) (SetupController ApolloNetworkPoolReconciler_SetupWithManager) c (\<lambda>c.
     attempt fails (ExitCode 1) (SetupController PodReconciler_SetupWithManager) c (\<lambda>c.
     add_watcher fails metricsCertWatcher c (\<lambda>c.
     add_watcher fails webhookCertWatcher c (\<lambda>c.
     attempt fails (ExitCode 1) (AddHealthzCheck ''healthz'') c (\<lambda>c.
     attempt fails (ExitCode 1) (AddReadyzCheck ''readyz'') c (\<lambda>c.
     attempt fails (ExitCode 1) StartManager c (\<lambda>(made, st). (ExitCode 0, made, st))))))))))"

definition main ::
  "(nat \<Rightarrow> nat) \<Rightarrow> (action list \<Rightarrow> action \<Rightarrow> bool) \<Rightarrow> flags \<Rightarrow> main_result" where
  "main grow fails f =
     main_init fails (\<lambda>(made, st).
       let (tlsOpts, st1) = (if \<not> fl_enableHTTP2 f then append_opt grow nil_slice DisableHTTP2 st else (nil_slice, st)) in
       with_watcher grow fails (fl_webhookCertPath f) (fl_webhookCertName f) (fl_webhookCertKey f) tlsOpts (made, st1)
         (\<lambda>webhookCertWatcher webhookTLSOpts c.
       with_watcher grow fails (fl_metricsCertPath f) (fl_metricsCertName f) (fl_metricsCertKey f) tlsOpts c
         (\<lambda>metricsCertWatcher metricsTLSOpts c.
       main_manager fails
         \<lparr>mo_BindAddress = fl_metricsAddr f, mo_SecureServing = fl_secureMetrics f,
          mo_MetricsTLSOpts = metricsTLSOpts, mo_FilterProvider = fl_secureMetrics f,
          mo_WebhookTLSOpts = webhookTLSOpts, mo_HealthProbeBindAddress = fl_probeAddr f,
          mo_LeaderElection = fl_enableLeaderElection f, mo_LeaderElectionID = ''116b54e8.apollo.network'',
          mo_Cache = SetupPodCacheTransform\<rparr>
         metricsCertWatcher webhookCertWatcher c)))"

section \<open>The plan of a run\<close>

text \<open>What main would do if nothing failed, as a list of calls, and the rule for failures.\<close>

definition initial_slice :: "(nat \<Rightarrow> nat) \<Rightarrow> flags \<Rightarrow> slice \<times> store" where
  "initial_slice grow f =
     (if fl_enableHTTP2 f then (nil_slice, []) else append_opt grow nil_slice DisableHTTP2 [])"

definition given_watcher :: "string \<Rightarrow> string \<Rightarrow> string \<Rightarrow> cert_watcher option" where
  "given_watcher path name key = (if path = '''' then None else Some (path_Join path name, path_Join path key))"

abbreviation webhook_watcher :: "flags \<Rightarrow> cert_watcher option" where
  "webhook_watcher f \<equiv> given_watcher (fl_webhookCertPath f) (fl_webhookCertName f) (fl_webhookCertKey f)"

abbreviation metrics_watcher :: "flags \<Rightarrow> cert_watcher option" where
  "metrics_watcher f \<equiv> given_watcher (fl_metricsCertPath f) (fl_metricsCertName f) (fl_metricsCertKey f)"

definition with_cert :: "(nat \<Rightarrow> nat) \<Rightarrow> cert_watcher option \<Rightarrow> slice \<Rightarrow> store \<Rightarrow> slice \<times> store" where
  "with_cert grow w sl st = (case w of None \<Rightarrow> (sl, st) | Some w \<Rightarrow> append_opt grow sl (UseCertificate w) st)"

text \<open>The slices of the two servers and the arrays they end up with.\<close>

definition server_slices :: "(nat \<Rightarrow> nat) \<Rightarrow> flags \<Rightarrow> slice \<times> slice \<times> store" where
  "server_slices grow f =
     (let (tlsOpts, st) = initial_slice grow f;
          (webhook, st) = with_cert grow (webhook_watcher f) tlsOpts st;
          (metrics, st) = with_cert grow (metrics_watcher f) tlsOpts st
      in (webhook, metrics, st))"

definition served_options :: "(nat \<Rightarrow> nat) \<Rightarrow> flags \<Rightarrow> manager_options" where
  "served_options grow f =
     (let (webhook, metrics, _) = server_slices grow f in
      \<lparr>mo_BindAddress = fl_metricsAddr f, mo_SecureServing = fl_secureMetrics f,
       mo_MetricsTLSOpts = metrics, mo_FilterProvider = fl_secureMetrics f,
       mo_WebhookTLSOpts = webhook, mo_HealthProbeBindAddress = fl_probeAddr f,
       mo_LeaderElection = fl_enableLeaderElection f, mo_LeaderElectionID = ''116b54e8.apollo.network'',
       mo_Cache = SetupPodCacheTransform\<rparr>)"

definition on_watcher :: "(cert_watcher \<Rightarrow> action) \<Rightarrow> cert_watcher option \<Rightarrow> action list" where
  "on_watcher act w = (case w of None \<Rightarrow> [] | Some w \<Rightarrow> [act w])"

definition plan :: "(nat \<Rightarrow> nat) \<Rightarrow> flags \<Rightarrow> action list" where
  "plan grow f =
     [AddToScheme ''client-go'', AddToScheme ''network.apollo.io''] @
     on_watcher NewCertWatcher (webhook_watcher f) @ on_watcher NewCertWatcher (metrics_watcher f) @
     [GetConfigOrDie, NewManager (served_options grow f),
      SetupController ApolloNetworkPoolReconciler_SetupWithManager,
      SetupController PodReconciler_SetupWithManager] @
     on_watcher AddRunnable (metrics_watcher f) @ on_watcher AddRunnable (webhook_watcher f) @
     [AddHealthzCheck ''healthz'', AddReadyzCheck ''readyz'', StartManager]"

fun exit_of :: "action \<Rightarrow> exit" where
  "exit_of (AddToScheme _) = Panicked"
| "exit_of _ = ExitCode 1"

fun run_plan :: "(action list \<Rightarrow> action \<Rightarrow> bool) \<Rightarrow> action list \<Rightarrow> action list \<Rightarrow> exit \<times> action list" where
  "run_plan fails [] made = (ExitCode 0, made)"
| "run_plan fails (act # acts) made =
     (if fails made act then (exit_of act, made @ [act]) else run_plan fails acts (made @ [act]))"

definition outcome :: "main_result \<Rightarrow> exit \<times> action list" where
  "outcome r = (fst r, fst (snd r))"

lemma outcome_attempt:
  "outcome (attempt fails on_error act (made, st) continue) =
     (if fails made act then (on_error, made @ [act]) else outcome (continue (made @ [act], st)))"
  by (simp add: attempt_def outcome_def)

lemma outcome_add_watcher:
  "outcome (add_watcher fails w (made, st) continue) =
     (case w of None \<Rightarrow> outcome (continue (made, st))
      | Some w \<Rightarrow> if fails made (AddRunnable w) then (ExitCode 1, made @ [AddRunnable w])
                 else outcome (continue (made @ [AddRunnable w], st)))"
  by (simp add: add_watcher_def outcome_attempt split: option.splits)

lemma outcome_with_watcher:
  "outcome (with_watcher grow fails path name key sl (made, st) continue) =
     (case given_watcher path name key of
        None \<Rightarrow> outcome (continue None sl (made, st))
      | Some w \<Rightarrow> if fails made (NewCertWatcher w) then (ExitCode 1, made @ [NewCertWatcher w])
          else case append_opt grow sl (UseCertificate w) st of (sl', st') \<Rightarrow>
            outcome (continue (Some w) sl' (made @ [NewCertWatcher w], st')))"
  by (simp add: with_watcher_def given_watcher_def outcome_attempt Let_def split_def)

lemma run_plan_cases:
  "(\<exists>k<length acts. (\<forall>j<k. \<not> fails (made @ take j acts) (acts ! j)) \<and> fails (made @ take k acts) (acts ! k) \<and>
      run_plan fails acts made = (exit_of (acts ! k), made @ take (Suc k) acts)) \<or>
   (\<forall>k<length acts. \<not> fails (made @ take k acts) (acts ! k)) \<and> run_plan fails acts made = (ExitCode 0, made @ acts)"
proof (induction acts arbitrary: made)
  case Nil
  show ?case by simp
next
  case (Cons act acts)
  show ?case
  proof (cases "fails made act")
    case True
    then show ?thesis by (intro disjI1 exI [of _ 0]) simp
  next
    case False
    from Cons.IH [of "made @ [act]"] show ?thesis
    proof (elim disjE exE conjE)
      fix k
      assume "k < length acts" "\<forall>j<k. \<not> fails ((made @ [act]) @ take j acts) (acts ! j)"
        "fails ((made @ [act]) @ take k acts) (acts ! k)"
        "run_plan fails acts (made @ [act]) = (exit_of (acts ! k), (made @ [act]) @ take (Suc k) acts)"
      with False show ?thesis
        by (intro disjI1 exI [of _ "Suc k"]) (auto simp: less_Suc_eq_0_disj)
    next
      assume "\<forall>k<length acts. \<not> fails ((made @ [act]) @ take k acts) (acts ! k)"
        "run_plan fails acts (made @ [act]) = (ExitCode 0, (made @ [act]) @ acts)"
      with False show ?thesis
        by (intro disjI2) (auto simp: less_Suc_eq_0_disj)
    qed
  qed
qed

lemma exit_of_nonzero: "exit_of act \<noteq> ExitCode 0"
  by (cases act) simp_all

lemma outcome_stop: "outcome (e, made, st) = (e, made)"
  by (simp add: outcome_def)

lemma outcome_main_manager:
  "outcome (main_manager fails options mw ww (made, st)) =
     run_plan fails ([GetConfigOrDie, NewManager options,
      SetupController ApolloNetworkPoolReconciler_SetupWithManager,
      SetupController PodReconciler_SetupWithManager] @
      on_watcher AddRunnable mw @ on_watcher AddRunnable ww @
      [AddHealthzCheck ''healthz'', AddReadyzCheck ''readyz'', StartManager]) made"
  by (cases mw; cases ww)
    (simp_all only: main_manager_def outcome_attempt outcome_add_watcher outcome_stop on_watcher_def
      option.case append.simps run_plan.simps exit_of.simps prod.case)

lemma main_runs_plan: "outcome (main grow fails f) = run_plan fails (plan grow f) []"
proof -
  obtain tlsOpts st1 where initial: "initial_slice grow f = (tlsOpts, st1)" by (metis surj_pair)
  then have first: "(if \<not> fl_enableHTTP2 f then append_opt grow nil_slice DisableHTTP2 [] else (nil_slice, [])) = (tlsOpts, st1)"
    by (simp add: initial_slice_def split: if_splits)
  obtain webhook st2 where webhook: "with_cert grow (webhook_watcher f) tlsOpts st1 = (webhook, st2)"
    by (metis surj_pair)
  obtain metrics st3 where metrics: "with_cert grow (metrics_watcher f) tlsOpts st2 = (metrics, st3)"
    by (metis surj_pair)
  show ?thesis
    using webhook metrics
    by (cases "webhook_watcher f"; cases "metrics_watcher f")
      (simp_all add: main_def main_init_def plan_def served_options_def server_slices_def first initial
        GroupVersion_def outcome_attempt outcome_with_watcher outcome_main_manager with_cert_def
        on_watcher_def)
qed

section \<open>What the servers are configured with\<close>

text \<open>
  The configuration a server gets: the one that controller-runtime starts from (the parameter
  \<open>initial\<close>) with the options of the slice applied in order.
\<close>

definition served_config :: "tls_config \<Rightarrow> store \<Rightarrow> slice \<Rightarrow> tls_config" where
  "served_config initial st sl = fold (\<lambda>opt c. case opt of Some opt \<Rightarrow> apply_opt opt c | None \<Rightarrow> c) (slice_items st sl) initial"

lemma main_manager_store: "snd (snd (main_manager fails options mw ww (made, st))) = st"
  by (simp add: main_manager_def attempt_def add_watcher_def split: option.splits)

lemma main_store:
  assumes "main grow fails f = (e, made, st)" "NewManager opts \<in> set made"
  shows "opts = served_options grow f" "st = snd (snd (server_slices grow f))"
proof -
  have "outcome (main grow fails f) = (e, made)"
    using assms(1) by (simp add: outcome_stop)
  then have "run_plan fails (plan grow f) [] = (e, made)"
    by (simp add: main_runs_plan)
  with run_plan_cases [of "plan grow f" fails "[]"] have "set made \<subseteq> set (plan grow f)"
    by (auto dest: in_set_takeD)
  with assms(2) show "opts = served_options grow f"
    by (auto simp: plan_def on_watcher_def split: option.splits)
  show "st = snd (snd (server_slices grow f))"
    using assms
    by (cases "fl_webhookCertPath f = ''''"; cases "fl_metricsCertPath f = ''''")
      (auto simp: main_def main_init_def attempt_def with_watcher_def server_slices_def initial_slice_def with_cert_def
        given_watcher_def Let_def split_def dest!: arg_cong [where f = "\<lambda>r. snd (snd r)"]
        simp: main_manager_store split: if_splits)
qed

text \<open>What the flags ask of a server that has the given certificate.\<close>

definition wanted_config :: "flags \<Rightarrow> cert_watcher option \<Rightarrow> tls_config \<Rightarrow> tls_config" where
  "wanted_config f w initial =
     \<lparr>tc_NextProtos = (if fl_enableHTTP2 f then tc_NextProtos initial else [''http/1.1'']),
      tc_GetCertificate = (case w of None \<Rightarrow> tc_GetCertificate initial | Some w \<Rightarrow> Some w)\<rparr>"

lemma served_by_default:
  assumes "grow 0 \<le> 1"
  shows "served_config initial (snd (snd (server_slices grow f))) (fst (server_slices grow f)) =
           wanted_config f (webhook_watcher f) initial"
    and "served_config initial (snd (snd (server_slices grow f))) (fst (snd (server_slices grow f))) =
           wanted_config f (metrics_watcher f) initial"
  using assms
  by (cases initial; cases "webhook_watcher f"; cases "metrics_watcher f"; cases "fl_enableHTTP2 f";
      simp add: wanted_config_def server_slices_def initial_slice_def with_cert_def append_opt_def nil_slice_def Let_def
        served_config_def slice_items_def nth_append max_def)+

lemma served_with_room:
  assumes "grow 0 \<ge> 2" "\<not> fl_enableHTTP2 f" "webhook_watcher f = Some w" "metrics_watcher f = Some m"
  shows "tc_GetCertificate (served_config initial (snd (snd (server_slices grow f))) (fst (server_slices grow f))) = Some m"
proof -
  obtain n where "grow 0 = Suc (Suc n)"
    using assms(1) by (metis le_Suc_ex add_2_eq_Suc)
  with assms(2-) show ?thesis
    by (simp add: server_slices_def initial_slice_def with_cert_def append_opt_def nil_slice_def Let_def
        served_config_def slice_items_def nth_append max_def)
qed

text \<open>
  Which calls main makes and how the process ends. main goes through its plan in order:
  register the types, load the certificates that are given, build the manager, set up the
  two controllers, add the watchers and the two checks, start. The first call that fails is
  the last one made, and the process exits with 1, or panics when a registration failed;
  it exits with 0 exactly when nothing failed, and then the manager was started after all
  the rest.
\<close>

theorem main_follows_plan:
  "outcome (main grow fails f) = run_plan fails (plan grow f) [] \<and>
   (fst (main grow fails f) = ExitCode 0 \<longleftrightarrow>
      (\<forall>k<length (plan grow f). \<not> fails (take k (plan grow f)) (plan grow f ! k))) \<and>
   (fst (main grow fails f) = ExitCode 0 \<longrightarrow> fst (snd (main grow fails f)) = plan grow f) \<and>
   (fst (main grow fails f) \<noteq> ExitCode 0 \<longrightarrow>
      (\<exists>k<length (plan grow f). fst (snd (main grow fails f)) = take (Suc k) (plan grow f) \<and>
         fails (take k (plan grow f)) (plan grow f ! k) \<and>
         fst (main grow fails f) = (if k < 2 then Panicked else ExitCode 1)))"
proof -
  have runs: "outcome (main grow fails f) = run_plan fails (plan grow f) []" by (rule main_runs_plan)
  have exit_at: "exit_of (plan grow f ! k) = (if k < 2 then Panicked else ExitCode 1)" if "k < length (plan grow f)" for k
  proof -
    have "\<forall>act\<in>set (drop 2 (plan grow f)). exit_of act = ExitCode 1"
      by (auto simp: plan_def on_watcher_def split: option.splits)
    moreover have "plan grow f ! k \<in> set (drop 2 (plan grow f))" if "2 \<le> k"
      using that \<open>k < length (plan grow f)\<close>
        nth_mem [of "k - 2" "drop 2 (plan grow f)"]
      by (simp flip: add_2_eq_Suc add: le_add_diff_inverse diff_less_mono)
    moreover have "exit_of (plan grow f ! k) = Panicked" if "k < 2"
      using that by (auto simp: plan_def less_2_cases_iff)
    ultimately show ?thesis by auto
  qed
  from run_plan_cases [of "plan grow f" fails "[]"] show ?thesis
  proof (elim disjE exE conjE)
    fix k
    assume k: "k < length (plan grow f)" "fails ([] @ take k (plan grow f)) (plan grow f ! k)"
      and run: "run_plan fails (plan grow f) [] = (exit_of (plan grow f ! k), [] @ take (Suc k) (plan grow f))"
    then have "fst (main grow fails f) = exit_of (plan grow f ! k)" "fst (snd (main grow fails f)) = take (Suc k) (plan grow f)"
      using runs by (simp_all add: outcome_def)
    with k runs exit_at [of k] exit_of_nonzero show ?thesis by auto
  next
    assume "\<forall>k<length (plan grow f). \<not> fails ([] @ take k (plan grow f)) (plan grow f ! k)"
      "run_plan fails (plan grow f) [] = (ExitCode 0, [] @ plan grow f)"
    with runs show ?thesis by (auto simp: outcome_def)
  qed
qed

text \<open>
  C39. What the two servers are configured with, in every run that builds the manager. As
  append behaves on a nil slice today (room for one element), each server gets its own
  certificate, when one is given, and HTTP/1.1 alone unless HTTP/2 is enabled; the rest is as
  controller-runtime starts with, whatever that is. The two
  slices are made by appending to the same one, so this rests on its capacity: with room
  for a second element the metrics certificate would replace that of the webhook server.
\<close>

theorem main_tls_options:
  assumes "main grow fails f = (e, made, st)" "NewManager opts \<in> set made"
  shows "(grow 0 \<le> 1 \<longrightarrow>
      served_config initial st (mo_WebhookTLSOpts opts) = wanted_config f (webhook_watcher f) initial \<and>
      served_config initial st (mo_MetricsTLSOpts opts) = wanted_config f (metrics_watcher f) initial) \<and>
    (grow 0 \<ge> 2 \<longrightarrow> \<not> fl_enableHTTP2 f \<longrightarrow> fl_webhookCertPath f \<noteq> '''' \<longrightarrow> fl_metricsCertPath f \<noteq> '''' \<longrightarrow>
      tc_GetCertificate (served_config initial st (mo_WebhookTLSOpts opts)) = metrics_watcher f)"
proof -
  have slices: "mo_WebhookTLSOpts opts = fst (server_slices grow f)" "mo_MetricsTLSOpts opts = fst (snd (server_slices grow f))"
    using main_store(1) [OF assms] by (simp_all add: served_options_def split_def Let_def)
  have st: "st = snd (snd (server_slices grow f))" by (rule main_store(2) [OF assms])
  show ?thesis
    unfolding slices st
    using served_with_room [of grow f]
    by (auto simp: served_by_default given_watcher_def)
qed

theorem main_follows_plan_witness:
  "fst (main (\<lambda>_. 1) (\<lambda>_ _. False) default_flags) = ExitCode 0 \<and>
   fst (snd (main (\<lambda>_. 1) (\<lambda>_ _. False) default_flags)) = plan (\<lambda>_. 1) default_flags"
proof -
  have "\<forall>k<length (plan (\<lambda>_. 1) default_flags).
      \<not> (\<lambda>_ _. False) (take k (plan (\<lambda>_. 1) default_flags)) (plan (\<lambda>_. 1) default_flags ! k)"
    by simp
  with main_follows_plan [of "\<lambda>_. 1" "\<lambda>_ _. False" default_flags] show ?thesis by blast
qed

text \<open>The servers of controller-runtime start with HTTP/2 alone.\<close>

definition runtime_config :: tls_config where
  "runtime_config = \<lparr>tc_NextProtos = [''h2''], tc_GetCertificate = None\<rparr>"

definition certificate_flags :: flags where
  "certificate_flags = default_flags\<lparr>fl_webhookCertPath := ''/certs//webhook/'', fl_metricsCertPath := ''certs/./m/../metrics''\<rparr>"

theorem main_tls_options_witness:
  "\<exists>e made st opts. main (\<lambda>_. 1) (\<lambda>_ _. False) certificate_flags = (e, made, st) \<and> NewManager opts \<in> set made \<and>
     served_config runtime_config st (mo_WebhookTLSOpts opts) =
       \<lparr>tc_NextProtos = [''http/1.1''], tc_GetCertificate = Some (''/certs/webhook/tls.crt'', ''/certs/webhook/tls.key'')\<rparr> \<and>
     served_config runtime_config st (mo_MetricsTLSOpts opts) =
       \<lparr>tc_NextProtos = [''http/1.1''], tc_GetCertificate = Some (''certs/metrics/tls.crt'', ''certs/metrics/tls.key'')\<rparr>"
proof -
  obtain e made st where run: "main (\<lambda>_. 1) (\<lambda>_ _. False) certificate_flags = (e, made, st)" by (metis surj_pair)
  moreover have "run_plan (\<lambda>_ _. False) acts made = (ExitCode 0, made @ acts)" for acts made
    by (induction acts arbitrary: made) simp_all
  ultimately have "made = plan (\<lambda>_. 1) certificate_flags"
    using main_runs_plan [of "\<lambda>_. 1" "\<lambda>_ _. False" certificate_flags] by (simp add: outcome_stop)
  then have made: "NewManager (served_options (\<lambda>_. 1) certificate_flags) \<in> set made"
    by (simp add: plan_def)
  have "webhook_watcher certificate_flags = Some (''/certs/webhook/tls.crt'', ''/certs/webhook/tls.key'')"
    "metrics_watcher certificate_flags = Some (''certs/metrics/tls.crt'', ''certs/metrics/tls.key'')"
    by code_simp+
  then show ?thesis
    using run made main_tls_options [OF run made, of runtime_config]
    by (simp add: wanted_config_def certificate_flags_def default_flags_def) blast
qed

end
