(* ===== verification/PoolSteps.thy ===== *)
theory PoolSteps
  imports PoolReconciler
begin

text \<open>
  A reconcile of a pool cut at its calls of the API server, so that other things can happen
  between two of them, and the proof that a reconcile during which nothing else happens is
  the one of PoolReconciler.
\<close>

section \<open>The steps of a reconcile\<close>

text \<open>
  Where a worker stands: idle, or before the next call it makes, with the variables of the
  code it still needs (the pool found first, the allocations listed, the retries that are
  left, the latest pool), or at the end with the answer.
\<close>

datatype 'e worker =
    Idle
  | Starting request
  | Listing request ApolloNetworkPool
  | Reading request ApolloNetworkPool "PortAllocation list" nat
  | Updating request ApolloNetworkPool "PortAllocation list" nat ApolloNetworkPool
  | Ended request "ctrl_result \<times> 'e error option"

definition after_failed_attempt ::
  "('s, 'e) kube_client \<Rightarrow> request \<Rightarrow> ApolloNetworkPool \<Rightarrow> PortAllocation list \<Rightarrow> nat \<Rightarrow> 'e error \<Rightarrow> 'e worker" where
  "after_failed_attempt api req pool items n err =
     (if is_conflict api err \<and> 0 < n then Reading req pool items (n - 1)
      else Ended req (\<lparr>cr_RequeueAfter = Minute\<rparr>, Some (FailedToUpdateStatus err)))"

fun reconcile_step :: "('s, 'e) kube_client \<Rightarrow> 'e worker \<times> 's \<Rightarrow> 'e worker \<times> 's" where
  "reconcile_step api (Starting req, s) =
     (case kc_GetPool api req s of
        (Inl err, s1) \<Rightarrow>
          (Ended req (zero_result, if \<not> kc_IsNotFound api err then Some (ApiError err) else None), s1)
      | (Inr pool, s1) \<Rightarrow> (Listing req pool, s1))"
| "reconcile_step api (Listing req pool, s) =
     (let nm = om_Name (np_ObjectMeta pool) in
      case kc_ListAllocations api [(LabelPoolNameKey, nm)] None s of
        (Inl err, s1) \<Rightarrow>
          (Ended req (\<lparr>cr_RequeueAfter = Minute\<rparr>, Some (FailedToListAllocations nm (ApiError err))), s1)
      | (Inr allocationList, s1) \<Rightarrow> (Reading req pool (al_Items allocationList) 4, s1))"
| "reconcile_step api (Reading req pool items n, s) =
     (case kc_GetPool api \<lparr>nn_Namespace = '''', nn_Name = om_Name (np_ObjectMeta pool)\<rparr> s of
        (Inl err, s1) \<Rightarrow> (after_failed_attempt api req pool items n (ApiError err), s1)
      | (Inr latestPool, s1) \<Rightarrow> (Updating req pool items n latestPool, s1))"
| "reconcile_step api (Updating req pool items n latestPool, s) =
     (case kc_UpdatePoolStatus api
             (latestPool\<lparr>np_Status :=
                \<lparr>nps_Allocations = Some (status_entries latestPool items (kc_Now api s)), nps_IsSynced = True\<rparr>\<rparr>) s of
        (Inl err, s1) \<Rightarrow> (after_failed_attempt api req pool items n (ApiError err), s1)
      | (Inr _, s1) \<Rightarrow> (Ended req (\<lparr>cr_RequeueAfter = 10 * Minute\<rparr>, None), s1))"
| "reconcile_step api (Ended req out, s) = (Ended req out, s)"
| "reconcile_step api (Idle, s) = (Idle, s)"

section \<open>A reconcile that runs alone\<close>

lemma ended_stays [simp]: "(reconcile_step api ^^ k) (Ended req out, s) = (Ended req out, s)"
  by (induction k) simp_all

lemma funpow_Suc_apply: "(f ^^ Suc k) x = (f ^^ k) (f x)"
  by (simp add: funpow_swap1)

definition update_answer :: "'e error option \<Rightarrow> ctrl_result \<times> 'e error option" where
  "update_answer e =
     (case e of
        None \<Rightarrow> (\<lparr>cr_RequeueAfter = 10 * Minute\<rparr>, None)
      | Some err \<Rightarrow> (\<lparr>cr_RequeueAfter = Minute\<rparr>, Some (FailedToUpdateStatus err)))"

lemma attempt_steps:
  assumes "status_attempt api (om_Name (np_ObjectMeta pool)) items s = (r, s')"
  shows "r = None \<Longrightarrow> (reconcile_step api ^^ (2 + k)) (Reading req pool items n, s) = (Ended req (update_answer None), s')"
    and "r = Some err \<Longrightarrow> \<not> (is_conflict api err \<and> 0 < n) \<Longrightarrow>
      (reconcile_step api ^^ (2 + k)) (Reading req pool items n, s) = (Ended req (update_answer (Some err)), s')"
    and "r = Some err \<Longrightarrow> is_conflict api err \<Longrightarrow> 0 < n \<Longrightarrow>
      \<exists>j\<ge>k. (reconcile_step api ^^ (2 + k)) (Reading req pool items n, s) =
        (reconcile_step api ^^ j) (Reading req pool items (n - 1), s')"
proof -
  obtain got s1 where get: "kc_GetPool api \<lparr>nn_Namespace = '''', nn_Name = om_Name (np_ObjectMeta pool)\<rparr> s = (got, s1)"
    by (metis surj_pair)
  let ?at = "(reconcile_step api ^^ (2 + k)) (Reading req pool items n, s)"
  have "(r = None \<longrightarrow> ?at = (Ended req (update_answer None), s')) \<and>
    (r = Some err \<longrightarrow> \<not> (is_conflict api err \<and> 0 < n) \<longrightarrow> ?at = (Ended req (update_answer (Some err)), s')) \<and>
    (r = Some err \<longrightarrow> is_conflict api err \<longrightarrow> 0 < n \<longrightarrow>
      (\<exists>j\<ge>k. ?at = (reconcile_step api ^^ j) (Reading req pool items (n - 1), s')))"
  proof (cases got)
    case (Inl e)
    then have "r = Some (ApiError e)" "s' = s1" using assms get by (simp_all add: status_attempt_def)
    moreover have "?at = (reconcile_step api ^^ Suc k) (after_failed_attempt api req pool items n (ApiError e), s1)"
      using get Inl by (simp add: funpow_Suc_apply del: funpow.simps)
    ultimately show ?thesis by (auto simp: after_failed_attempt_def update_answer_def simp del: funpow.simps intro!: exI [of _ "Suc k"])
  next
    case (Inr p)
    obtain out s2 where up: "kc_UpdatePoolStatus api (p\<lparr>np_Status :=
        \<lparr>nps_Allocations = Some (status_entries p items (kc_Now api s1)), nps_IsSynced = True\<rparr>\<rparr>) s1 = (out, s2)"
      by (metis surj_pair)
    show ?thesis
      using assms get Inr up
      by (cases out) (auto simp: status_attempt_def funpow_Suc_apply after_failed_attempt_def update_answer_def
          simp del: funpow.simps)
  qed
  then show "r = None \<Longrightarrow> ?at = (Ended req (update_answer None), s')"
    "r = Some err \<Longrightarrow> \<not> (is_conflict api err \<and> 0 < n) \<Longrightarrow> ?at = (Ended req (update_answer (Some err)), s')"
    "r = Some err \<Longrightarrow> is_conflict api err \<Longrightarrow> 0 < n \<Longrightarrow>
      \<exists>j\<ge>k. ?at = (reconcile_step api ^^ j) (Reading req pool items (n - 1), s')"
    by simp_all
qed

lemma attempts_steps:
  assumes "2 * Suc n \<le> k"
  shows "(reconcile_step api ^^ k) (Reading req pool items n, s) =
     (case retry_runs (is_conflict api) (status_attempt api (om_Name (np_ObjectMeta pool)) items) n s of
        (err, s') \<Rightarrow> (Ended req (update_answer err), s'))"
  using assms
proof (induction n arbitrary: k s)
  case 0
  then obtain k' where k: "k = 2 + k'" using le_Suc_ex [of 2 k] by auto
  obtain r s' where at: "status_attempt api (om_Name (np_ObjectMeta pool)) items s = (r, s')" by (metis surj_pair)
  show ?case unfolding k using attempt_steps [OF at] by (cases r) (simp_all add: at)
next
  case (Suc n)
  then obtain k' where k: "k = 2 + k'" and enough: "2 * Suc n \<le> k'" using le_Suc_ex [of 2 k] by auto
  obtain r s' where at: "status_attempt api (om_Name (np_ObjectMeta pool)) items s = (r, s')" by (metis surj_pair)
  show ?case
  proof (cases "\<exists>err. r = Some err \<and> is_conflict api err")
    case True
    then obtain err where err: "r = Some err" "is_conflict api err" by blast
    then obtain j where "j \<ge> k'" "(reconcile_step api ^^ k) (Reading req pool items (Suc n), s) =
        (reconcile_step api ^^ j) (Reading req pool items n, s')"
      using attempt_steps(3) [OF at err(1,2), of "Suc n" k' req] k by auto
    with Suc.IH [of j s'] enough err show ?thesis by (simp add: at)
  next
    case False
    then show ?thesis unfolding k using attempt_steps(1,2) [OF at] by (cases r) (auto simp: at)
  qed
qed

text \<open>
  C16. A reconcile during which nothing else happens, taken step by step, ends after at most
  twelve steps (two, and two for each of five attempts) with the answer and in the state of
  the reconcile as a whole.
\<close>

theorem reconcile_by_steps:
  assumes "retries_on_conflict api retry"
  shows "(reconcile_step api ^^ 12) (Starting req, s) =
    (let (out, s') = ApolloNetworkPoolReconciler_Reconcile api retry req s in (Ended req out, s'))"
proof -
  have twelve: "(12 :: nat) = Suc (Suc 10)" by simp
  have ten: "2 * Suc 4 \<le> (10 :: nat)" by simp
  show ?thesis
    unfolding twelve funpow_Suc_apply
    using assms
    by (auto simp: ApolloNetworkPoolReconciler_Reconcile_def updatePoolStatus_def retries_on_conflict_def update_answer_def
        attempts_steps [OF ten] Let_def simp del: funpow.simps split: prod.splits sum.splits option.splits)
qed

theorem reconcile_by_steps_witness:
  "\<exists>c. (reconcile_step mem_api ^^ 12) (Starting \<lparr>nn_Namespace = '''', nn_Name = ''p''\<rparr>, demo_one) =
     (Ended \<lparr>nn_Namespace = '''', nn_Name = ''p''\<rparr> (\<lparr>cr_RequeueAfter = 10 * Minute\<rparr>, None), c)"
  using reconcile_by_steps [OF mem_retries, of "\<lparr>nn_Namespace = '''', nn_Name = ''p''\<rparr>" demo_one] demo_reconcile_result
  by (auto simp del: funpow.simps)

end
