(* ===== verification/ControlLoop.thy ===== *)
theory ControlLoop
  imports Startup StaleCache PoolSteps
begin

text \<open>
  The pool controller as it runs: a work queue of requests, filled by the watches that
  SetupWithManager registers, and a worker that takes requests from it and reconciles them
  step by step. It reads from the manager's cache, which is behind the server, and writes to
  the server, while everybody else (the pod controller with the allocator, users, the server)
  changes the cluster between any two steps.
\<close>

section \<open>Events\<close>

text \<open>
  Objects that were made, changed or removed between two states of the cluster. The
  controller is told of each of them when its cache changes: of the kind it is registered for
  (\<open>For\<close>) by the object's key, of a watched kind by what the map function makes of the object,
  before and after. No predicate is registered, so no event is filtered out.
\<close>

definition pool_key :: "ApolloNetworkPool \<Rightarrow> request" where
  "pool_key p = \<lparr>nn_Namespace = '''', nn_Name = om_Name (np_ObjectMeta p)\<rparr>"

definition changed :: "'a list \<Rightarrow> 'a list \<Rightarrow> 'a set" where
  "changed before after = set before - set after \<union> (set after - set before)"

definition watched :: "controller_spec \<Rightarrow> string \<Rightarrow> api_object \<Rightarrow> request set" where
  "watched spec kind obj = (\<Union>(k, f)\<in>set (cs_Watches spec). if k = kind then set (f obj) else {})"

definition own_events :: "controller_spec \<Rightarrow> string \<Rightarrow> ('a \<Rightarrow> request) \<Rightarrow> 'a set \<Rightarrow> request set" where
  "own_events spec kind key objs = (if cs_For spec = kind then key ` objs else {})"

definition pool_events :: "cluster \<Rightarrow> cluster \<Rightarrow> request set" where
  "pool_events before after =
     own_events ApolloNetworkPoolReconciler_SetupWithManager ''ApolloNetworkPool'' pool_key
       (changed (cl_Pools before) (cl_Pools after)) \<union>
     \<Union> (watched ApolloNetworkPoolReconciler_SetupWithManager ''PortAllocation'' ` AllocationObject `
        changed (cl_Allocs before) (cl_Allocs after))"

lemma events_pool: "p \<in> changed (cl_Pools before) (cl_Pools after) \<Longrightarrow> pool_key p \<in> pool_events before after"
  by (simp add: pool_events_def own_events_def ApolloNetworkPoolReconciler_SetupWithManager_def)

lemma events_allocation:
  assumes "a \<in> changed (cl_Allocs before) (cl_Allocs after)" "in_pool (om_Name (np_ObjectMeta p)) a"
    "om_Name (np_ObjectMeta p) \<noteq> ''''"
  shows "pool_key p \<in> pool_events before after"
proof -
  have "pool_key p \<in> watched ApolloNetworkPoolReconciler_SetupWithManager ''PortAllocation'' (AllocationObject a)"
    using assms(2,3) by (simp add: watched_def ApolloNetworkPoolReconciler_SetupWithManager_def
        mapPortAllocationToPool_def in_pool_def gm_get_def pool_key_def)
  with assms(1) show ?thesis by (auto simp: pool_events_def)
qed

section \<open>The loop\<close>

text \<open>
  Keys of stored objects are distinct, names are not empty, and a resource version stands for
  one content of an object: \<open>H\<close> gives the pool of a name and a version.
\<close>

type_synonym pool_history = "string \<Rightarrow> string \<Rightarrow> ApolloNetworkPool"

abbreviation np_name :: "ApolloNetworkPool \<Rightarrow> string" where
  "np_name p \<equiv> om_Name (np_ObjectMeta p)"

abbreviation np_version :: "ApolloNetworkPool \<Rightarrow> string" where
  "np_version p \<equiv> om_ResourceVersion (np_ObjectMeta p)"

definition well_formed :: "pool_history \<Rightarrow> cluster \<Rightarrow> bool" where
  "well_formed H c \<longleftrightarrow>
     keys_distinct c \<and> distinct (map np_name (cl_Pools c)) \<and>
     (\<forall>p\<in>set (cl_Pools c). np_name p \<noteq> '''' \<and> p = H (np_name p) (np_version p))"

lemma well_formed_unique:
  "well_formed H c \<Longrightarrow> p \<in> set (cl_Pools c) \<Longrightarrow> q \<in> set (cl_Pools c) \<Longrightarrow> np_name q = np_name p \<Longrightarrow> q = p"
  by (auto simp: well_formed_def distinct_map inj_on_def)

lemma well_formed_version:
  "well_formed H c \<Longrightarrow> p \<in> set (cl_Pools c) \<Longrightarrow> well_formed H d \<Longrightarrow> q \<in> set (cl_Pools d) \<Longrightarrow>
   np_name q = np_name p \<Longrightarrow> np_version q = np_version p \<Longrightarrow> q = p"
  by (metis well_formed_def)

text \<open>
  The state is the world, with the server and the cache in it, the queue \<open>Q\<close>, the keys \<open>U\<close> of
  pools with a change on the server that the cache has not announced yet, and the worker.
  Others may change the server in any way. The cache may change in any way too (it goes
  through states that the server had), announces what it changes, and may announce more. The
  worker takes a request when it is idle; a request whose reconcile failed is put back, one
  whose reconcile succeeded is gone. A delay may end at any time.
\<close>

type_synonym ('s, 'e) loop = "'s \<times> request set \<times> request set \<times> 'e worker"

abbreviation changed_pools :: "cluster \<Rightarrow> cluster \<Rightarrow> request set" where
  "changed_pools before after \<equiv> pool_key ` changed (cl_Pools before) (cl_Pools after)"

inductive loop_step ::
  "('s, 'e) kube_client \<Rightarrow> ('s \<Rightarrow> cluster) \<Rightarrow> ('s \<Rightarrow> cluster) \<Rightarrow> pool_history \<Rightarrow> ('s, 'e) loop \<Rightarrow> ('s, 'e) loop \<Rightarrow> bool"
  for api server cache H where
  server_changes: "cache s' = cache s \<Longrightarrow> well_formed H (server s') \<Longrightarrow>
    loop_step api server cache H (s, Q, U, w) (s', Q, U \<union> changed_pools (server s) (server s'), w)"
| cache_changes: "server s' = server s \<Longrightarrow> well_formed H (cache s') \<Longrightarrow>
    loop_step api server cache H (s, Q, U, w) (s', Q \<union> pool_events (cache s) (cache s') \<union> K, U - K, w)"
| takes: "r \<in> Q \<Longrightarrow> loop_step api server cache H (s, Q, U, Idle) (s, Q - {r}, U, Starting r)"
| moves: "reconcile_step api (w, s) = (w', s') \<Longrightarrow> well_formed H (server s') \<Longrightarrow>
    loop_step api server cache H (s, Q, U, w) (s', Q, U \<union> changed_pools (server s) (server s'), w')"
| succeeds: "loop_step api server cache H (s, Q, U, Ended r (res, None)) (s, Q, U, Idle)"
| fails: "loop_step api server cache H (s, Q, U, Ended r (res, Some e)) (s, insert r Q, U, Idle)"
| delay_ends: "loop_step api server cache H (s, Q, U, w) (s, insert r Q, U, w)"

text \<open>At the start the cache is filled and announces every pool it has.\<close>

inductive loop_reachable ::
  "('s, 'e) kube_client \<Rightarrow> ('s \<Rightarrow> cluster) \<Rightarrow> ('s \<Rightarrow> cluster) \<Rightarrow> pool_history \<Rightarrow> ('s, 'e) loop \<Rightarrow> bool"
  for api server cache H where
  start: "well_formed H (server s) \<Longrightarrow> well_formed H (cache s) \<Longrightarrow>
    loop_reachable api server cache H
      (s, pool_key ` set (cl_Pools (cache s)), changed_pools (cache s) (server s), Idle)"
| step: "loop_reachable api server cache H x \<Longrightarrow> loop_step api server cache H x y \<Longrightarrow>
    loop_reachable api server cache H y"

text \<open>
  What is documented of the client: reads are answered from the cache, as it is at that time;
  a status update is refused unless the version sent is the one stored.
\<close>

definition finds_pools :: "('s, 'e) kube_client \<Rightarrow> ('s \<Rightarrow> cluster) \<Rightarrow> bool" where
  "finds_pools api view \<longleftrightarrow>
     (\<forall>k s e s'. kc_GetPool api k s = (Inl e, s') \<and> kc_IsNotFound api e \<longrightarrow>
        nn_Name k \<notin> np_name ` set (cl_Pools (view s)))"

definition manager_client :: "('s, 'e) kube_client \<Rightarrow> ('s \<Rightarrow> cluster) \<Rightarrow> ('s \<Rightarrow> cluster) \<Rightarrow> bool" where
  "manager_client api server cache \<longleftrightarrow>
     reads_preserve api server \<and> reads_preserve api cache \<and>
     lists_current api cache \<and> gets_current api cache \<and> finds_pools api cache \<and>
     (\<forall>np s r s'. kc_UpdatePoolStatus api np s = (Inr r, s') \<longrightarrow> cache s' = cache s \<and>
        (\<exists>p\<in>set (cl_Pools (server s)). np_name p = np_name np \<and> np_version p = np_version np) \<and>
        list_all2 (pool_with_status np) (cl_Pools (server s)) (cl_Pools (server s'))) \<and>
     (\<forall>np s e s'. kc_UpdatePoolStatus api np s = (Inl e, s') \<longrightarrow> cache s' = cache s \<and> server s' = server s)"

section \<open>Pending or current\<close>

text \<open>The status of a pool counts, for each of its load balancers, what the cluster holds.\<close>

definition status_current :: "cluster \<Rightarrow> ApolloNetworkPool \<Rightarrow> bool" where
  "status_current c p \<longleftrightarrow>
     (\<forall>lb\<in>set (load_balancers p). \<exists>e. map_of (status_map (np_Status p)) (lb_ID lb) = Some e \<and>
        entry_current c (np_name p) lb e)"

text \<open>
  The worker is about to bring the status of a pool up to date: what it has read of the pool
  and its allocations, if anything, is what the cache holds now.
\<close>

definition lists_all :: "cluster \<Rightarrow> string \<Rightarrow> PortAllocation list \<Rightarrow> bool" where
  "lists_all c nm items \<longleftrightarrow> set items = set (pool_allocs c nm) \<and> distinct items"

fun covers :: "cluster \<Rightarrow> ApolloNetworkPool \<Rightarrow> 'e worker \<Rightarrow> bool" where
  "covers c p (Starting r) = (r = pool_key p)"
| "covers c p (Listing r pool) = (r = pool_key p \<and> np_name pool = np_name p)"
| "covers c p (Reading r pool items n) =
     (r = pool_key p \<and> np_name pool = np_name p \<and> lists_all c (np_name p) items)"
| "covers c p (Updating r pool items n latest) =
     (r = pool_key p \<and> np_name pool = np_name p \<and> lists_all c (np_name p) items \<and> latest = p)"
| "covers c p (Ended r out) = (r = pool_key p \<and> snd out \<noteq> None)"
| "covers c p Idle = False"

definition accounted :: "cluster \<Rightarrow> request set \<Rightarrow> 'e worker \<Rightarrow> bool" where
  "accounted c R w \<longleftrightarrow> (\<forall>p\<in>set (cl_Pools c). pool_key p \<in> R \<or> status_current c p \<or> covers c p w)"

lemma status_current_cong:
  assumes "set (pool_allocs c nm) = set (pool_allocs c' nm)" "keys_distinct c" "keys_distinct c'" "np_name p = nm"
  shows "status_current c p = status_current c' p"
proof -
  have "length (lb_bindings (pool_allocs c nm) lid) = length (lb_bindings (pool_allocs c' nm) lid)" for lid
    using sum_list_same_set [of "pool_allocs c nm" "pool_allocs c' nm"] assms(1-3) pool_allocs_distinct
    by (simp add: length_lb_bindings)
  then have "entry_current c nm = entry_current c' nm"
    by (intro ext) (simp add: entry_current_def assms(1))
  with assms show ?thesis by (simp add: status_current_def)
qed

lemma covers_cong: "set (pool_allocs c (np_name p)) = set (pool_allocs c' (np_name p)) \<Longrightarrow> covers c p w = covers c' p w"
  by (cases w) (auto simp: lists_all_def)

lemma cache_change_keeps:
  assumes "accounted c R w" "well_formed H c" "well_formed H' c'" "R \<union> pool_events c c' \<subseteq> R'"
  shows "accounted c' R' w"
  unfolding accounted_def
proof (intro ballI)
  fix p
  assume p: "p \<in> set (cl_Pools c')"
  show "pool_key p \<in> R' \<or> status_current c' p \<or> covers c' p w"
  proof (cases "p \<in> set (cl_Pools c) \<and> set (pool_allocs c (np_name p)) = set (pool_allocs c' (np_name p))")
    case True
    moreover from this have "status_current c p = status_current c' p"
      using assms(2,3) by (intro status_current_cong) (auto simp: well_formed_def)
    moreover have "covers c p w = covers c' p w" using True by (intro covers_cong) blast
    ultimately show ?thesis using assms(1,4) by (auto simp: accounted_def)
  next
    case False
    then consider (pool) "p \<in> changed (cl_Pools c) (cl_Pools c')"
      | (alloc) a where "a \<in> changed (cl_Allocs c) (cl_Allocs c')" "in_pool (np_name p) a"
      using p by (auto simp: changed_def set_eq_iff set_pool_allocs)
    then have "pool_key p \<in> pool_events c c'"
    proof cases
      case pool
      then show ?thesis by (rule events_pool)
    next
      case alloc
      moreover have "np_name p \<noteq> ''''" using p assms(3) by (simp add: well_formed_def)
      ultimately show ?thesis by (rule events_allocation)
    qed
    with assms(4) show ?thesis by blast
  qed
qed

lemma manager_client_parts:
  assumes "manager_client api server cache"
  shows "reads_preserve api server" "reads_preserve api cache" "lists_current api cache" "gets_current api cache"
    "finds_pools api cache"
  using assms by (simp_all add: manager_client_def)

lemma manager_reads:
  assumes "manager_client api server cache"
  shows "kc_GetPool api k s = (r, s') \<Longrightarrow> server s' = server s \<and> cache s' = cache s"
    and "kc_ListAllocations api sel lim s = (l, s') \<Longrightarrow> server s' = server s \<and> cache s' = cache s"
  using manager_client_parts(1,2) [OF assms] by (auto simp: reads_preserve_def)

lemma manager_gets:
  assumes "manager_client api server cache" "kc_GetPool api k s = (Inr p, s')"
  shows "p \<in> set (cl_Pools (cache s)) \<and> np_name p = nn_Name k"
  using manager_client_parts(4) [OF assms(1)] assms(2) by (auto simp: gets_current_def)

lemma manager_misses:
  assumes "manager_client api server cache" "kc_GetPool api k s = (Inl e, s')" "kc_IsNotFound api e"
  shows "nn_Name k \<notin> np_name ` set (cl_Pools (cache s))"
  using manager_client_parts(5) [OF assms(1)] assms(2,3) by (auto simp: finds_pools_def)

lemma manager_lists:
  assumes "manager_client api server cache" "well_formed H (cache s)"
    and "kc_ListAllocations api [(LabelPoolNameKey, nm)] None s = (Inr l, s')"
  shows "lists_all (cache s) nm (al_Items l)"
proof -
  have "distinct (cl_Allocs (cache s))" using assms(2) pool_allocs_distinct by (auto simp: well_formed_def)
  note listed = manager_client_parts(3) [OF assms(1), unfolded lists_current_def, rule_format, OF assms(3)]
  have "set (al_Items l) = {a \<in> set (cl_Allocs (cache s)). selected_by [(LabelPoolNameKey, nm)] a}"
    by (rule listed [THEN conjunct2, THEN conjunct2, THEN mp]) simp
  moreover have "distinct (al_Items l)"
    by (rule listed [THEN conjunct2, THEN conjunct1, THEN mp]) fact
  ultimately show ?thesis by (simp add: lists_all_def pool_allocs_def)
qed

text \<open>
  A successful update stores the new status, in a pool that is new for the cache unless it is
  the one the update was made from.
\<close>

lemma update_replaces:
  assumes "manager_client api server cache" "well_formed H (server s)" "well_formed H (server s')" "well_formed H (cache s)"
    and p: "p \<in> set (cl_Pools (cache s))"
    and up: "kc_UpdatePoolStatus api (p\<lparr>np_Status := st\<rparr>) s = (Inr x, s')"
  shows "p \<in> set (cl_Pools (server s)) \<and> (p \<notin> set (cl_Pools (server s')) \<or> np_Status p = stored_status st)"
proof -
  let ?np = "p\<lparr>np_Status := st\<rparr>"
  from assms(1) up obtain q where q: "q \<in> set (cl_Pools (server s))" "np_name q = np_name ?np" "np_version q = np_version ?np"
    and upd: "list_all2 (pool_with_status ?np) (cl_Pools (server s)) (cl_Pools (server s'))"
    unfolding manager_client_def by blast
  have "q = p" using well_formed_version [OF assms(4) p assms(2) q(1)] q(2,3) by simp
  with q have stored: "p \<in> set (cl_Pools (server s))" by simp
  from pool_after_update [OF upd stored] obtain p' where p': "p' \<in> set (cl_Pools (server s'))" "np_name p' = np_name p"
    "np_Status p' = stored_status st" by blast
  show ?thesis
  proof (cases "p' = p")
    case True
    with p'(3) stored show ?thesis by simp
  next
    case False
    then have "p \<notin> set (cl_Pools (server s'))" using well_formed_unique [OF assms(3) p'(1)] p'(2) by auto
    with stored show ?thesis by simp
  qed
qed

lemma update_stores:
  assumes "manager_client api server cache" "well_formed H (server s)" "well_formed H (server s')" "well_formed H (cache s)"
    and "p \<in> set (cl_Pools (cache s))"
    and "kc_UpdatePoolStatus api (p\<lparr>np_Status := st\<rparr>) s = (Inr x, s')"
  shows "pool_key p \<in> changed_pools (server s) (server s') \<or> np_Status p = stored_status st"
  using update_replaces [OF assms] by (auto simp: changed_def)

lemma update_announced:
  assumes "manager_client api server cache" "well_formed H (server s)" "well_formed H (server s')" "well_formed H (cache s)"
    and p: "p \<in> set (cl_Pools (cache s))" and items: "lists_all (cache s) (np_name p) items"
    and up: "kc_UpdatePoolStatus api (p\<lparr>np_Status :=
      \<lparr>nps_Allocations = Some (status_entries p items now), nps_IsSynced = True\<rparr>\<rparr>) s = (Inr x, s')"
  shows "pool_key p \<in> changed_pools (server s) (server s') \<or> status_current (cache s) p"
proof -
  have "distinct (pool_allocs (cache s) (np_name p))"
    using assms(4) pool_allocs_distinct by (auto simp: well_formed_def)
  from entry_current_calculated [OF _ _ this] items update_stores [OF assms(1-5) up] show ?thesis
    by (auto simp: status_current_def lists_all_def map_of_stored_status status_entries_listed)
qed

lemma covered_after_step:
  assumes "manager_client api server cache" "well_formed H (server s)" "well_formed H (server s')" "well_formed H (cache s)"
    and "reconcile_step api (w, s) = (w', s')" and p: "p \<in> set (cl_Pools (cache s))" "covers (cache s) p w"
  shows "covers (cache s) p w' \<or> pool_key p \<in> changed_pools (server s) (server s') \<or> status_current (cache s) p"
  using p(2)
proof (cases w)
  case (Starting r)
  with assms(5) p show ?thesis
    by (auto simp: pool_key_def dest: manager_gets [OF assms(1)] manager_misses [OF assms(1)]
        split: prod.splits sum.splits if_splits)
next
  case (Listing r pool)
  with assms(5) p show ?thesis
    using manager_lists [OF assms(1,4)] by (auto simp: Let_def split: prod.splits sum.splits)
next
  case (Reading r pool items n)
  with assms(5) p show ?thesis
    using manager_gets [OF assms(1)] well_formed_unique [OF assms(4) p(1)]
    by (auto simp: after_failed_attempt_def split: prod.splits sum.splits if_splits)
next
  case (Updating r pool items n latest)
  with p have "lists_all (cache s) (np_name p) items" "latest = p" by simp_all
  note announced = update_announced [OF assms(1-4) p(1) this(1)]
  show ?thesis
    using assms(5) p Updating announced
    by (auto simp: after_failed_attempt_def split: prod.splits sum.splits if_splits)
qed (use assms(5) p in simp_all)

lemma step_keeps_cache:
  assumes "manager_client api server cache" "reconcile_step api (w, s) = (w', s')"
  shows "cache s' = cache s"
proof (cases w)
  case (Updating r pool items n latest)
  obtain x s2 where up: "kc_UpdatePoolStatus api (latest\<lparr>np_Status :=
      \<lparr>nps_Allocations = Some (status_entries latest items (kc_Now api s)), nps_IsSynced = True\<rparr>\<rparr>) s = (x, s2)"
    by (metis surj_pair)
  then have "cache s2 = cache s" using assms(1) unfolding manager_client_def by (cases x) blast+
  moreover have "s' = s2" using assms(2) Updating up by (cases x) auto
  ultimately show ?thesis by simp
qed (use assms(2) manager_reads [OF assms(1)] in \<open>auto simp: Let_def split: prod.splits sum.splits\<close>)

lemma accounted_mono: "accounted c R w \<Longrightarrow> R \<subseteq> R' \<Longrightarrow> (\<And>p. covers c p w \<Longrightarrow> covers c p w' \<or> pool_key p \<in> R') \<Longrightarrow> accounted c R' w'"
  unfolding accounted_def by blast

definition loop_invariant :: "('s \<Rightarrow> cluster) \<Rightarrow> ('s \<Rightarrow> cluster) \<Rightarrow> pool_history \<Rightarrow> ('s, 'e) loop \<Rightarrow> bool" where
  "loop_invariant server cache H = (\<lambda>(s, Q, U, w).
     well_formed H (server s) \<and> well_formed H (cache s) \<and> accounted (cache s) (Q \<union> U) w)"

lemma loop_step_keeps:
  assumes "manager_client api server cache" "loop_step api server cache H x y" "loop_invariant server cache H x"
  shows "loop_invariant server cache H y"
  using assms(2,3)
proof induction
  case (server_changes s' s Q U w)
  then have "accounted (cache s) (Q \<union> U) w" by (simp add: loop_invariant_def)
  then have "accounted (cache s) (Q \<union> (U \<union> changed_pools (server s) (server s'))) w" by (rule accounted_mono) blast+
  with server_changes show ?case by (simp add: loop_invariant_def)
next
  case (cache_changes s' s Q U w K)
  then have "accounted (cache s) (Q \<union> U) w" "well_formed H (cache s)" by (simp_all add: loop_invariant_def)
  from this cache_changes(2)
  have "accounted (cache s') ((Q \<union> pool_events (cache s) (cache s') \<union> K) \<union> (U - K)) w"
    by (rule cache_change_keeps) blast
  with cache_changes show ?case by (simp add: loop_invariant_def)
next
  case (takes r Q s U)
  then have "accounted (cache s) (Q \<union> U) (Idle :: 'b worker)" by (simp add: loop_invariant_def)
  then have "accounted (cache s) (Q - {r} \<union> U) (Starting r)" unfolding accounted_def by auto
  with takes show ?case by (simp add: loop_invariant_def)
next
  case (moves w s w' s' Q U)
  then have inv: "well_formed H (server s)" "well_formed H (cache s)" "accounted (cache s) (Q \<union> U) w"
    by (simp_all add: loop_invariant_def)
  have cache: "cache s' = cache s" by (rule step_keeps_cache [OF assms(1) moves(1)])
  have "accounted (cache s) (Q \<union> (U \<union> changed_pools (server s) (server s'))) w'"
    using inv(3) covered_after_step [OF assms(1) inv(1) moves(2) inv(2) moves(1)]
    unfolding accounted_def by blast
  with inv moves(2) cache show ?case by (simp add: loop_invariant_def)
next
  case (succeeds s Q U r res)
  then have "accounted (cache s) (Q \<union> U) (Ended r (res, None :: 'b error option))" by (simp add: loop_invariant_def)
  then have "accounted (cache s) (Q \<union> U) (Idle :: 'b worker)" by (rule accounted_mono) simp_all
  with succeeds show ?case by (simp add: loop_invariant_def)
next
  case (fails s Q U r res e)
  then have "accounted (cache s) (Q \<union> U) (Ended r (res, Some e))" by (simp add: loop_invariant_def)
  then have "accounted (cache s) (insert r Q \<union> U) (Idle :: 'b worker)" by (rule accounted_mono) auto
  with fails show ?case by (simp add: loop_invariant_def)
next
  case (delay_ends s Q U w r)
  then have "accounted (cache s) (Q \<union> U) w" by (simp add: loop_invariant_def)
  then have "accounted (cache s) (insert r Q \<union> U) w" by (rule accounted_mono) blast+
  with delay_ends show ?case by (simp add: loop_invariant_def)
qed

section \<open>What a change announces\<close>

text \<open>
  Along a run of the loop the cache loses a pool (that content, under that version) in one
  certain step, and that step puts the request for the pool into the queue.
\<close>

abbreviation loop_pools :: "('s \<Rightarrow> cluster) \<Rightarrow> ('s, 'e) loop \<Rightarrow> ApolloNetworkPool set" where
  "loop_pools cache x \<equiv> set (cl_Pools (cache (fst x)))"

abbreviation loop_queue :: "('s, 'e) loop \<Rightarrow> request set" where
  "loop_queue x \<equiv> fst (snd x)"

lemma step_announces:
  assumes "manager_client api server cache" "loop_step api server cache H x y"
    and "p \<in> loop_pools cache x" "p \<notin> loop_pools cache y"
  shows "pool_key p \<in> loop_queue y"
  using assms(2-4)
proof cases
  case (cache_changes s' s Q U K w)
  then have "pool_key p \<in> pool_events (cache s) (cache s')"
    using assms(3,4) by (intro events_pool) (simp add: changed_def)
  with cache_changes show ?thesis by simp
next
  case (moves w s w' s' Q U)
  with step_keeps_cache [OF assms(1)] assms(3,4) show ?thesis by simp
qed simp_all

lemma run_announces:
  assumes "manager_client api server cache" "(loop_step api server cache H)\<^sup>*\<^sup>* x y"
    and "p \<in> loop_pools cache x" "p \<notin> loop_pools cache y"
  shows "\<exists>z z'. (loop_step api server cache H)\<^sup>*\<^sup>* x z \<and> loop_step api server cache H z z' \<and>
    (loop_step api server cache H)\<^sup>*\<^sup>* z' y \<and>
    p \<in> loop_pools cache z \<and> p \<notin> loop_pools cache z' \<and> pool_key p \<in> loop_queue z'"
  using assms(2-4)
proof (induction rule: converse_rtranclp_induct)
  case base
  then show ?case by simp
next
  case (step x x')
  show ?case
  proof (cases "p \<in> loop_pools cache x'")
    case True
    with step.IH step.prems(2) obtain z z' where "(loop_step api server cache H)\<^sup>*\<^sup>* x' z" and
      rest: "loop_step api server cache H z z'" "(loop_step api server cache H)\<^sup>*\<^sup>* z' y" "p \<in> loop_pools cache z"
        "p \<notin> loop_pools cache z'" "pool_key p \<in> loop_queue z'" by blast
    with step.hyps(1) have "(loop_step api server cache H)\<^sup>*\<^sup>* x z" by (blast intro: converse_rtranclp_into_rtranclp)
    with rest show ?thesis by blast
  next
    case False
    with step_announces [OF assms(1) step.hyps(1) step.prems(1)] step.hyps step.prems(1) show ?thesis
      by (intro exI [of _ x] exI [of _ x'] conjI) simp_all
  qed
qed

section \<open>Properties\<close>

text \<open>The request a worker has in hand, unless it is done with it.\<close>

fun request_of :: "'e worker \<Rightarrow> request option" where
  "request_of Idle = None"
| "request_of (Starting r) = Some r"
| "request_of (Listing r pool) = Some r"
| "request_of (Reading r pool items n) = Some r"
| "request_of (Updating r pool items n latest) = Some r"
| "request_of (Ended r out) = (if snd out = None then None else Some r)"

lemma covers_request: "covers c p w \<Longrightarrow> request_of w = Some (pool_key p)"
  by (cases w) auto

text \<open>
  C6. The pool controller does not lose changes, although it reads from a cache and anything
  can happen between its steps. Whatever happens to the cluster (allocations made and released
  by anybody, pools made and edited), however far the cache is behind, and however reconciles
  succeed and fail in between, at any time every pool of the cache has a request in the queue
  or in the hands of the worker, or a change that the cache has still to announce, or else a
  status that is current: for every load balancer of its spec the allocations and the count of
  ports that the cache holds for it. So when nothing is queued, in work or unannounced and the
  cache has caught up, the status of every pool is current.
\<close>

theorem status_pending_or_current:
  assumes "manager_client api server cache" and "loop_reachable api server cache H (s, Q, U, w)"
  shows "(\<forall>p\<in>set (cl_Pools (cache s)).
      pool_key p \<in> Q \<union> U \<or> request_of w = Some (pool_key p) \<or> status_current (cache s) p) \<and>
    (Q = {} \<and> U = {} \<and> w = Idle \<and> cache s = server s \<longrightarrow>
      (\<forall>p\<in>set (cl_Pools (server s)). status_current (server s) p))"
proof -
  have "loop_invariant server cache H (s, Q, U, w)"
    using assms(2)
  proof induction
    case (start s)
    then show ?case by (simp add: loop_invariant_def accounted_def)
  next
    case (step x y)
    then show ?case using loop_step_keeps [OF assms(1)] by blast
  qed
  then have "pool_key p \<in> Q \<union> U \<or> status_current (cache s) p \<or> covers (cache s) p w" if "p \<in> set (cl_Pools (cache s))" for p
    using that by (simp add: loop_invariant_def accounted_def)
  then show ?thesis using covers_request [of "cache s" _ w] by fastforce
qed

text \<open>
  C27. A reconcile requests the next one. Every entry that a reconcile writes has the time of the
  write, so as soon as the clock shows another second than the stored status of a pool with a
  load balancer, a successful update replaces the stored pool although nothing else has changed.
  And however the controller, the cache and everybody else go on from there: by the time the cache no
  longer shows the pool as it was before the update, there has been a step of the cache after which
  the pool is in the queue again, because the controller is registered for the pools themselves.
  What paces the reconciles of a quiet pool is not the requeue after ten minutes.
\<close>

theorem reconcile_requests_itself:
  assumes "manager_client api server cache"
    and "well_formed H (server s)" and "well_formed H (server s')" and "well_formed H (cache s)"
    and "p \<in> set (cl_Pools (cache s))" and "lb \<in> set (load_balancers p)"
    and "\<And>e. map_of (status_map (np_Status p)) (lb_ID lb) = Some e \<Longrightarrow> las_LastUpdated e \<noteq> Some (kc_Now api s)"
    and "reconcile_step api (Updating req pool items n p, s) = (Ended req (res, None), s')"
  shows "p \<notin> set (cl_Pools (server s')) \<and> pool_key p \<in> changed_pools (server s) (server s') \<and>
    (\<forall>Q U y. (loop_step api server cache H)\<^sup>*\<^sup>* (s', Q, U, Ended req (res, None)) y \<and> p \<notin> loop_pools cache y \<longrightarrow>
      (\<exists>z z'. (loop_step api server cache H)\<^sup>*\<^sup>* (s', Q, U, Ended req (res, None)) z \<and>
        loop_step api server cache H z z' \<and> (loop_step api server cache H)\<^sup>*\<^sup>* z' y \<and>
        p \<in> loop_pools cache z \<and> p \<notin> loop_pools cache z' \<and> pool_key p \<in> loop_queue z'))"
proof -
  let ?st = "\<lparr>nps_Allocations = Some (status_entries p items (kc_Now api s)), nps_IsSynced = True\<rparr>"
  from assms(8) obtain x where "kc_UpdatePoolStatus api (p\<lparr>np_Status := ?st\<rparr>) s = (Inr x, s')"
    by (auto simp: after_failed_attempt_def split: prod.splits sum.splits if_splits)
  from update_replaces [OF assms(1-5) this] have replaced: "p \<in> set (cl_Pools (server s))" "p \<notin> set (cl_Pools (server s'))"
    using assms(7) status_entries_listed [OF assms(6)] by (auto simp: map_of_stored_status)
  have "p \<in> loop_pools cache (s', Q, U, Ended req (res, None))" for Q U
    using step_keeps_cache [OF assms(1,8)] assms(5) by simp
  with run_announces [OF assms(1)] replaced show ?thesis unfolding changed_def by blast
qed

text \<open>
  The in-memory client with versions: an update is refused when the version is not the stored
  one, changes nothing when the status is the stored one, and else gives the pool a new version.
\<close>

definition restamped :: "ApolloNetworkPool \<Rightarrow> ApolloNetworkPool" where
  "restamped p = p\<lparr>np_ObjectMeta := (np_ObjectMeta p)\<lparr>om_ResourceVersion := np_version p @ ''+''\<rparr>\<rparr>"

definition versioned_update :: "ApolloNetworkPool \<Rightarrow> cluster \<Rightarrow> (mem_error + ApolloNetworkPool) \<times> cluster" where
  "versioned_update np c =
     (if \<exists>p\<in>set (cl_Pools c). np_name p = np_name np \<and> np_version p = np_version np
      then (Inr np, c\<lparr>cl_Pools := map (\<lambda>p.
          if np_name p = np_name np \<and> np_Status p \<noteq> stored_status (np_Status np)
          then restamped (p\<lparr>np_Status := stored_status (np_Status np)\<rparr>) else p) (cl_Pools c)\<rparr>)
      else (Inl MemConflict, c))"

definition versioned_api :: "(cluster \<times> cluster, mem_error) kube_client" where
  "versioned_api = split_client (mem_api\<lparr>kc_UpdatePoolStatus := versioned_update\<rparr>)"

lemma versioned_api_simps [simp]:
  "kc_GetPool versioned_api k (server, cache) = (fst (mem_get_pool k cache), server, cache)"
  "kc_ListAllocations versioned_api sel lim (server, cache) = (fst (mem_list sel lim cache), server, cache)"
  "kc_UpdatePoolStatus versioned_api np (server, cache) =
    (fst (versioned_update np server), snd (versioned_update np server), cache)"
  "kc_Now versioned_api (server, cache) = 0"
  by (simp_all add: versioned_api_def split_client_def on_cache_def on_server_def split_beta mem_get_pool_def mem_list_def
      Let_def mem_api_def split: list.split)

lemma versioned_manager: "manager_client versioned_api fst snd"
proof -
  have reads: "reads_preserve versioned_api fst" "reads_preserve versioned_api snd"
    by (auto simp: reads_preserve_def versioned_api_def split_client_def mem_api_def dest!: on_cache_fst)
      (auto simp: mem_get_pool_def mem_get_alloc_def mem_get_pod_def mem_list_def Let_def split: list.splits)
  have fields: "kc_ListAllocations (mem_api\<lparr>kc_UpdatePoolStatus := versioned_update\<rparr>) = kc_ListAllocations mem_api"
    "kc_GetPool (mem_api\<lparr>kc_UpdatePoolStatus := versioned_update\<rparr>) = kc_GetPool mem_api"
    "kc_GetAllocation (mem_api\<lparr>kc_UpdatePoolStatus := versioned_update\<rparr>) = kc_GetAllocation mem_api"
    "kc_IsNotFound (mem_api\<lparr>kc_UpdatePoolStatus := versioned_update\<rparr>) = kc_IsNotFound mem_api" by simp_all
  have same: "lists_current (mem_api\<lparr>kc_UpdatePoolStatus := versioned_update\<rparr>) (\<lambda>c. c)"
    "gets_current (mem_api\<lparr>kc_UpdatePoolStatus := versioned_update\<rparr>) (\<lambda>c. c)"
    using mem_lists mem_gets unfolding lists_current_def gets_current_def fields .
  have "lists_current versioned_api snd" "gets_current versioned_api snd"
    using split_lists_current [OF same(1)] split_gets_current [OF same(2)] by (simp_all only: versioned_api_def)
  moreover have "finds_pools versioned_api snd"
    by (auto simp: finds_pools_def versioned_api_def mem_get_pool_def filter_empty_conv dest!: on_cache_fst split: list.splits)
  moreover have "\<forall>np s r s'. kc_UpdatePoolStatus versioned_api np s = (Inr r, s') \<longrightarrow> snd s' = snd s \<and>
        (\<exists>p\<in>set (cl_Pools (fst s)). np_name p = np_name np \<and> np_version p = np_version np) \<and>
        list_all2 (pool_with_status np) (cl_Pools (fst s)) (cl_Pools (fst s'))"
    by (auto simp: versioned_update_def restamped_def pool_with_status_def list_all2_conv_all_nth split: if_splits)
  moreover have "\<forall>np s e s'. kc_UpdatePoolStatus versioned_api np s = (Inl e, s') \<longrightarrow> snd s' = snd s \<and> fst s' = fst s"
    by (auto simp: versioned_update_def split: if_splits)
  ultimately show ?thesis using reads by (simp add: manager_client_def)
qed

text \<open>
  The pool of \<open>demo_one\<close>, and what the server stores of it after a status update at the time 0.
  The first run of the worker makes the update; once the cache has it, the second changes
  nothing, and all is quiet.
\<close>

definition demo_reported :: ApolloNetworkPool where
  "demo_reported = restamped ((demo_pool ''p'')\<lparr>np_Status := stored_status
     \<lparr>nps_Allocations = Some (status_entries (demo_pool ''p'') (cl_Allocs demo_one) 0), nps_IsSynced = True\<rparr>\<rparr>)"

definition demo_history :: pool_history where
  "demo_history nm version = (if version = '''' then demo_pool ''p'' else demo_reported)"

abbreviation demo_after :: cluster where
  "demo_after \<equiv> demo_one\<lparr>cl_Pools := [demo_reported]\<rparr>"

abbreviation demo_key :: request where
  "demo_key \<equiv> \<lparr>nn_Namespace = '''', nn_Name = ''p''\<rparr>"

lemma demo_in_pool: "in_pool ''p'' (sample_alloc ''p'' pod ns held)"
  by (simp add: in_pool_def sample_alloc_def)

lemma demo_pool_simps:
  "np_name (demo_pool ''p'') = ''p''" "load_balancers (demo_pool ''p'') = [sample_lb ''lb-1'']"
  "nps_Allocations (np_Status (demo_pool ''p'')) = None" "np_version (demo_pool ''p'') = ''''"
  by (simp_all add: demo_pool_def sample_pool_def zero_object_meta_def)

lemma demo_reported_simps:
  "np_name demo_reported = ''p''" "np_version demo_reported = ''+''" "np_Spec demo_reported = np_Spec (demo_pool ''p'')"
  "np_Status demo_reported = stored_status
     \<lparr>nps_Allocations = Some (status_entries (demo_pool ''p'') (cl_Allocs demo_one) 0), nps_IsSynced = True\<rparr>"
  by (simp_all add: demo_reported_def restamped_def demo_pool_simps)

lemma demo_one_simps:
  "cl_Pools demo_one = [demo_pool ''p'']" "cl_Allocs demo_one = [sample_alloc ''p'' ''a'' ''ns'' [(''lb-1'', 30000)]]"
  by (simp_all add: demo_one_def demo_cluster_def)

lemma demo_well_formed: "well_formed demo_history demo_one" "well_formed demo_history demo_after"
  using demo_ledger_ok(2)
  by (simp_all add: well_formed_def demo_one_simps demo_pool_simps demo_reported_simps demo_history_def keys_distinct_def)

text \<open>Reporting the same allocations once more, at the same time, stores what is stored.\<close>

lemma calculateLBStatus_spec: "np_Spec p = np_Spec q \<Longrightarrow> calculateLBStatus p lb as = calculateLBStatus q lb as"
  by (simp add: calculateLBStatus_def)

lemma demo_reported_again:
  "stored_status \<lparr>nps_Allocations = Some (status_entries demo_reported (cl_Allocs demo_one) 0), nps_IsSynced = True\<rparr> =
     np_Status demo_reported"
  by (simp add: demo_reported_simps status_entries_def stored_status_def demo_pool_simps
      calculateLBStatus_spec [OF demo_reported_simps(3)])

lemma demo_run:
  assumes "p \<in> {demo_pool ''p'', demo_reported}" and "c = demo_one\<lparr>cl_Pools := [p]\<rparr>"
  shows "reconcile_step versioned_api (Starting demo_key, c, c) = (Listing demo_key p, c, c)"
    "reconcile_step versioned_api (Listing demo_key p, c, c) = (Reading demo_key p (cl_Allocs demo_one) 4, c, c)"
    "reconcile_step versioned_api (Reading demo_key p (cl_Allocs demo_one) 4, c, c) =
      (Updating demo_key p (cl_Allocs demo_one) 4 p, c, c)"
    "reconcile_step versioned_api (Updating demo_key p (cl_Allocs demo_one) 4 p, c, c) =
      (Ended demo_key (\<lparr>cr_RequeueAfter = 10 * Minute\<rparr>, None), demo_after, c)"
proof -
  have name: "np_name p = ''p''" using assms(1) by (auto simp: demo_pool_simps demo_reported_simps)
  show "reconcile_step versioned_api (Starting demo_key, c, c) = (Listing demo_key p, c, c)"
    "reconcile_step versioned_api (Reading demo_key p (cl_Allocs demo_one) 4, c, c) =
      (Updating demo_key p (cl_Allocs demo_one) 4 p, c, c)"
    "reconcile_step versioned_api (Listing demo_key p, c, c) = (Reading demo_key p (cl_Allocs demo_one) 4, c, c)"
    using assms(2) by (simp_all add: mem_get_pool_def mem_list_def name demo_one_simps demo_in_pool Let_def)
  show "reconcile_step versioned_api (Updating demo_key p (cl_Allocs demo_one) 4 p, c, c) =
      (Ended demo_key (\<lparr>cr_RequeueAfter = 10 * Minute\<rparr>, None), demo_after, c)"
  proof (cases "p = demo_reported")
    case True
    then show ?thesis using assms(2) by (simp add: versioned_update_def demo_reported_again)
  next
    case False
    then have p: "p = demo_pool ''p''" using assms(1) by simp
    have "np_Status (demo_pool ''p'') \<noteq> np_Status demo_reported"
      by (simp add: demo_reported_simps demo_pool_def sample_pool_def stored_status_def)
    then show ?thesis
      using assms(2) p by (simp add: versioned_update_def demo_reported_def [symmetric] demo_reported_simps)
  qed
qed

lemma changed_same [simp]: "changed xs xs = {}"
  by (simp add: changed_def)

lemma demo_keys: "pool_key (demo_pool ''p'') = demo_key" "pool_key demo_reported = demo_key"
  by (simp_all add: pool_key_def demo_pool_simps demo_reported_simps)

lemma demo_round:
  assumes "p \<in> {demo_pool ''p'', demo_reported}" and "c = demo_one\<lparr>cl_Pools := [p]\<rparr>"
    and "loop_reachable versioned_api fst snd demo_history ((c, c), {demo_key}, {}, Idle)"
  shows "loop_reachable versioned_api fst snd demo_history ((demo_after, c), {}, changed_pools c demo_after, Idle)"
proof -
  have "demo_one\<lparr>cl_Pools := [demo_pool ''p'']\<rparr> = demo_one" by (simp add: demo_one_def demo_cluster_def)
  then have wf: "well_formed demo_history c" using assms(1,2) demo_well_formed by auto
  note run = demo_run [OF assms(1,2)]
  let ?reach = "loop_reachable versioned_api fst snd demo_history"
  have moves: "?reach ((c, c), Q, U, w) \<Longrightarrow> reconcile_step versioned_api (w, c, c) = (w', d, c) \<Longrightarrow>
      well_formed demo_history d \<Longrightarrow> ?reach ((d, c), Q, U \<union> changed_pools c d, w')" for d w w' Q U
    by (erule loop_reachable.step, drule loop_step.moves [where server = fst]) simp_all
  from assms(3) have "?reach ((c, c), {}, {}, Starting demo_key)"
    by (rule loop_reachable.step) (use loop_step.takes [of demo_key "{demo_key}"] in simp)
  from moves [OF moves [OF moves [OF moves [OF this run(1) wf] run(2) wf] run(3) wf] run(4) demo_well_formed(2)]
  have "?reach ((demo_after, c), {}, changed_pools c demo_after, Ended demo_key (\<lparr>cr_RequeueAfter = 10 * Minute\<rparr>, None))"
    by simp
  then show ?thesis by (rule loop_reachable.step) (rule loop_step.succeeds)
qed

text \<open>The cache catches up with the update, and announces it.\<close>

lemma demo_changes: "changed_pools demo_one demo_after = {demo_key}" "pool_events demo_one demo_after = {demo_key}"
  "demo_pool ''p'' \<noteq> demo_reported"
proof -
  show differ: "demo_pool ''p'' \<noteq> demo_reported" using demo_pool_simps(4) demo_reported_simps(2) by force
  then show "changed_pools demo_one demo_after = {demo_key}" "pool_events demo_one demo_after = {demo_key}"
    by (auto simp: pool_events_def own_events_def ApolloNetworkPoolReconciler_SetupWithManager_def changed_def
        demo_one_simps demo_keys)
qed

lemma demo_announced:
  "loop_step versioned_api fst snd demo_history ((demo_after, demo_one), {}, {demo_key}, w) ((demo_after, demo_after), {demo_key}, {}, w)"
  using loop_step.cache_changes [where server = fst and cache = snd and s = "(demo_after, demo_one)" and s' = "(demo_after, demo_after)"
      and Q = "{}" and U = "{demo_key}" and K = "{demo_key}" and w = w and H = demo_history and api = versioned_api]
  by (simp add: demo_well_formed(2) demo_changes(2))

theorem status_pending_or_current_witness:
  "loop_reachable versioned_api fst snd demo_history ((demo_after, demo_after), {}, {}, Idle) \<and>
   status_current demo_after demo_reported"
proof -
  let ?reach = "loop_reachable versioned_api fst snd demo_history"
  have one: "demo_one = demo_one\<lparr>cl_Pools := [demo_pool ''p'']\<rparr>" by (simp add: demo_one_def demo_cluster_def)
  have "?reach ((demo_one, demo_one), {demo_key}, {}, Idle)"
    using loop_reachable.start [of demo_history fst "(demo_one, demo_one)" snd] demo_well_formed(1)
    by (simp add: demo_one_simps demo_keys)
  from demo_round [OF _ one this] have first: "?reach ((demo_after, demo_one), {}, changed_pools demo_one demo_after, Idle)"
    by simp
  with demo_announced have "?reach ((demo_after, demo_after), {demo_key}, {}, Idle)"
    unfolding demo_changes(1) by (blast intro: loop_reachable.step)
  from demo_round [OF _ refl this] have quiet: "?reach ((demo_after, demo_after), {}, {}, Idle)" by simp
  with status_pending_or_current [OF versioned_manager quiet] show ?thesis by simp
qed

theorem reconcile_requests_itself_witness:
  "reconcile_step versioned_api (Updating demo_key (demo_pool ''p'') (cl_Allocs demo_one) 4 (demo_pool ''p''), demo_one, demo_one) =
     (Ended demo_key (\<lparr>cr_RequeueAfter = 10 * Minute\<rparr>, None), demo_after, demo_one) \<and>
   demo_key \<in> changed_pools demo_one demo_after \<and>
   (\<exists>z. (loop_step versioned_api fst snd demo_history)\<^sup>*\<^sup>*
      ((demo_after, demo_one), {}, {demo_key}, Ended demo_key (\<lparr>cr_RequeueAfter = 10 * Minute\<rparr>, None)) z \<and> demo_key \<in> loop_queue z)"
proof -
  let ?out = "Ended demo_key (\<lparr>cr_RequeueAfter = 10 * Minute\<rparr>, None :: mem_error error option)"
  have one: "demo_one = demo_one\<lparr>cl_Pools := [demo_pool ''p'']\<rparr>" by (simp add: demo_one_def demo_cluster_def)
  from demo_run(4) [OF _ one] have run: "reconcile_step versioned_api
      (Updating demo_key (demo_pool ''p'') (cl_Allocs demo_one) 4 (demo_pool ''p''), demo_one, demo_one) =
      (?out, demo_after, demo_one)" by simp
  have wf: "well_formed demo_history (fst (demo_one, demo_one))" "well_formed demo_history (fst (demo_after, demo_one))"
    "well_formed demo_history (snd (demo_one, demo_one))" by (simp_all add: demo_well_formed)
  have at: "demo_pool ''p'' \<in> set (cl_Pools (snd (demo_one, demo_one)))" "sample_lb ''lb-1'' \<in> set (load_balancers (demo_pool ''p''))"
    by (simp_all add: demo_one_simps demo_pool_simps)
  have again: "pool_key (demo_pool ''p'') \<in> changed_pools demo_one demo_after \<and>
      (\<forall>Q U y. (loop_step versioned_api fst snd demo_history)\<^sup>*\<^sup>* ((demo_after, demo_one), Q, U, ?out) y \<and>
        demo_pool ''p'' \<notin> loop_pools snd y \<longrightarrow>
        (\<exists>z z'. (loop_step versioned_api fst snd demo_history)\<^sup>*\<^sup>* ((demo_after, demo_one), Q, U, ?out) z \<and>
          loop_step versioned_api fst snd demo_history z z' \<and> (loop_step versioned_api fst snd demo_history)\<^sup>*\<^sup>* z' y \<and>
          demo_pool ''p'' \<in> loop_pools snd z \<and> demo_pool ''p'' \<notin> loop_pools snd z' \<and>
          pool_key (demo_pool ''p'') \<in> loop_queue z'))"
    using reconcile_requests_itself [OF versioned_manager wf at _ run]
    by (simp add: demo_pool_simps status_map_def)
  from demo_announced have "(loop_step versioned_api fst snd demo_history)\<^sup>*\<^sup>*
      ((demo_after, demo_one), {}, {demo_key}, ?out) ((demo_after, demo_after), {demo_key}, {}, ?out)" by blast
  moreover have "demo_pool ''p'' \<notin> loop_pools snd ((demo_after, demo_after), {demo_key}, {}, ?out)"
    using demo_changes(3) by simp
  ultimately obtain z z' where "(loop_step versioned_api fst snd demo_history)\<^sup>*\<^sup>* ((demo_after, demo_one), {}, {demo_key}, ?out) z"
    "loop_step versioned_api fst snd demo_history z z'" "demo_key \<in> loop_queue z'"
    using again [THEN conjunct2, THEN spec, THEN spec, THEN spec, THEN mp, OF conjI] unfolding demo_keys(1) by metis
  then have "\<exists>z. (loop_step versioned_api fst snd demo_history)\<^sup>*\<^sup>*
      ((demo_after, demo_one), {}, {demo_key}, ?out) z \<and> demo_key \<in> loop_queue z"
    by (blast intro: rtranclp.rtrancl_into_rtrancl)
  with again [THEN conjunct1] run show ?thesis unfolding demo_keys(1) by blast
qed

end
