(* ===== verification/Memory.thy ===== *)
theory Memory
  imports Prelude "HOL-Library.Monad_Syntax"
begin

text \<open>
  Memory with sharing: slices, maps and pointers are references to cells. A value of a
  struct is copied by assignment, what it refers to is not. This theory holds the memory,
  the loops over slices and maps that the generated deep copies are made of, and the law
  of a deep copy with its closure under all of them.
\<close>

named_theorems copy_intros

section \<open>Cells and references\<close>

text \<open>
  A cell is an array or a map; a variable is an array of one element. \<open>'n\<close> is what cells
  hold. An element that \<open>make\<close> or \<open>new\<close> left as it is (the zero value) is \<open>None\<close>.
\<close>

datatype 'n cell = Array "'n option list" | Map "(string \<times> 'n) list"

type_synonym 'n heap = "'n cell list"

record gslice =
  gs_array :: nat
  gs_off :: nat
  gs_len :: nat

text \<open>
  The contents of a value, with everything it refers to: what two values have in common
  when nothing but the addresses differs. \<open>'v\<close> is for the contents of library types.
\<close>

datatype 'v tree =
    VString string
  | VInt32 int32
  | VInt64 int64
  | VBool bool
  | VNil
  | VPtr "'v tree"
  | VSlice "'v tree list"
  | VMap "(string \<times> 'v tree) list"
  | VStruct "'v tree list"
  | VForeign 'v

text \<open>A reader gives the contents of a value and the addresses it reaches, if the memory is in order.\<close>

type_synonym ('n, 'a, 'v) reader = "'n heap \<Rightarrow> 'a \<Rightarrow> ('v tree \<times> nat set) option"

type_synonym ('n, 'a) copier = "'a \<Rightarrow> 'n heap \<Rightarrow> 'a \<times> 'n heap"

section \<open>Reading\<close>

definition deref :: "('n \<Rightarrow> 'a option) \<Rightarrow> 'n heap \<Rightarrow> nat \<Rightarrow> 'a option" where
  "deref proj h a =
     (if a < length h then (case h ! a of Array [Some n] \<Rightarrow> proj n | _ \<Rightarrow> None) else None)"

definition items :: "('n \<Rightarrow> 'a option) \<Rightarrow> 'n heap \<Rightarrow> gslice \<Rightarrow> 'a list option" where
  "items proj h sl =
     (if gs_array sl < length h then
        (case h ! gs_array sl of
           Array ns \<Rightarrow>
             if gs_off sl + gs_len sl \<le> length ns
             then those (map (\<lambda>n. Option.bind n proj) (take (gs_len sl) (drop (gs_off sl) ns))) else None
         | Map _ \<Rightarrow> None)
      else None)"

definition entries :: "('n \<Rightarrow> 'a option) \<Rightarrow> 'n heap \<Rightarrow> nat \<Rightarrow> (string \<times> 'a) list option" where
  "entries proj h a =
     (if a < length h then
        (case h ! a of
           Map kvs \<Rightarrow>
             if gm_wf kvs then map_option (zip (map fst kvs)) (those (map (proj \<circ> snd) kvs)) else None
         | Array _ \<Rightarrow> None)
      else None)"

definition see_ptr :: "('n, 'a, 'v) reader \<Rightarrow> ('n \<Rightarrow> 'a option) \<Rightarrow> ('n, nat option, 'v) reader" where
  "see_ptr see proj h r =
     (case r of
        None \<Rightarrow> Some (VNil, {})
      | Some a \<Rightarrow> do { x \<leftarrow> deref proj h a; (v, A) \<leftarrow> see h x; Some (VPtr v, insert a A) })"

definition see_slice :: "('n, 'a, 'v) reader \<Rightarrow> ('n \<Rightarrow> 'a option) \<Rightarrow> ('n, gslice option, 'v) reader" where
  "see_slice see proj h r =
     (case r of
        None \<Rightarrow> Some (VNil, {})
      | Some sl \<Rightarrow> do {
          xs \<leftarrow> items proj h sl;
          vs \<leftarrow> those (map (see h) xs);
          Some (VSlice (map fst vs), insert (gs_array sl) (\<Union> (set (map snd vs)))) })"

definition see_map :: "('n, 'a, 'v) reader \<Rightarrow> ('n \<Rightarrow> 'a option) \<Rightarrow> ('n, nat option, 'v) reader" where
  "see_map see proj h r =
     (case r of
        None \<Rightarrow> Some (VNil, {})
      | Some a \<Rightarrow> do {
          kxs \<leftarrow> entries proj h a;
          vs \<leftarrow> those (map (see h \<circ> snd) kxs);
          Some (VMap (zip (map fst kxs) (map fst vs)), insert a (\<Union> (set (map snd vs)))) })"

definition see_flat :: "('a \<Rightarrow> 'v tree) \<Rightarrow> ('n, 'a, 'v) reader" where
  "see_flat flat h x = Some (flat x, {})"

definition see_pair :: "('n, 'a, 'v) reader \<Rightarrow> ('n, 'b, 'v) reader \<Rightarrow> ('n, 'a \<times> 'b, 'v) reader" where
  "see_pair see1 see2 h p =
     do { (v, A) \<leftarrow> see1 h (fst p); (w, B) \<leftarrow> see2 h (snd p); Some (VStruct [v, w], A \<union> B) }"

text \<open>A struct: its plain fields, and the fields with references.\<close>

definition see_struct :: "('a \<Rightarrow> 'v tree) \<Rightarrow> ('a \<Rightarrow> 'b) \<Rightarrow> ('n, 'b, 'v) reader \<Rightarrow> ('n, 'a, 'v) reader" where
  "see_struct flat refs see h x = do { (v, A) \<leftarrow> see h (refs x); Some (VStruct [flat x, v], A) }"

section \<open>Copying\<close>

text \<open>\<open>*out = *in\<close> for a struct without references.\<close>

definition copy_flat :: "('n, 'a) copier" where
  "copy_flat x h = (x, h)"

text \<open>\<open>out := new(T)\<close>, then \<open>DeepCopyInto(out)\<close>; the address of \<open>out\<close> is the result.\<close>

definition new_copy :: "('n, 'a) copier \<Rightarrow> ('a \<Rightarrow> 'n) \<Rightarrow> 'a \<Rightarrow> 'n heap \<Rightarrow> nat \<times> 'n heap" where
  "new_copy copy put x h =
     (let out = length h; (y, h') = copy x (h @ [Array [None]]) in (out, h'[out := Array [Some (put y)]]))"

text \<open>The method DeepCopy: nil for nil.\<close>

definition copy_ptr :: "('n, 'a) copier \<Rightarrow> ('a \<Rightarrow> 'n) \<Rightarrow> ('n \<Rightarrow> 'a option) \<Rightarrow> ('n, nat option) copier" where
  "copy_ptr copy put proj r h =
     (case Option.bind r (deref proj h) of
        None \<Rightarrow> (None, h)
      | Some x \<Rightarrow> let (out, h') = new_copy copy put x h in (Some out, h'))"

text \<open>\<open>*val.DeepCopy()\<close>: by way of a new variable.\<close>

definition copy_through_new :: "('n, 'a) copier \<Rightarrow> ('a \<Rightarrow> 'n) \<Rightarrow> ('n \<Rightarrow> 'a option) \<Rightarrow> ('n, 'a) copier" where
  "copy_through_new copy put proj x h =
     (let (out, h') = new_copy copy put x h in (the (deref proj h' out), h'))"

text \<open>\<open>(*in)[i].DeepCopyInto(&(*out)[i])\<close> for the elements from the \<open>i\<close>-th on.\<close>

definition set_item :: "nat \<Rightarrow> nat \<Rightarrow> 'n \<Rightarrow> 'n heap \<Rightarrow> 'n heap" where
  "set_item out i n h = (case h ! out of Array ns \<Rightarrow> h[out := Array (ns[i := Some n])] | Map _ \<Rightarrow> h)"

fun copy_items :: "('n, 'a) copier \<Rightarrow> ('a \<Rightarrow> 'n) \<Rightarrow> nat \<Rightarrow> nat \<Rightarrow> 'a list \<Rightarrow> 'n heap \<Rightarrow> 'n heap" where
  "copy_items copy put out i [] h = h"
| "copy_items copy put out i (x # xs) h =
     (let (y, h') = copy x h in copy_items copy put out (Suc i) xs (set_item out i (put y) h'))"

text \<open>\<open>*out = make([]T, len(*in))\<close> and the loop.\<close>

definition copy_slice :: "('n, 'a) copier \<Rightarrow> ('a \<Rightarrow> 'n) \<Rightarrow> ('n \<Rightarrow> 'a option) \<Rightarrow> ('n, gslice option) copier" where
  "copy_slice copy put proj r h =
     (case Option.bind r (items proj h) of
        None \<Rightarrow> (None, h)
      | Some xs \<Rightarrow>
          (Some \<lparr>gs_array = length h, gs_off = 0, gs_len = length xs\<rparr>,
           copy_items copy put (length h) 0 xs (h @ [Array (replicate (length xs) None)])))"

text \<open>\<open>(*out)[key] = \<dots>\<close> for the entries of a map.\<close>

definition set_entry :: "nat \<Rightarrow> string \<Rightarrow> 'n \<Rightarrow> 'n heap \<Rightarrow> 'n heap" where
  "set_entry out k n h = (case h ! out of Map kvs \<Rightarrow> h[out := Map (gm_put k n kvs)] | Array _ \<Rightarrow> h)"

fun copy_entries :: "('n, 'a) copier \<Rightarrow> ('a \<Rightarrow> 'n) \<Rightarrow> nat \<Rightarrow> (string \<times> 'a) list \<Rightarrow> 'n heap \<Rightarrow> 'n heap" where
  "copy_entries copy put out [] h = h"
| "copy_entries copy put out ((k, x) # kxs) h =
     (let (y, h') = copy x h in copy_entries copy put out kxs (set_entry out k (put y) h'))"

definition copy_map :: "('n, 'a) copier \<Rightarrow> ('a \<Rightarrow> 'n) \<Rightarrow> ('n \<Rightarrow> 'a option) \<Rightarrow> ('n, nat option) copier" where
  "copy_map copy put proj r h =
     (case Option.bind r (entries proj h) of
        None \<Rightarrow> (None, h)
      | Some kxs \<Rightarrow> (Some (length h), copy_entries copy put (length h) kxs (h @ [Map []])))"

text \<open>Two fields, one after the other.\<close>

definition copy_pair :: "('n, 'a) copier \<Rightarrow> ('n, 'b) copier \<Rightarrow> ('n, 'a \<times> 'b) copier" where
  "copy_pair copy1 copy2 p h =
     (let (x, h) = copy1 (fst p) h; (y, h) = copy2 (snd p) h in ((x, y), h))"

section \<open>The law of a deep copy\<close>

text \<open>
  What a reader sees lies in the memory and depends on nothing outside of it; a copy only
  adds memory, has the contents of the original, and reaches new memory alone.
\<close>

locale deep_copyable =
  fixes see :: "('n, 'a, 'v) reader" and copy :: "('n, 'a) copier"
  assumes reach_bounded: "see h x = Some (v, A) \<Longrightarrow> A \<subseteq> {..<length h}"
    and frame: "see h x = Some (v, A) \<Longrightarrow> \<forall>a\<in>A. a < length h' \<and> h' ! a = h ! a \<Longrightarrow> see h' x = Some (v, A)"
    and copies: "see h x = Some (v, A) \<Longrightarrow>
      \<exists>y t B. copy x h = (y, h @ t) \<and> see (h @ t) y = Some (v, B) \<and> B \<subseteq> {length h..<length (h @ t)}"
begin

lemma see_extended:
  assumes "see h x = Some (v, A)"
  shows "see (h @ t) x = Some (v, A)"
proof -
  from reach_bounded [OF assms] have "\<forall>a\<in>A. a < length (h @ t) \<and> (h @ t) ! a = h ! a"
    by (auto simp: nth_append)
  then show ?thesis by (rule frame [OF assms])
qed

text \<open>Writing outside of what is reached changes nothing.\<close>

lemma see_update:
  assumes "see h x = Some (v, A)" "a \<notin> A"
  shows "see (h[a := c]) x = Some (v, A)"
proof -
  from reach_bounded [OF assms(1)] assms(2) have "\<forall>b\<in>A. b < length (h[a := c]) \<and> h[a := c] ! b = h ! b"
    by (metis length_list_update lessThan_iff nth_list_update_neq subsetD)
  then show ?thesis by (rule frame [OF assms(1)])
qed

end

locale injected =
  fixes put :: "'a \<Rightarrow> 'n" and proj :: "'n \<Rightarrow> 'a option"
  assumes proj_put [simp]: "proj (put x) = Some x"

lemma those_map_iff: "those (map f xs) = Some ys \<longleftrightarrow> list_all2 (\<lambda>x y. f x = Some y) xs ys"
  by (induction xs arbitrary: ys) (auto split: option.splits simp: list_all2_Cons1)

lemma flat_copyable [copy_intros]: "deep_copyable (see_flat flat) copy_flat"
  by unfold_locales (auto simp: see_flat_def copy_flat_def)

lemma pair_copyable [copy_intros]:
  assumes one: "deep_copyable see1 copy1" and two: "deep_copyable see2 copy2"
  shows "deep_copyable (see_pair see1 see2) (copy_pair copy1 copy2)"
proof
  fix h p v A
  assume "see_pair see1 see2 h p = Some (v, A)"
  then obtain v1 A1 v2 A2 where see: "see1 h (fst p) = Some (v1, A1)" "see2 h (snd p) = Some (v2, A2)"
    and v: "v = VStruct [v1, v2]" "A = A1 \<union> A2"
    by (auto simp: see_pair_def bind_eq_Some_conv)
  from see deep_copyable.reach_bounded [OF one] deep_copyable.reach_bounded [OF two]
  show "A \<subseteq> {..<length h}" by (auto simp: v)
  show "see_pair see1 see2 h' p = Some (v, A)" if "\<forall>a\<in>A. a < length h' \<and> h' ! a = h ! a" for h'
    using deep_copyable.frame [OF one see(1), of h'] deep_copyable.frame [OF two see(2), of h'] that
    by (simp add: v see_pair_def)
  obtain x t B1 where x: "copy1 (fst p) h = (x, h @ t)" "see1 (h @ t) x = Some (v1, B1)"
    "B1 \<subseteq> {length h..<length (h @ t)}"
    using deep_copyable.copies [OF one see(1)] by blast
  obtain y u B2 where y: "copy2 (snd p) (h @ t) = (y, (h @ t) @ u)" "see2 ((h @ t) @ u) y = Some (v2, B2)"
    "B2 \<subseteq> {length (h @ t)..<length ((h @ t) @ u)}"
    using deep_copyable.copies [OF two deep_copyable.see_extended [OF two see(2)]] by blast
  have "see1 ((h @ t) @ u) x = Some (v1, B1)" by (rule deep_copyable.see_extended [OF one x(2)])
  then have "copy_pair copy1 copy2 p h = ((x, y), h @ (t @ u)) \<and>
      see_pair see1 see2 (h @ (t @ u)) (x, y) = Some (v, B1 \<union> B2) \<and>
      B1 \<union> B2 \<subseteq> {length h..<length (h @ (t @ u))}"
    using x y by (auto simp: copy_pair_def see_pair_def v)
  then show "\<exists>y t B. copy_pair copy1 copy2 p h = (y, h @ t) \<and> see_pair see1 see2 (h @ t) y = Some (v, B) \<and>
      B \<subseteq> {length h..<length (h @ t)}"
    by blast
qed

lemma struct_copyable:
  assumes fields: "deep_copyable see copy"
    and into: "\<And>x h. into x h = (case copy (refs x) h of (r, h') \<Rightarrow> (upd r x, h'))"
    and upd: "\<And>r x. refs (upd r x) = r" "\<And>r x. flat (upd r x) = flat x"
  shows "deep_copyable (see_struct flat refs see) into"
proof
  fix h x v A
  assume "see_struct flat refs see h x = Some (v, A)"
  then obtain w where see: "see h (refs x) = Some (w, A)" and v: "v = VStruct [flat x, w]"
    by (auto simp: see_struct_def bind_eq_Some_conv)
  show "A \<subseteq> {..<length h}" by (rule deep_copyable.reach_bounded [OF fields see])
  show "see_struct flat refs see h' x = Some (v, A)" if "\<forall>a\<in>A. a < length h' \<and> h' ! a = h ! a" for h'
    using deep_copyable.frame [OF fields see that] by (simp add: v see_struct_def)
  show "\<exists>y t B. into x h = (y, h @ t) \<and> see_struct flat refs see (h @ t) y = Some (v, B) \<and>
      B \<subseteq> {length h..<length (h @ t)}"
    using deep_copyable.copies [OF fields see] by (auto simp: into see_struct_def upd v)
qed

section \<open>Variables\<close>

lemma deref_frame: "a < length h \<Longrightarrow> h' ! a = h ! a \<Longrightarrow> a < length h' \<Longrightarrow> deref proj h' a = deref proj h a"
  by (simp add: deref_def)

lemma new_copy_spec:
  assumes elem: "deep_copyable see copy" and "injected put proj" and see: "see h x = Some (v, A)"
  obtains t y B where "new_copy copy put x h = (length h, h @ t)" "deref proj (h @ t) (length h) = Some y"
    "see (h @ t) y = Some (v, B)" "insert (length h) B \<subseteq> {length h..<length (h @ t)}"
proof -
  let ?h = "h @ [Array [None]]"
  have "see ?h x = Some (v, A)" by (rule deep_copyable.see_extended [OF elem see])
  then obtain y t B where y: "copy x ?h = (y, ?h @ t)" "see (?h @ t) y = Some (v, B)"
    "B \<subseteq> {length ?h..<length (?h @ t)}"
    using deep_copyable.copies [OF elem] by blast
  have upd: "(?h @ t)[length h := Array [Some (put y)]] = h @ Array [Some (put y)] # t"
    by (simp add: list_update_append)
  show ?thesis
  proof
    show "new_copy copy put x h = (length h, h @ Array [Some (put y)] # t)"
      using y(1) upd by (simp add: new_copy_def Let_def)
    show "deref proj (h @ Array [Some (put y)] # t) (length h) = Some y"
      using injected.proj_put [OF assms(2)] by (simp add: deref_def)
    show "see (h @ Array [Some (put y)] # t) y = Some (v, B)"
      unfolding upd [symmetric] by (rule deep_copyable.see_update [OF elem y(2)]) (use y(3) in auto)
    show "insert (length h) B \<subseteq> {length h..<length (h @ Array [Some (put y)] # t)}"
      using y(3) by auto
  qed
qed

lemma ptr_copyable [copy_intros]:
  assumes elem: "deep_copyable see copy" and inj: "injected put proj"
  shows "deep_copyable (see_ptr see proj) (copy_ptr copy put proj)"
proof
  fix h r v A
  assume r: "see_ptr see proj h r = Some (v, A)"
  consider (nil) "r = None" "v = VNil" "A = {}"
    | (new) a x w B where "r = Some a" "deref proj h a = Some x" "see h x = Some (w, B)" "v = VPtr w" "A = insert a B"
    using r by (cases r) (auto simp: see_ptr_def bind_eq_Some_conv)
  then have "A \<subseteq> {..<length h} \<and>
    (\<forall>h'. (\<forall>a\<in>A. a < length h' \<and> h' ! a = h ! a) \<longrightarrow> see_ptr see proj h' r = Some (v, A)) \<and>
    (\<exists>y t B. copy_ptr copy put proj r h = (y, h @ t) \<and> see_ptr see proj (h @ t) y = Some (v, B) \<and>
      B \<subseteq> {length h..<length (h @ t)})"
  proof cases
    case nil
    then show ?thesis by (simp add: see_ptr_def copy_ptr_def)
  next
    case new
    then have "a < length h" by (auto simp: deref_def split: if_splits)
    moreover from new have "B \<subseteq> {..<length h}" using deep_copyable.reach_bounded [OF elem] by blast
    moreover have "see_ptr see proj h' r = Some (v, A)" if h': "\<forall>a\<in>A. a < length h' \<and> h' ! a = h ! a" for h'
    proof -
      have "deref proj h' a = Some x"
        using h' new \<open>a < length h\<close> by (simp add: deref_frame [of a h h'])
      moreover have "see h' x = Some (w, B)"
        using deep_copyable.frame [OF elem new(3), of h'] h' new by simp
      ultimately show ?thesis by (simp add: see_ptr_def new)
    qed
    moreover obtain t y C where "new_copy copy put x h = (length h, h @ t)" "deref proj (h @ t) (length h) = Some y"
      "see (h @ t) y = Some (w, C)" "insert (length h) C \<subseteq> {length h..<length (h @ t)}"
      using new_copy_spec [OF elem inj new(3)] .
    then have "copy_ptr copy put proj r h = (Some (length h), h @ t) \<and>
        see_ptr see proj (h @ t) (Some (length h)) = Some (v, insert (length h) C)"
      using new by (simp add: copy_ptr_def see_ptr_def)
    ultimately show ?thesis using new \<open>insert (length h) C \<subseteq> _\<close> by blast
  qed
  then show "A \<subseteq> {..<length h}"
    "\<And>h'. \<forall>a\<in>A. a < length h' \<and> h' ! a = h ! a \<Longrightarrow> see_ptr see proj h' r = Some (v, A)"
    "\<exists>y t B. copy_ptr copy put proj r h = (y, h @ t) \<and> see_ptr see proj (h @ t) y = Some (v, B) \<and>
      B \<subseteq> {length h..<length (h @ t)}"
    by blast+
qed

lemma through_new_copyable:
  assumes elem: "deep_copyable see copy" and inj: "injected put proj"
  shows "deep_copyable see (copy_through_new copy put proj)"
proof
  fix h x v A
  assume see: "see h x = Some (v, A)"
  show "A \<subseteq> {..<length h}" by (rule deep_copyable.reach_bounded [OF elem see])
  show "see h' x = Some (v, A)" if "\<forall>a\<in>A. a < length h' \<and> h' ! a = h ! a" for h'
    by (rule deep_copyable.frame [OF elem see that])
  obtain t y B where "new_copy copy put x h = (length h, h @ t)" "deref proj (h @ t) (length h) = Some y"
    "see (h @ t) y = Some (v, B)" "insert (length h) B \<subseteq> {length h..<length (h @ t)}"
    using new_copy_spec [OF elem inj see] .
  then show "\<exists>y t B. copy_through_new copy put proj x h = (y, h @ t) \<and> see (h @ t) y = Some (v, B) \<and>
      B \<subseteq> {length h..<length (h @ t)}"
    by (intro exI [of _ y] exI [of _ t] exI [of _ B]) (simp add: copy_through_new_def)
qed

section \<open>Slices\<close>

text \<open>Values with given contents, all of them within some addresses.\<close>

definition seen_within :: "('n, 'a, 'v) reader \<Rightarrow> 'n heap \<Rightarrow> nat set \<Rightarrow> 'a list \<Rightarrow> 'v tree list \<Rightarrow> bool" where
  "seen_within see h S = list_all2 (\<lambda>x v. \<exists>A. see h x = Some (v, A) \<and> A \<subseteq> S)"

lemma seen_within_iff:
  "seen_within see h S xs vs \<longleftrightarrow>
     (\<exists>ps. those (map (see h) xs) = Some ps \<and> vs = map fst ps \<and> \<Union> (set (map snd ps)) \<subseteq> S)"
proof (induction xs arbitrary: vs)
  case Nil
  show ?case by (auto simp: seen_within_def)
next
  case (Cons x xs)
  have "seen_within see h S (x # xs) vs \<longleftrightarrow>
      (\<exists>v A ws. vs = v # ws \<and> see h x = Some (v, A) \<and> A \<subseteq> S \<and> seen_within see h S xs ws)"
    by (auto simp: seen_within_def list_all2_Cons1)
  also have "\<dots> \<longleftrightarrow> (\<exists>ps. those (map (see h) (x # xs)) = Some ps \<and> vs = map fst ps \<and> \<Union> (set (map snd ps)) \<subseteq> S)"
    unfolding Cons.IH by (auto split: option.splits; force)
  finally show ?case .
qed

lemma seen_within_mono:
  assumes "seen_within see h S xs vs"
    and "\<And>x v A. see h x = Some (v, A) \<Longrightarrow> A \<subseteq> S \<Longrightarrow> see h' x = Some (v, A) \<and> A \<subseteq> S'"
  shows "seen_within see h' S' xs vs"
  using assms(1) unfolding seen_within_def
  by (rule list_all2_mono) (use assms(2) in blast)

lemma copy_items_spec:
  assumes elem: "deep_copyable see copy" and xs: "seen_within see h {..<length h} xs vs"
    and ys: "seen_within see (h @ Array (map (Some \<circ> put) ys @ replicate (length xs) None) # t)
      {Suc (length h)..<Suc (length h) + length t} ys ws"
  shows "\<exists>zs u. copy_items copy put (length h) (length ys) xs
        (h @ Array (map (Some \<circ> put) ys @ replicate (length xs) None) # t) = h @ Array (map (Some \<circ> put) zs) # u \<and>
      seen_within see (h @ Array (map (Some \<circ> put) zs) # u) {Suc (length h)..<Suc (length h) + length u} zs (ws @ vs)"
  using xs ys
proof (induction xs arbitrary: ys ws vs t)
  case Nil
  then show ?case by (auto simp: seen_within_def)
next
  case (Cons x xs)
  let ?g = "h @ Array (map (Some \<circ> put) ys @ replicate (length (x # xs)) None) # t"
  from Cons.prems(1) obtain v A ws' where vs: "vs = v # ws'" and x: "see h x = Some (v, A)"
    and xs: "seen_within see h {..<length h} xs ws'"
    by (auto simp: seen_within_def list_all2_Cons1)
  from deep_copyable.copies [OF elem deep_copyable.see_extended [OF elem x]]
  obtain y u B where y: "copy x ?g = (y, ?g @ u)" "see (?g @ u) y = Some (v, B)" "B \<subseteq> {length ?g..<length (?g @ u)}"
    by blast
  let ?g' = "h @ Array (map (Some \<circ> put) (ys @ [y]) @ replicate (length xs) None) # (t @ u)"
  have set: "(?g @ u)[length h := Array (map (Some \<circ> put) (ys @ [y]) @ replicate (length xs) None)] = ?g'"
    by (simp add: list_update_append)
  have item: "set_item (length h) (length ys) (put y) (?g @ u) = ?g'"
    by (simp add: set_item_def list_update_append nth_append)
  have keep: "see ?g' z = Some (w, C) \<and> C \<subseteq> {Suc (length h)..<Suc (length h) + length (t @ u)}"
    if "see (?g @ u) z = Some (w, C)" "C \<subseteq> {Suc (length h)..<Suc (length h) + length (t @ u)}" for z w C
  proof -
    have "length h \<notin> C" using that(2) by auto
    from deep_copyable.see_update [OF elem that(1) this] that(2) show ?thesis
      unfolding set [symmetric] by simp
  qed
  have "seen_within see ?g' {Suc (length h)..<Suc (length h) + length (t @ u)} ys ws"
    by (rule seen_within_mono [OF Cons.prems(2)], rule keep, erule deep_copyable.see_extended [OF elem]) auto
  moreover have "see ?g' y = Some (v, B) \<and> B \<subseteq> {Suc (length h)..<Suc (length h) + length (t @ u)}"
    by (rule keep) (use y in auto)
  ultimately have "seen_within see ?g' {Suc (length h)..<Suc (length h) + length (t @ u)} (ys @ [y]) (ws @ [v])"
    by (auto simp: seen_within_def intro!: list_all2_appendI)
  note written = Cons.IH [OF xs this]
  have step: "copy_items copy put (length h) (length ys) (x # xs) ?g =
      copy_items copy put (length h) (length (ys @ [y])) xs ?g'"
    by (simp only: copy_items.simps y(1) Let_def prod.case item length_append_singleton)
  have regroup: "ws @ vs = (ws @ [v]) @ ws'" by (simp add: vs)
  show ?case unfolding step regroup by (rule written)
qed

lemma items_written:
  assumes "injected put proj"
  shows "items proj (h @ Array (map (Some \<circ> put) zs) # u) \<lparr>gs_array = length h, gs_off = 0, gs_len = length zs\<rparr> = Some zs"
proof -
  have "those (map (\<lambda>n. Option.bind n proj) (map (Some \<circ> put) zs)) = Some zs"
    by (simp add: those_map_iff list_all2_same injected.proj_put [OF assms] list.rel_map)
  then show ?thesis by (simp add: items_def)
qed

text \<open>What the elements reach, and that they are unaffected by changes elsewhere.\<close>

lemma elements_reach:
  assumes "deep_copyable see copy" and "those (map (see h) xs) = Some ps"
  shows "\<Union> (set (map snd ps)) \<subseteq> {..<length h}"
proof -
  have "list_all2 (\<lambda>x p. see h x = Some p) xs ps" using assms(2) by (simp only: those_map_iff)
  then show ?thesis
    using deep_copyable.reach_bounded [OF assms(1)] by (fastforce simp: list_all2_conv_all_nth in_set_conv_nth)
qed

lemma elements_framed:
  assumes "deep_copyable see copy" and "those (map (see h) xs) = Some ps"
    and "\<forall>a\<in>\<Union> (set (map snd ps)). a < length h' \<and> h' ! a = h ! a"
  shows "those (map (see h') xs) = Some ps"
proof -
  have ps: "list_all2 (\<lambda>x p. see h x = Some p) xs ps" using assms(2) by (simp only: those_map_iff)
  have "see h' x = Some p" if "x \<in> set xs" "p \<in> set ps" "see h x = Some p" for x p
    using deep_copyable.frame [OF assms(1), of h x "fst p" "snd p" h'] assms(3) that by auto
  then show ?thesis using list.rel_mono_strong [OF ps] by (simp only: those_map_iff)
qed

lemma slice_copyable [copy_intros]:
  assumes elem: "deep_copyable see copy" and inj: "injected put proj"
  shows "deep_copyable (see_slice see proj) (copy_slice copy put proj)"
proof
  fix h r v A
  assume r: "see_slice see proj h r = Some (v, A)"
  consider (nil) "r = None" "v = VNil" "A = {}"
    | (new) sl xs ps where "r = Some sl" "items proj h sl = Some xs" "those (map (see h) xs) = Some ps"
        "v = VSlice (map fst ps)" "A = insert (gs_array sl) (\<Union> (set (map snd ps)))"
    using r by (cases r) (auto simp: see_slice_def bind_eq_Some_conv)
  then have "A \<subseteq> {..<length h} \<and>
    (\<forall>h'. (\<forall>a\<in>A. a < length h' \<and> h' ! a = h ! a) \<longrightarrow> see_slice see proj h' r = Some (v, A)) \<and>
    (\<exists>y t B. copy_slice copy put proj r h = (y, h @ t) \<and> see_slice see proj (h @ t) y = Some (v, B) \<and>
      B \<subseteq> {length h..<length (h @ t)})"
  proof cases
    case nil
    then show ?thesis by (simp add: see_slice_def copy_slice_def)
  next
    case new
    have inside: "gs_array sl < length h" using new(2) by (auto simp: items_def split: if_splits)
    note reach = elements_reach [OF elem new(3)]
    have framed: "see_slice see proj h' r = Some (v, A)" if h': "\<forall>a\<in>A. a < length h' \<and> h' ! a = h ! a" for h'
    proof -
      have "items proj h' sl = Some xs" using h' new(2) inside by (simp add: items_def new(5))
      moreover have "those (map (see h') xs) = Some ps"
        by (rule elements_framed [OF elem new(3)]) (use h' new(5) in blast)
      ultimately show ?thesis by (simp add: see_slice_def new)
    qed
    have "seen_within see h {..<length h} xs (map fst ps)"
      using new(3) reach by (auto simp: seen_within_iff)
    moreover have "seen_within see (h @ Array (map (Some \<circ> put) [] @ replicate (length xs) None) # [])
        {Suc (length h)..<Suc (length h) + length []} [] []"
      by (simp add: seen_within_def)
    ultimately obtain zs u where zs: "copy_items copy put (length h) 0 xs (h @ [Array (replicate (length xs) None)]) =
          h @ Array (map (Some \<circ> put) zs) # u"
      "seen_within see (h @ Array (map (Some \<circ> put) zs) # u) {Suc (length h)..<Suc (length h) + length u} zs (map fst ps)"
      using copy_items_spec [OF elem, of h xs "map fst ps" put "[]" "[]" "[]"] by auto
    then obtain qs where qs: "those (map (see (h @ Array (map (Some \<circ> put) zs) # u)) zs) = Some qs" "map fst ps = map fst qs"
      "\<Union> (set (map snd qs)) \<subseteq> {Suc (length h)..<Suc (length h) + length u}"
      by (auto simp: seen_within_iff)
    have "length zs = length xs"
      using zs(2) new(3) by (auto simp: seen_within_def those_map_iff dest!: list_all2_lengthD)
    then have "copy_slice copy put proj r h = (Some \<lparr>gs_array = length h, gs_off = 0, gs_len = length zs\<rparr>,
        h @ (Array (map (Some \<circ> put) zs) # u))"
      using zs(1) by (simp add: copy_slice_def new)
    moreover have "see_slice see proj (h @ (Array (map (Some \<circ> put) zs) # u))
        (Some \<lparr>gs_array = length h, gs_off = 0, gs_len = length zs\<rparr>) = Some (v, insert (length h) (\<Union> (set (map snd qs))))"
      using qs by (simp add: see_slice_def items_written [OF inj] new)
    moreover have "insert (length h) (\<Union> (set (map snd qs))) \<subseteq> {length h..<length (h @ (Array (map (Some \<circ> put) zs) # u))}"
      using qs(3) by auto
    ultimately show ?thesis using framed inside reach new(5) by blast
  qed
  then show "A \<subseteq> {..<length h}"
    "\<And>h'. \<forall>a\<in>A. a < length h' \<and> h' ! a = h ! a \<Longrightarrow> see_slice see proj h' r = Some (v, A)"
    "\<exists>y t B. copy_slice copy put proj r h = (y, h @ t) \<and> see_slice see proj (h @ t) y = Some (v, B) \<and>
      B \<subseteq> {length h..<length (h @ t)}"
    by blast+
qed

section \<open>Maps\<close>

lemma put_new_key: "k \<notin> set (map fst kvs) \<Longrightarrow> gm_put k n kvs = kvs @ [(k, n)]"
  by (induction kvs) auto

lemma copy_entries_spec:
  assumes elem: "deep_copyable see copy" and "distinct (map fst (kys @ kxs))"
    and "seen_within see h {..<length h} (map snd kxs) vs"
    and "seen_within see (h @ Map (map (apsnd put) kys) # t) {Suc (length h)..<Suc (length h) + length t} (map snd kys) ws"
  shows "\<exists>kzs u. copy_entries copy put (length h) kxs (h @ Map (map (apsnd put) kys) # t) =
        h @ Map (map (apsnd put) kzs) # u \<and> map fst kzs = map fst (kys @ kxs) \<and>
      seen_within see (h @ Map (map (apsnd put) kzs) # u) {Suc (length h)..<Suc (length h) + length u} (map snd kzs) (ws @ vs)"
  using assms(2-)
proof (induction kxs arbitrary: kys ws vs t)
  case Nil
  then show ?case by (auto simp: seen_within_def)
next
  case (Cons kx kxs)
  obtain k x where kx: "kx = (k, x)" by fastforce
  let ?g = "h @ Map (map (apsnd put) kys) # t"
  from Cons.prems(2) obtain v A ws' where vs: "vs = v # ws'" and x: "see h x = Some (v, A)"
    and kxs: "seen_within see h {..<length h} (map snd kxs) ws'"
    by (auto simp: seen_within_def list_all2_Cons1 kx)
  from deep_copyable.copies [OF elem deep_copyable.see_extended [OF elem x]]
  obtain y u B where y: "copy x ?g = (y, ?g @ u)" "see (?g @ u) y = Some (v, B)" "B \<subseteq> {length ?g..<length (?g @ u)}"
    by blast
  let ?g' = "h @ Map (map (apsnd put) (kys @ [(k, y)])) # (t @ u)"
  have set: "(?g @ u)[length h := Map (map (apsnd put) (kys @ [(k, y)]))] = ?g'"
    by (simp add: list_update_append)
  have "k \<notin> set (map fst (map (apsnd put) kys))" using Cons.prems(1) by (simp add: kx)
  then have entry: "set_entry (length h) k (put y) (?g @ u) = ?g'"
    by (simp add: set_entry_def list_update_append nth_append put_new_key)
  have keep: "see ?g' z = Some (w, C) \<and> C \<subseteq> {Suc (length h)..<Suc (length h) + length (t @ u)}"
    if "see (?g @ u) z = Some (w, C)" "C \<subseteq> {Suc (length h)..<Suc (length h) + length (t @ u)}" for z w C
  proof -
    have "length h \<notin> C" using that(2) by auto
    from deep_copyable.see_update [OF elem that(1) this] that(2) show ?thesis
      unfolding set [symmetric] by simp
  qed
  have "seen_within see ?g' {Suc (length h)..<Suc (length h) + length (t @ u)} (map snd kys) ws"
    by (rule seen_within_mono [OF Cons.prems(3)], rule keep, erule deep_copyable.see_extended [OF elem]) auto
  moreover have "see ?g' y = Some (v, B) \<and> B \<subseteq> {Suc (length h)..<Suc (length h) + length (t @ u)}"
    by (rule keep) (use y in auto)
  ultimately have "seen_within see ?g' {Suc (length h)..<Suc (length h) + length (t @ u)}
      (map snd (kys @ [(k, y)])) (ws @ [v])"
    by (auto simp: seen_within_def intro!: list_all2_appendI)
  moreover have "distinct (map fst ((kys @ [(k, y)]) @ kxs))" using Cons.prems(1) by (simp add: kx)
  ultimately have written: "\<exists>kzs u. copy_entries copy put (length h) kxs ?g' =
        h @ Map (map (apsnd put) kzs) # u \<and> map fst kzs = map fst ((kys @ [(k, y)]) @ kxs) \<and>
      seen_within see (h @ Map (map (apsnd put) kzs) # u) {Suc (length h)..<Suc (length h) + length u} (map snd kzs)
        ((ws @ [v]) @ ws')"
    using Cons.IH [OF _ kxs] by blast
  have step: "copy_entries copy put (length h) (kx # kxs) ?g = copy_entries copy put (length h) kxs ?g'"
    by (simp only: kx copy_entries.simps y(1) Let_def prod.case entry)
  have regroup: "ws @ vs = (ws @ [v]) @ ws'" "map fst (kys @ kx # kxs) = map fst ((kys @ [(k, y)]) @ kxs)"
    by (simp_all add: vs kx)
  show ?case unfolding step regroup by (rule written)
qed

lemma entries_written:
  assumes "injected put proj" "distinct (map fst kzs)"
  shows "entries proj (h @ Map (map (apsnd put) kzs) # u) (length h) = Some kzs"
proof -
  have "those (map (proj \<circ> snd) (map (apsnd put) kzs)) = Some (map snd kzs)"
    by (simp add: those_map_iff list_all2_same injected.proj_put [OF assms(1)] list.rel_map)
  then show ?thesis using assms(2) by (simp add: entries_def gm_wf_def zip_map_fst_snd o_def)
qed

lemma map_copyable [copy_intros]:
  assumes elem: "deep_copyable see copy" and inj: "injected put proj"
  shows "deep_copyable (see_map see proj) (copy_map copy put proj)"
proof
  fix h r v A
  assume r: "see_map see proj h r = Some (v, A)"
  consider (nil) "r = None" "v = VNil" "A = {}"
    | (new) a kxs ps where "r = Some a" "entries proj h a = Some kxs" "those (map (see h) (map snd kxs)) = Some ps"
        "v = VMap (zip (map fst kxs) (map fst ps))" "A = insert a (\<Union> (set (map snd ps)))"
    using r by (cases r) (auto simp: see_map_def bind_eq_Some_conv)
  then have "A \<subseteq> {..<length h} \<and>
    (\<forall>h'. (\<forall>a\<in>A. a < length h' \<and> h' ! a = h ! a) \<longrightarrow> see_map see proj h' r = Some (v, A)) \<and>
    (\<exists>y t B. copy_map copy put proj r h = (y, h @ t) \<and> see_map see proj (h @ t) y = Some (v, B) \<and>
      B \<subseteq> {length h..<length (h @ t)})"
  proof cases
    case nil
    then show ?thesis by (simp add: see_map_def copy_map_def)
  next
    case new
    have inside: "a < length h" using new(2) by (auto simp: entries_def split: if_splits)
    have keys: "distinct (map fst kxs)"
      using new(2) by (auto simp: entries_def gm_wf_def those_map_iff map_fst_zip dest: list_all2_lengthD
          split: if_splits cell.splits)
    note reach = elements_reach [OF elem new(3)]
    have framed: "see_map see proj h' r = Some (v, A)" if h': "\<forall>a\<in>A. a < length h' \<and> h' ! a = h ! a" for h'
    proof -
      have "entries proj h' a = Some kxs" using h' new(2) inside by (simp add: entries_def new(5))
      moreover have "those (map (see h') (map snd kxs)) = Some ps"
        by (rule elements_framed [OF elem new(3)]) (use h' new(5) in blast)
      ultimately show ?thesis by (simp add: see_map_def new)
    qed
    have "seen_within see h {..<length h} (map snd kxs) (map fst ps)"
      using new(3) reach by (auto simp: seen_within_iff)
    moreover have "seen_within see (h @ Map (map (apsnd put) []) # [])
        {Suc (length h)..<Suc (length h) + length []} (map snd []) []"
      by (simp add: seen_within_def)
    ultimately obtain kzs u where kzs: "copy_entries copy put (length h) kxs (h @ [Map []]) =
          h @ Map (map (apsnd put) kzs) # u" "map fst kzs = map fst kxs"
      "seen_within see (h @ Map (map (apsnd put) kzs) # u) {Suc (length h)..<Suc (length h) + length u}
        (map snd kzs) (map fst ps)"
      using copy_entries_spec [OF elem, of "[]" kxs h "map fst ps" put "[]" "[]"] keys by auto
    then obtain qs where qs: "those (map (see (h @ Map (map (apsnd put) kzs) # u)) (map snd kzs)) = Some qs"
      "map fst ps = map fst qs" "\<Union> (set (map snd qs)) \<subseteq> {Suc (length h)..<Suc (length h) + length u}"
      by (auto simp: seen_within_iff)
    have "copy_map copy put proj r h = (Some (length h), h @ (Map (map (apsnd put) kzs) # u))"
      using kzs(1) by (simp add: copy_map_def new)
    moreover have "see_map see proj (h @ (Map (map (apsnd put) kzs) # u)) (Some (length h)) =
        Some (v, insert (length h) (\<Union> (set (map snd qs))))"
      using qs keys by (simp add: see_map_def entries_written [OF inj] new kzs(2))
    moreover have "insert (length h) (\<Union> (set (map snd qs))) \<subseteq> {length h..<length (h @ (Map (map (apsnd put) kzs) # u))}"
      using qs(3) by auto
    ultimately show ?thesis using framed inside reach new(5) by blast
  qed
  then show "A \<subseteq> {..<length h}"
    "\<And>h'. \<forall>a\<in>A. a < length h' \<and> h' ! a = h ! a \<Longrightarrow> see_map see proj h' r = Some (v, A)"
    "\<exists>y t B. copy_map copy put proj r h = (y, h @ t) \<and> see_map see proj (h @ t) y = Some (v, B) \<and>
      B \<subseteq> {length h..<length (h @ t)}"
    by blast+
qed

end
