(* ===== verification/DeepCopy.thy ===== *)
theory DeepCopy
  imports Memory ApiTypes
begin

text \<open>
  The generated deep copies (api/v1/zz\_generated.deepcopy.go) on the structs of api/v1 as
  they lie in memory: a slice, a map or a pointer is a reference into the heap of theory
  Memory. Structs without references are those of theory ApiTypes. The types of the
  Kubernetes libraries are opaque (\<open>'f\<close>), with their deep copies as a parameter.
\<close>

section \<open>The structs in memory\<close>

type_synonym pointer = "nat option"

record PortRange_m =
  prm_Min :: int32
  prm_Max :: int32
  prm_ExcludedPorts :: "gslice option"

record ApolloNetworkPoolSpec_m =
  psm_LoadBalancers :: "gslice option"
  psm_ISPLineType :: ISPLineType
  psm_PortRange :: PortRange_m
  psm_PrewarmConfig :: PrewarmConfig
  psm_PodSelector :: pointer

record LoadBalancerAllocateStatus_m =
  lasm_Phase :: string
  lasm_AllocatedPorts :: "gslice option"
  lasm_PrewarmedPorts :: "gslice option"
  lasm_TotalPorts :: int32
  lasm_AllocatedCount :: int32
  lasm_PrewarmedCount :: int32
  lasm_AvailableCount :: int32
  lasm_LastUpdated :: pointer
  lasm_IsSynced :: bool

record ApolloNetworkPoolStatus_m =
  npsm_Allocations :: pointer
  npsm_IsSynced :: bool

record PortBinding_m =
  pbm_PodPort :: int32
  pbm_LBPort :: int32
  pbm_Protocol :: Protocol
  pbm_PortName :: string
  pbm_BindingType :: BindingType
  pbm_LoadBalancerRef :: LoadBalancerRef
  pbm_BindingConfig :: pointer

record BindingStatus_m =
  bsm_PodPort :: int32
  bsm_LBPort :: int32
  bsm_Phase :: AllocationPhase
  bsm_Message :: string
  bsm_LastProbeTime :: pointer
  bsm_BoundAt :: pointer
  bsm_LoadBalancerConfig :: pointer

record PortAllocationSpec_m =
  asm_PodInfo :: PodInfo
  asm_PortBindings :: "gslice option"

record PortAllocationStatus_m =
  stm_Phase :: AllocationPhase
  stm_BindingStatuses :: "gslice option"
  stm_AllocatedAt :: pointer
  stm_BoundAt :: pointer
  stm_LastUpdated :: pointer
  stm_Conditions :: "gslice option"
  stm_Message :: string
  stm_ObservedGeneration :: int64

text \<open>\<open>'f\<close> is what a struct of the libraries holds: ObjectMeta and ListMeta here.\<close>

record 'f PortAllocation_m =
  pam_TypeMeta :: type_meta
  pam_ObjectMeta :: 'f
  pam_Spec :: PortAllocationSpec_m
  pam_Status :: PortAllocationStatus_m

record 'f PortAllocationList_m =
  alm_TypeMeta :: type_meta
  alm_ListMeta :: 'f
  alm_Items :: "gslice option"

record 'f ApolloNetworkPool_m =
  npm_TypeMeta :: type_meta
  npm_ObjectMeta :: 'f
  npm_Spec :: ApolloNetworkPoolSpec_m
  npm_Status :: ApolloNetworkPoolStatus_m

record 'f ApolloNetworkPoolList_m =
  nplm_TypeMeta :: type_meta
  nplm_ListMeta :: 'f
  nplm_Items :: "gslice option"

text \<open>What a cell may hold, and the way back.\<close>

datatype 'f node =
    NInt32 int32
  | NString string
  | NForeign 'f
  | NLoadBalancerRef LoadBalancerRef
  | NPrewarmConfig PrewarmConfig
  | NPodPortAllocation PodPortAllocation
  | NPodInfo PodInfo
  | NBindingConfig BindingConfig
  | NPortRange PortRange_m
  | NApolloNetworkPoolSpec ApolloNetworkPoolSpec_m
  | NLoadBalancerAllocateStatus LoadBalancerAllocateStatus_m
  | NApolloNetworkPoolStatus ApolloNetworkPoolStatus_m
  | NPortBinding PortBinding_m
  | NBindingStatus BindingStatus_m
  | NPortAllocationSpec PortAllocationSpec_m
  | NPortAllocationStatus PortAllocationStatus_m
  | NPortAllocation "'f PortAllocation_m"
  | NPortAllocationList "'f PortAllocationList_m"
  | NApolloNetworkPool "'f ApolloNetworkPool_m"
  | NApolloNetworkPoolList "'f ApolloNetworkPoolList_m"

definition get_Int32 :: "'f node \<Rightarrow> int32 option" where
  "get_Int32 n = (case n of NInt32 x \<Rightarrow> Some x | _ \<Rightarrow> None)"

definition get_String :: "'f node \<Rightarrow> string option" where
  "get_String n = (case n of NString x \<Rightarrow> Some x | _ \<Rightarrow> None)"

definition get_Foreign :: "'f node \<Rightarrow> 'f option" where
  "get_Foreign n = (case n of NForeign x \<Rightarrow> Some x | _ \<Rightarrow> None)"

definition get_LoadBalancerRef :: "'f node \<Rightarrow> LoadBalancerRef option" where
  "get_LoadBalancerRef n = (case n of NLoadBalancerRef x \<Rightarrow> Some x | _ \<Rightarrow> None)"

definition get_PrewarmConfig :: "'f node \<Rightarrow> PrewarmConfig option" where
  "get_PrewarmConfig n = (case n of NPrewarmConfig x \<Rightarrow> Some x | _ \<Rightarrow> None)"

definition get_PodPortAllocation :: "'f node \<Rightarrow> PodPortAllocation option" where
  "get_PodPortAllocation n = (case n of NPodPortAllocation x \<Rightarrow> Some x | _ \<Rightarrow> None)"

definition get_PodInfo :: "'f node \<Rightarrow> PodInfo option" where
  "get_PodInfo n = (case n of NPodInfo x \<Rightarrow> Some x | _ \<Rightarrow> None)"

definition get_BindingConfig :: "'f node \<Rightarrow> BindingConfig option" where
  "get_BindingConfig n = (case n of NBindingConfig x \<Rightarrow> Some x | _ \<Rightarrow> None)"

definition get_PortRange :: "'f node \<Rightarrow> PortRange_m option" where
  "get_PortRange n = (case n of NPortRange x \<Rightarrow> Some x | _ \<Rightarrow> None)"

definition get_ApolloNetworkPoolSpec :: "'f node \<Rightarrow> ApolloNetworkPoolSpec_m option" where
  "get_ApolloNetworkPoolSpec n = (case n of NApolloNetworkPoolSpec x \<Rightarrow> Some x | _ \<Rightarrow> None)"

definition get_LoadBalancerAllocateStatus :: "'f node \<Rightarrow> LoadBalancerAllocateStatus_m option" where
  "get_LoadBalancerAllocateStatus n = (case n of NLoadBalancerAllocateStatus x \<Rightarrow> Some x | _ \<Rightarrow> None)"

definition get_ApolloNetworkPoolStatus :: "'f node \<Rightarrow> ApolloNetworkPoolStatus_m option" where
  "get_ApolloNetworkPoolStatus n = (case n of NApolloNetworkPoolStatus x \<Rightarrow> Some x | _ \<Rightarrow> None)"

definition get_PortBinding :: "'f node \<Rightarrow> PortBinding_m option" where
  "get_PortBinding n = (case n of NPortBinding x \<Rightarrow> Some x | _ \<Rightarrow> None)"

definition get_BindingStatus :: "'f node \<Rightarrow> BindingStatus_m option" where
  "get_BindingStatus n = (case n of NBindingStatus x \<Rightarrow> Some x | _ \<Rightarrow> None)"

definition get_PortAllocationSpec :: "'f node \<Rightarrow> PortAllocationSpec_m option" where
  "get_PortAllocationSpec n = (case n of NPortAllocationSpec x \<Rightarrow> Some x | _ \<Rightarrow> None)"

definition get_PortAllocationStatus :: "'f node \<Rightarrow> PortAllocationStatus_m option" where
  "get_PortAllocationStatus n = (case n of NPortAllocationStatus x \<Rightarrow> Some x | _ \<Rightarrow> None)"

definition get_PortAllocation :: "'f node \<Rightarrow> 'f PortAllocation_m option" where
  "get_PortAllocation n = (case n of NPortAllocation x \<Rightarrow> Some x | _ \<Rightarrow> None)"

definition get_PortAllocationList :: "'f node \<Rightarrow> 'f PortAllocationList_m option" where
  "get_PortAllocationList n = (case n of NPortAllocationList x \<Rightarrow> Some x | _ \<Rightarrow> None)"

definition get_ApolloNetworkPool :: "'f node \<Rightarrow> 'f ApolloNetworkPool_m option" where
  "get_ApolloNetworkPool n = (case n of NApolloNetworkPool x \<Rightarrow> Some x | _ \<Rightarrow> None)"

definition get_ApolloNetworkPoolList :: "'f node \<Rightarrow> 'f ApolloNetworkPoolList_m option" where
  "get_ApolloNetworkPoolList n = (case n of NApolloNetworkPoolList x \<Rightarrow> Some x | _ \<Rightarrow> None)"

lemma injected_nodes [copy_intros]:
  "injected NInt32 get_Int32"
  "injected NString get_String"
  "injected NForeign get_Foreign"
  "injected NLoadBalancerRef get_LoadBalancerRef"
  "injected NPrewarmConfig get_PrewarmConfig"
  "injected NPodPortAllocation get_PodPortAllocation"
  "injected NPodInfo get_PodInfo"
  "injected NBindingConfig get_BindingConfig"
  "injected NPortRange get_PortRange"
  "injected NApolloNetworkPoolSpec get_ApolloNetworkPoolSpec"
  "injected NLoadBalancerAllocateStatus get_LoadBalancerAllocateStatus"
  "injected NApolloNetworkPoolStatus get_ApolloNetworkPoolStatus"
  "injected NPortBinding get_PortBinding"
  "injected NBindingStatus get_BindingStatus"
  "injected NPortAllocationSpec get_PortAllocationSpec"
  "injected NPortAllocationStatus get_PortAllocationStatus"
  "injected NPortAllocation get_PortAllocation"
  "injected NPortAllocationList get_PortAllocationList"
  "injected NApolloNetworkPool get_ApolloNetworkPool"
  "injected NApolloNetworkPoolList get_ApolloNetworkPoolList"
  by (unfold_locales, simp add: get_Int32_def get_String_def get_Foreign_def get_LoadBalancerRef_def
      get_PrewarmConfig_def get_PodPortAllocation_def get_PodInfo_def get_BindingConfig_def
      get_PortRange_def get_ApolloNetworkPoolSpec_def get_LoadBalancerAllocateStatus_def
      get_ApolloNetworkPoolStatus_def get_PortBinding_def get_BindingStatus_def
      get_PortAllocationSpec_def get_PortAllocationStatus_def get_PortAllocation_def
      get_PortAllocationList_def get_ApolloNetworkPool_def get_ApolloNetworkPoolList_def)+

text \<open>The elements of the plain slices.\<close>

interpretation int32_cell: injected NInt32 get_Int32 by (rule injected_nodes)

interpretation load_balancer_cell: injected NLoadBalancerRef get_LoadBalancerRef by (rule injected_nodes)

section \<open>The generated functions\<close>

text \<open>The library types whose deep copies are called.\<close>

datatype library_type = ObjectMeta | ListMeta | LabelSelector | Condition | Time

type_synonym 'f library_copy = "library_type \<Rightarrow> ('f node, 'f) copier"

type_synonym 'f memory = "'f node heap"

subsection \<open>Structs without references\<close>

definition BindingConfig_DeepCopyInto :: "('f node, BindingConfig) copier" where
  "BindingConfig_DeepCopyInto = copy_flat"

definition BindingConfig_DeepCopy :: "pointer \<Rightarrow> 'f memory \<Rightarrow> pointer \<times> 'f memory" where
  "BindingConfig_DeepCopy = copy_ptr BindingConfig_DeepCopyInto NBindingConfig get_BindingConfig"

definition LoadBalancerRef_DeepCopyInto :: "('f node, LoadBalancerRef) copier" where
  "LoadBalancerRef_DeepCopyInto = copy_flat"

definition LoadBalancerRef_DeepCopy :: "pointer \<Rightarrow> 'f memory \<Rightarrow> pointer \<times> 'f memory" where
  "LoadBalancerRef_DeepCopy = copy_ptr LoadBalancerRef_DeepCopyInto NLoadBalancerRef get_LoadBalancerRef"

definition PodInfo_DeepCopyInto :: "('f node, PodInfo) copier" where
  "PodInfo_DeepCopyInto = copy_flat"

definition PodInfo_DeepCopy :: "pointer \<Rightarrow> 'f memory \<Rightarrow> pointer \<times> 'f memory" where
  "PodInfo_DeepCopy = copy_ptr PodInfo_DeepCopyInto NPodInfo get_PodInfo"

definition PodPortAllocation_DeepCopyInto :: "('f node, PodPortAllocation) copier" where
  "PodPortAllocation_DeepCopyInto = copy_flat"

definition PodPortAllocation_DeepCopy :: "pointer \<Rightarrow> 'f memory \<Rightarrow> pointer \<times> 'f memory" where
  "PodPortAllocation_DeepCopy = copy_ptr PodPortAllocation_DeepCopyInto NPodPortAllocation get_PodPortAllocation"

definition PrewarmConfig_DeepCopyInto :: "('f node, PrewarmConfig) copier" where
  "PrewarmConfig_DeepCopyInto = copy_flat"

definition PrewarmConfig_DeepCopy :: "pointer \<Rightarrow> 'f memory \<Rightarrow> pointer \<times> 'f memory" where
  "PrewarmConfig_DeepCopy = copy_ptr PrewarmConfig_DeepCopyInto NPrewarmConfig get_PrewarmConfig"

subsection \<open>Parts of a port allocation\<close>

definition PortBinding_DeepCopyInto :: "('f node, PortBinding_m) copier" where
  "PortBinding_DeepCopyInto x h =
     (let (r, h) = copy_ptr copy_flat NBindingConfig get_BindingConfig (pbm_BindingConfig x) h
      in (x\<lparr>pbm_BindingConfig := r\<rparr>, h))"

definition PortBinding_DeepCopy :: "pointer \<Rightarrow> 'f memory \<Rightarrow> pointer \<times> 'f memory" where
  "PortBinding_DeepCopy = copy_ptr PortBinding_DeepCopyInto NPortBinding get_PortBinding"

text \<open>\<open>(*in).DeepCopy()\<close> of an instant.\<close>

definition Time_DeepCopy :: "'f library_copy \<Rightarrow> pointer \<Rightarrow> 'f memory \<Rightarrow> pointer \<times> 'f memory" where
  "Time_DeepCopy lib = copy_ptr (lib Time) NForeign get_Foreign"

definition BindingStatus_DeepCopyInto :: "'f library_copy \<Rightarrow> ('f node, BindingStatus_m) copier" where
  "BindingStatus_DeepCopyInto lib x h =
     (let (probe, h) = Time_DeepCopy lib (bsm_LastProbeTime x) h;
          (bound, h) = Time_DeepCopy lib (bsm_BoundAt x) h;
          (config, h) = copy_map copy_flat NString get_String (bsm_LoadBalancerConfig x) h
      in (x\<lparr>bsm_LastProbeTime := probe, bsm_BoundAt := bound, bsm_LoadBalancerConfig := config\<rparr>, h))"

definition BindingStatus_DeepCopy :: "'f library_copy \<Rightarrow> pointer \<Rightarrow> 'f memory \<Rightarrow> pointer \<times> 'f memory" where
  "BindingStatus_DeepCopy lib = copy_ptr (BindingStatus_DeepCopyInto lib) NBindingStatus get_BindingStatus"

definition PortAllocationSpec_DeepCopyInto :: "('f node, PortAllocationSpec_m) copier" where
  "PortAllocationSpec_DeepCopyInto x h =
     (let (r, h) = copy_slice PortBinding_DeepCopyInto NPortBinding get_PortBinding (asm_PortBindings x) h
      in (x\<lparr>asm_PortBindings := r\<rparr>, h))"

definition PortAllocationSpec_DeepCopy :: "pointer \<Rightarrow> 'f memory \<Rightarrow> pointer \<times> 'f memory" where
  "PortAllocationSpec_DeepCopy = copy_ptr PortAllocationSpec_DeepCopyInto NPortAllocationSpec get_PortAllocationSpec"

definition PortAllocationStatus_DeepCopyInto :: "'f library_copy \<Rightarrow> ('f node, PortAllocationStatus_m) copier" where
  "PortAllocationStatus_DeepCopyInto lib x h =
     (let (statuses, h) = copy_slice (BindingStatus_DeepCopyInto lib) NBindingStatus get_BindingStatus (stm_BindingStatuses x) h;
          (allocated, h) = Time_DeepCopy lib (stm_AllocatedAt x) h;
          (bound, h) = Time_DeepCopy lib (stm_BoundAt x) h;
          (updated, h) = Time_DeepCopy lib (stm_LastUpdated x) h;
          (conditions, h) = copy_slice (lib Condition) NForeign get_Foreign (stm_Conditions x) h
      in (x\<lparr>stm_BindingStatuses := statuses, stm_AllocatedAt := allocated, stm_BoundAt := bound,
            stm_LastUpdated := updated, stm_Conditions := conditions\<rparr>, h))"

definition PortAllocationStatus_DeepCopy :: "'f library_copy \<Rightarrow> pointer \<Rightarrow> 'f memory \<Rightarrow> pointer \<times> 'f memory" where
  "PortAllocationStatus_DeepCopy lib =
     copy_ptr (PortAllocationStatus_DeepCopyInto lib) NPortAllocationStatus get_PortAllocationStatus"

subsection \<open>Port allocations\<close>

definition PortAllocation_DeepCopyInto :: "'f library_copy \<Rightarrow> ('f node, 'f PortAllocation_m) copier" where
  "PortAllocation_DeepCopyInto lib x h =
     (let (meta, h) = lib ObjectMeta (pam_ObjectMeta x) h;
          (spec, h) = PortAllocationSpec_DeepCopyInto (pam_Spec x) h;
          (status, h) = PortAllocationStatus_DeepCopyInto lib (pam_Status x) h
      in (x\<lparr>pam_TypeMeta := pam_TypeMeta x, pam_ObjectMeta := meta, pam_Spec := spec, pam_Status := status\<rparr>, h))"

definition PortAllocation_DeepCopy :: "'f library_copy \<Rightarrow> pointer \<Rightarrow> 'f memory \<Rightarrow> pointer \<times> 'f memory" where
  "PortAllocation_DeepCopy lib = copy_ptr (PortAllocation_DeepCopyInto lib) NPortAllocation get_PortAllocation"

text \<open>\<open>DeepCopyObject\<close> turns a nil pointer into a nil interface, which is \<open>None\<close> as well.\<close>

definition PortAllocation_DeepCopyObject :: "'f library_copy \<Rightarrow> pointer \<Rightarrow> 'f memory \<Rightarrow> pointer \<times> 'f memory" where
  "PortAllocation_DeepCopyObject lib p h =
     (case PortAllocation_DeepCopy lib p h of (Some c, h) \<Rightarrow> (Some c, h) | (None, h) \<Rightarrow> (None, h))"

definition PortAllocationList_DeepCopyInto :: "'f library_copy \<Rightarrow> ('f node, 'f PortAllocationList_m) copier" where
  "PortAllocationList_DeepCopyInto lib x h =
     (let (meta, h) = lib ListMeta (alm_ListMeta x) h;
          (items, h) = copy_slice (PortAllocation_DeepCopyInto lib) NPortAllocation get_PortAllocation (alm_Items x) h
      in (x\<lparr>alm_TypeMeta := alm_TypeMeta x, alm_ListMeta := meta, alm_Items := items\<rparr>, h))"

definition PortAllocationList_DeepCopy :: "'f library_copy \<Rightarrow> pointer \<Rightarrow> 'f memory \<Rightarrow> pointer \<times> 'f memory" where
  "PortAllocationList_DeepCopy lib =
     copy_ptr (PortAllocationList_DeepCopyInto lib) NPortAllocationList get_PortAllocationList"

definition PortAllocationList_DeepCopyObject :: "'f library_copy \<Rightarrow> pointer \<Rightarrow> 'f memory \<Rightarrow> pointer \<times> 'f memory" where
  "PortAllocationList_DeepCopyObject lib p h =
     (case PortAllocationList_DeepCopy lib p h of (Some c, h) \<Rightarrow> (Some c, h) | (None, h) \<Rightarrow> (None, h))"

subsection \<open>Network pools\<close>

definition PortRange_DeepCopyInto :: "('f node, PortRange_m) copier" where
  "PortRange_DeepCopyInto x h =
     (let (r, h) = copy_slice copy_flat NInt32 get_Int32 (prm_ExcludedPorts x) h
      in (x\<lparr>prm_ExcludedPorts := r\<rparr>, h))"

definition PortRange_DeepCopy :: "pointer \<Rightarrow> 'f memory \<Rightarrow> pointer \<times> 'f memory" where
  "PortRange_DeepCopy = copy_ptr PortRange_DeepCopyInto NPortRange get_PortRange"

definition ApolloNetworkPoolSpec_DeepCopyInto :: "'f library_copy \<Rightarrow> ('f node, ApolloNetworkPoolSpec_m) copier" where
  "ApolloNetworkPoolSpec_DeepCopyInto lib x h =
     (let (lbs, h) = copy_slice copy_flat NLoadBalancerRef get_LoadBalancerRef (psm_LoadBalancers x) h;
          (range, h) = PortRange_DeepCopyInto (psm_PortRange x) h;
          (selector, h) = copy_ptr (lib LabelSelector) NForeign get_Foreign (psm_PodSelector x) h
      in (x\<lparr>psm_LoadBalancers := lbs, psm_PortRange := range, psm_PrewarmConfig := psm_PrewarmConfig x,
            psm_PodSelector := selector\<rparr>, h))"

definition ApolloNetworkPoolSpec_DeepCopy :: "'f library_copy \<Rightarrow> pointer \<Rightarrow> 'f memory \<Rightarrow> pointer \<times> 'f memory" where
  "ApolloNetworkPoolSpec_DeepCopy lib =
     copy_ptr (ApolloNetworkPoolSpec_DeepCopyInto lib) NApolloNetworkPoolSpec get_ApolloNetworkPoolSpec"

definition LoadBalancerAllocateStatus_DeepCopyInto ::
  "'f library_copy \<Rightarrow> ('f node, LoadBalancerAllocateStatus_m) copier" where
  "LoadBalancerAllocateStatus_DeepCopyInto lib x h =
     (let (allocated, h) = copy_slice (PortAllocation_DeepCopyInto lib) NPortAllocation get_PortAllocation (lasm_AllocatedPorts x) h;
          (prewarmed, h) = copy_slice copy_flat NInt32 get_Int32 (lasm_PrewarmedPorts x) h;
          (updated, h) = Time_DeepCopy lib (lasm_LastUpdated x) h
      in (x\<lparr>lasm_AllocatedPorts := allocated, lasm_PrewarmedPorts := prewarmed, lasm_LastUpdated := updated\<rparr>, h))"

definition LoadBalancerAllocateStatus_DeepCopy :: "'f library_copy \<Rightarrow> pointer \<Rightarrow> 'f memory \<Rightarrow> pointer \<times> 'f memory" where
  "LoadBalancerAllocateStatus_DeepCopy lib =
     copy_ptr (LoadBalancerAllocateStatus_DeepCopyInto lib) NLoadBalancerAllocateStatus get_LoadBalancerAllocateStatus"

definition ApolloNetworkPoolStatus_DeepCopyInto :: "'f library_copy \<Rightarrow> ('f node, ApolloNetworkPoolStatus_m) copier" where
  "ApolloNetworkPoolStatus_DeepCopyInto lib x h =
     (let (allocations, h) =
        copy_map (copy_through_new (LoadBalancerAllocateStatus_DeepCopyInto lib) NLoadBalancerAllocateStatus
            get_LoadBalancerAllocateStatus)
          NLoadBalancerAllocateStatus get_LoadBalancerAllocateStatus (npsm_Allocations x) h
      in (x\<lparr>npsm_Allocations := allocations\<rparr>, h))"

definition ApolloNetworkPoolStatus_DeepCopy :: "'f library_copy \<Rightarrow> pointer \<Rightarrow> 'f memory \<Rightarrow> pointer \<times> 'f memory" where
  "ApolloNetworkPoolStatus_DeepCopy lib =
     copy_ptr (ApolloNetworkPoolStatus_DeepCopyInto lib) NApolloNetworkPoolStatus get_ApolloNetworkPoolStatus"

definition ApolloNetworkPool_DeepCopyInto :: "'f library_copy \<Rightarrow> ('f node, 'f ApolloNetworkPool_m) copier" where
  "ApolloNetworkPool_DeepCopyInto lib x h =
     (let (meta, h) = lib ObjectMeta (npm_ObjectMeta x) h;
          (spec, h) = ApolloNetworkPoolSpec_DeepCopyInto lib (npm_Spec x) h;
          (status, h) = ApolloNetworkPoolStatus_DeepCopyInto lib (npm_Status x) h
      in (x\<lparr>npm_TypeMeta := npm_TypeMeta x, npm_ObjectMeta := meta, npm_Spec := spec, npm_Status := status\<rparr>, h))"

definition ApolloNetworkPool_DeepCopy :: "'f library_copy \<Rightarrow> pointer \<Rightarrow> 'f memory \<Rightarrow> pointer \<times> 'f memory" where
  "ApolloNetworkPool_DeepCopy lib = copy_ptr (ApolloNetworkPool_DeepCopyInto lib) NApolloNetworkPool get_ApolloNetworkPool"

definition ApolloNetworkPool_DeepCopyObject :: "'f library_copy \<Rightarrow> pointer \<Rightarrow> 'f memory \<Rightarrow> pointer \<times> 'f memory" where
  "ApolloNetworkPool_DeepCopyObject lib p h =
     (case ApolloNetworkPool_DeepCopy lib p h of (Some c, h) \<Rightarrow> (Some c, h) | (None, h) \<Rightarrow> (None, h))"

definition ApolloNetworkPoolList_DeepCopyInto :: "'f library_copy \<Rightarrow> ('f node, 'f ApolloNetworkPoolList_m) copier" where
  "ApolloNetworkPoolList_DeepCopyInto lib x h =
     (let (meta, h) = lib ListMeta (nplm_ListMeta x) h;
          (items, h) = copy_slice (ApolloNetworkPool_DeepCopyInto lib) NApolloNetworkPool get_ApolloNetworkPool (nplm_Items x) h
      in (x\<lparr>nplm_TypeMeta := nplm_TypeMeta x, nplm_ListMeta := meta, nplm_Items := items\<rparr>, h))"

definition ApolloNetworkPoolList_DeepCopy :: "'f library_copy \<Rightarrow> pointer \<Rightarrow> 'f memory \<Rightarrow> pointer \<times> 'f memory" where
  "ApolloNetworkPoolList_DeepCopy lib =
     copy_ptr (ApolloNetworkPoolList_DeepCopyInto lib) NApolloNetworkPoolList get_ApolloNetworkPoolList"

definition ApolloNetworkPoolList_DeepCopyObject :: "'f library_copy \<Rightarrow> pointer \<Rightarrow> 'f memory \<Rightarrow> pointer \<times> 'f memory" where
  "ApolloNetworkPoolList_DeepCopyObject lib p h =
     (case ApolloNetworkPoolList_DeepCopy lib p h of (Some c, h) \<Rightarrow> (Some c, h) | (None, h) \<Rightarrow> (None, h))"

section \<open>What the structs contain\<close>

text \<open>
  The contents of each struct: its plain fields, and what its references lead to. A reader
  fails on memory that is not in order (a dangling or ill-typed reference).
\<close>

type_synonym ('f, 'v) library_see = "library_type \<Rightarrow> ('f node, 'f, 'v) reader"

definition flat_LoadBalancerRef :: "LoadBalancerRef \<Rightarrow> 'v tree" where
  "flat_LoadBalancerRef x =
     VStruct [VString (lb_ID x), VString (lb_Region x), VString (lb_ResourceGroup x), VString (lb_Provider x)]"

definition flat_BindingConfig :: "BindingConfig \<Rightarrow> 'v tree" where
  "flat_BindingConfig x = VStruct [VInt32 (bc_TargetWeight x), VString (bc_SessionAffinity x)]"

definition flat_PodInfo :: "PodInfo \<Rightarrow> 'v tree" where
  "flat_PodInfo x = VStruct [VString (pi_Name x), VString (pi_Namespace x), VString (pi_UID x), VString (pi_PodIP x)]"

definition flat_PodPortAllocation :: "PodPortAllocation \<Rightarrow> 'v tree" where
  "flat_PodPortAllocation x =
     VStruct [VInt32 (pp_PodPort x), VInt32 (pp_LBPort x), VString (pp_Protocol x), VString (pp_PortName x)]"

definition flat_PrewarmConfig :: "PrewarmConfig \<Rightarrow> 'v tree" where
  "flat_PrewarmConfig x = VStruct [VBool (pw_Enabled x), VInt32 (pw_BufferSize x)]"

definition flat_TypeMeta :: "type_meta \<Rightarrow> 'v tree" where
  "flat_TypeMeta x = VStruct [VString (tm_Kind x), VString (tm_APIVersion x)]"

definition see_PortBinding :: "('f node, PortBinding_m, 'v) reader" where
  "see_PortBinding =
     see_struct
       (\<lambda>x. VStruct [VInt32 (pbm_PodPort x), VInt32 (pbm_LBPort x), VString (pbm_Protocol x), VString (pbm_PortName x),
          VString (pbm_BindingType x), flat_LoadBalancerRef (pbm_LoadBalancerRef x)])
       pbm_BindingConfig (see_ptr (see_flat flat_BindingConfig) get_BindingConfig)"

definition see_Time :: "('f, 'v) library_see \<Rightarrow> ('f node, pointer, 'v) reader" where
  "see_Time lib = see_ptr (lib Time) get_Foreign"

definition see_BindingStatus :: "('f, 'v) library_see \<Rightarrow> ('f node, BindingStatus_m, 'v) reader" where
  "see_BindingStatus lib =
     see_struct
       (\<lambda>x. VStruct [VInt32 (bsm_PodPort x), VInt32 (bsm_LBPort x), VString (bsm_Phase x), VString (bsm_Message x)])
       (\<lambda>x. (bsm_LastProbeTime x, bsm_BoundAt x, bsm_LoadBalancerConfig x))
       (see_pair (see_Time lib) (see_pair (see_Time lib) (see_map (see_flat VString) get_String)))"

definition see_PortAllocationSpec :: "('f node, PortAllocationSpec_m, 'v) reader" where
  "see_PortAllocationSpec =
     see_struct (\<lambda>x. flat_PodInfo (asm_PodInfo x)) asm_PortBindings (see_slice see_PortBinding get_PortBinding)"

definition see_PortAllocationStatus :: "('f, 'v) library_see \<Rightarrow> ('f node, PortAllocationStatus_m, 'v) reader" where
  "see_PortAllocationStatus lib =
     see_struct
       (\<lambda>x. VStruct [VString (stm_Phase x), VString (stm_Message x), VInt64 (stm_ObservedGeneration x)])
       (\<lambda>x. (stm_BindingStatuses x, stm_AllocatedAt x, stm_BoundAt x, stm_LastUpdated x, stm_Conditions x))
       (see_pair (see_slice (see_BindingStatus lib) get_BindingStatus)
         (see_pair (see_Time lib) (see_pair (see_Time lib) (see_pair (see_Time lib)
           (see_slice (lib Condition) get_Foreign)))))"

definition see_PortAllocation :: "('f, 'v) library_see \<Rightarrow> ('f node, 'f PortAllocation_m, 'v) reader" where
  "see_PortAllocation lib =
     see_struct (\<lambda>x. flat_TypeMeta (pam_TypeMeta x)) (\<lambda>x. (pam_ObjectMeta x, pam_Spec x, pam_Status x))
       (see_pair (lib ObjectMeta) (see_pair see_PortAllocationSpec (see_PortAllocationStatus lib)))"

definition see_PortAllocationList :: "('f, 'v) library_see \<Rightarrow> ('f node, 'f PortAllocationList_m, 'v) reader" where
  "see_PortAllocationList lib =
     see_struct (\<lambda>x. flat_TypeMeta (alm_TypeMeta x)) (\<lambda>x. (alm_ListMeta x, alm_Items x))
       (see_pair (lib ListMeta) (see_slice (see_PortAllocation lib) get_PortAllocation))"

definition see_PortRange :: "('f node, PortRange_m, 'v) reader" where
  "see_PortRange =
     see_struct (\<lambda>x. VStruct [VInt32 (prm_Min x), VInt32 (prm_Max x)]) prm_ExcludedPorts
       (see_slice (see_flat VInt32) get_Int32)"

definition see_ApolloNetworkPoolSpec :: "('f, 'v) library_see \<Rightarrow> ('f node, ApolloNetworkPoolSpec_m, 'v) reader" where
  "see_ApolloNetworkPoolSpec lib =
     see_struct
       (\<lambda>x. VStruct [VString (psm_ISPLineType x), flat_PrewarmConfig (psm_PrewarmConfig x)])
       (\<lambda>x. (psm_LoadBalancers x, psm_PortRange x, psm_PodSelector x))
       (see_pair (see_slice (see_flat flat_LoadBalancerRef) get_LoadBalancerRef)
         (see_pair see_PortRange (see_ptr (lib LabelSelector) get_Foreign)))"

definition see_LoadBalancerAllocateStatus ::
  "('f, 'v) library_see \<Rightarrow> ('f node, LoadBalancerAllocateStatus_m, 'v) reader" where
  "see_LoadBalancerAllocateStatus lib =
     see_struct
       (\<lambda>x. VStruct [VString (lasm_Phase x), VInt32 (lasm_TotalPorts x), VInt32 (lasm_AllocatedCount x),
          VInt32 (lasm_PrewarmedCount x), VInt32 (lasm_AvailableCount x), VBool (lasm_IsSynced x)])
       (\<lambda>x. (lasm_AllocatedPorts x, lasm_PrewarmedPorts x, lasm_LastUpdated x))
       (see_pair (see_slice (see_PortAllocation lib) get_PortAllocation)
         (see_pair (see_slice (see_flat VInt32) get_Int32) (see_Time lib)))"

definition see_ApolloNetworkPoolStatus :: "('f, 'v) library_see \<Rightarrow> ('f node, ApolloNetworkPoolStatus_m, 'v) reader" where
  "see_ApolloNetworkPoolStatus lib =
     see_struct (\<lambda>x. VBool (npsm_IsSynced x)) npsm_Allocations
       (see_map (see_LoadBalancerAllocateStatus lib) get_LoadBalancerAllocateStatus)"

definition see_ApolloNetworkPool :: "('f, 'v) library_see \<Rightarrow> ('f node, 'f ApolloNetworkPool_m, 'v) reader" where
  "see_ApolloNetworkPool lib =
     see_struct (\<lambda>x. flat_TypeMeta (npm_TypeMeta x)) (\<lambda>x. (npm_ObjectMeta x, npm_Spec x, npm_Status x))
       (see_pair (lib ObjectMeta) (see_pair (see_ApolloNetworkPoolSpec lib) (see_ApolloNetworkPoolStatus lib)))"

definition see_ApolloNetworkPoolList :: "('f, 'v) library_see \<Rightarrow> ('f node, 'f ApolloNetworkPoolList_m, 'v) reader" where
  "see_ApolloNetworkPoolList lib =
     see_struct (\<lambda>x. flat_TypeMeta (nplm_TypeMeta x)) (\<lambda>x. (nplm_ListMeta x, nplm_Items x))
       (see_pair (lib ListMeta) (see_slice (see_ApolloNetworkPool lib) get_ApolloNetworkPool))"

section \<open>The copies obey the law\<close>

interpretation PortBinding: deep_copyable see_PortBinding PortBinding_DeepCopyInto
  unfolding see_PortBinding_def
  by (rule struct_copyable [where upd = "\<lambda>r x. x\<lparr>pbm_BindingConfig := r\<rparr>"], (rule copy_intros)+)
    (simp_all add: PortBinding_DeepCopyInto_def Let_def)

interpretation PortRange: deep_copyable see_PortRange PortRange_DeepCopyInto
  unfolding see_PortRange_def
  by (rule struct_copyable [where upd = "\<lambda>r x. x\<lparr>prm_ExcludedPorts := r\<rparr>"], (rule copy_intros)+)
    (simp_all add: PortRange_DeepCopyInto_def Let_def)

interpretation PortAllocationSpec: deep_copyable see_PortAllocationSpec PortAllocationSpec_DeepCopyInto
  unfolding see_PortAllocationSpec_def
  by (rule struct_copyable [where upd = "\<lambda>r x. x\<lparr>asm_PortBindings := r\<rparr>"],
      (rule copy_intros PortBinding.deep_copyable_axioms)+)
    (simp_all add: PortAllocationSpec_DeepCopyInto_def Let_def)

text \<open>What is relied on of the libraries: their deep copies are deep copies.\<close>

definition library_copies :: "('f, 'v) library_see \<Rightarrow> 'f library_copy \<Rightarrow> bool" where
  "library_copies lib_see lib \<longleftrightarrow> (\<forall>k. deep_copyable (lib_see k) (lib k))"

lemma library_copyable: "library_copies lib_see lib \<Longrightarrow> deep_copyable (lib_see k) (lib k)"
  by (simp add: library_copies_def)

lemma Time_copyable: "library_copies lib_see lib \<Longrightarrow> deep_copyable (see_Time lib_see) (Time_DeepCopy lib)"
  unfolding see_Time_def Time_DeepCopy_def by (intro copy_intros library_copyable)

lemma BindingStatus_copyable:
  assumes "library_copies lib_see lib"
  shows "deep_copyable (see_BindingStatus lib_see) (BindingStatus_DeepCopyInto lib)"
  unfolding see_BindingStatus_def
  by (rule struct_copyable [where upd = "\<lambda>(p, b, c) x. x\<lparr>bsm_LastProbeTime := p, bsm_BoundAt := b, bsm_LoadBalancerConfig := c\<rparr>"],
      (rule copy_intros Time_copyable assms)+)
    (simp_all add: BindingStatus_DeepCopyInto_def copy_pair_def Let_def split_def)


lemma PortAllocationStatus_copyable:
  assumes "library_copies lib_see lib"
  shows "deep_copyable (see_PortAllocationStatus lib_see) (PortAllocationStatus_DeepCopyInto lib)"
  unfolding see_PortAllocationStatus_def
  by (rule struct_copyable [where upd = "\<lambda>(s, a, b, u, c) x. x\<lparr>stm_BindingStatuses := s, stm_AllocatedAt := a,
        stm_BoundAt := b, stm_LastUpdated := u, stm_Conditions := c\<rparr>"],
      (rule copy_intros Time_copyable BindingStatus_copyable library_copyable assms)+)
    (simp_all add: PortAllocationStatus_DeepCopyInto_def copy_pair_def Let_def split_def)

lemma PortAllocation_copyable:
  assumes "library_copies lib_see lib"
  shows "deep_copyable (see_PortAllocation lib_see) (PortAllocation_DeepCopyInto lib)"
  unfolding see_PortAllocation_def
  by (rule struct_copyable [where upd = "\<lambda>(m, s, t) x. x\<lparr>pam_ObjectMeta := m, pam_Spec := s, pam_Status := t\<rparr>"],
      (rule copy_intros PortAllocationSpec.deep_copyable_axioms PortAllocationStatus_copyable library_copyable assms)+)
    (simp_all add: PortAllocation_DeepCopyInto_def copy_pair_def Let_def split_def)

lemma PortAllocationList_copyable:
  assumes "library_copies lib_see lib"
  shows "deep_copyable (see_PortAllocationList lib_see) (PortAllocationList_DeepCopyInto lib)"
  unfolding see_PortAllocationList_def
  by (rule struct_copyable [where upd = "\<lambda>(m, i) x. x\<lparr>alm_ListMeta := m, alm_Items := i\<rparr>"],
      (rule copy_intros PortAllocation_copyable library_copyable assms)+)
    (simp_all add: PortAllocationList_DeepCopyInto_def copy_pair_def Let_def split_def)

lemma ApolloNetworkPoolSpec_copyable:
  assumes "library_copies lib_see lib"
  shows "deep_copyable (see_ApolloNetworkPoolSpec lib_see) (ApolloNetworkPoolSpec_DeepCopyInto lib)"
  unfolding see_ApolloNetworkPoolSpec_def
  by (rule struct_copyable [where upd = "\<lambda>(l, r, s) x. x\<lparr>psm_LoadBalancers := l, psm_PortRange := r, psm_PodSelector := s\<rparr>"],
      (rule copy_intros PortRange.deep_copyable_axioms library_copyable assms)+)
    (simp_all add: ApolloNetworkPoolSpec_DeepCopyInto_def copy_pair_def Let_def split_def)

lemma LoadBalancerAllocateStatus_copyable:
  assumes "library_copies lib_see lib"
  shows "deep_copyable (see_LoadBalancerAllocateStatus lib_see) (LoadBalancerAllocateStatus_DeepCopyInto lib)"
  unfolding see_LoadBalancerAllocateStatus_def
  by (rule struct_copyable [where upd = "\<lambda>(a, p, u) x. x\<lparr>lasm_AllocatedPorts := a, lasm_PrewarmedPorts := p, lasm_LastUpdated := u\<rparr>"],
      (rule copy_intros Time_copyable PortAllocation_copyable assms)+)
    (simp_all add: LoadBalancerAllocateStatus_DeepCopyInto_def copy_pair_def Let_def split_def)

lemma ApolloNetworkPoolStatus_copyable:
  assumes "library_copies lib_see lib"
  shows "deep_copyable (see_ApolloNetworkPoolStatus lib_see) (ApolloNetworkPoolStatus_DeepCopyInto lib)"
  unfolding see_ApolloNetworkPoolStatus_def
  by (rule struct_copyable [where upd = "\<lambda>r x. x\<lparr>npsm_Allocations := r\<rparr>"],
      rule map_copyable [OF through_new_copyable],
      rule LoadBalancerAllocateStatus_copyable [OF assms], (rule injected_nodes)+)
    (simp_all add: ApolloNetworkPoolStatus_DeepCopyInto_def Let_def split_def)

lemma ApolloNetworkPool_copyable:
  assumes "library_copies lib_see lib"
  shows "deep_copyable (see_ApolloNetworkPool lib_see) (ApolloNetworkPool_DeepCopyInto lib)"
  unfolding see_ApolloNetworkPool_def
  by (rule struct_copyable [where upd = "\<lambda>(m, s, t) x. x\<lparr>npm_ObjectMeta := m, npm_Spec := s, npm_Status := t\<rparr>"],
      (rule copy_intros ApolloNetworkPoolSpec_copyable ApolloNetworkPoolStatus_copyable library_copyable assms)+)
    (simp_all add: ApolloNetworkPool_DeepCopyInto_def copy_pair_def Let_def split_def)

lemma ApolloNetworkPoolList_copyable:
  assumes "library_copies lib_see lib"
  shows "deep_copyable (see_ApolloNetworkPoolList lib_see) (ApolloNetworkPoolList_DeepCopyInto lib)"
  unfolding see_ApolloNetworkPoolList_def
  by (rule struct_copyable [where upd = "\<lambda>(m, i) x. x\<lparr>nplm_ListMeta := m, nplm_Items := i\<rparr>"],
      (rule copy_intros ApolloNetworkPool_copyable library_copyable assms)+)
    (simp_all add: ApolloNetworkPoolList_DeepCopyInto_def copy_pair_def Let_def split_def)

section \<open>Copies share nothing with their originals\<close>

text \<open>
  A copying method isolates: the copy of nil is nil, nothing that was in memory changes,
  the copy has the contents of the original, no address is reached from both, and each of
  the two keeps its contents whatever is written to all other addresses.
\<close>

definition isolates :: "('n, pointer, 'v) reader \<Rightarrow> (pointer \<Rightarrow> 'n heap \<Rightarrow> pointer \<times> 'n heap) \<Rightarrow> bool" where
  "isolates see method \<longleftrightarrow>
     (\<forall>h p v A q h'. see h p = Some (v, A) \<longrightarrow> method p h = (q, h') \<longrightarrow>
        (q = None \<longleftrightarrow> p = None) \<and> take (length h) h' = h \<and>
        (\<exists>B. see h' q = Some (v, B) \<and> A \<inter> B = {} \<and>
           (\<forall>h''. (\<forall>a\<in>A. a < length h'' \<and> h'' ! a = h' ! a) \<longrightarrow> see h'' p = Some (v, A)) \<and>
           (\<forall>h''. (\<forall>b\<in>B. b < length h'' \<and> h'' ! b = h' ! b) \<longrightarrow> see h'' q = Some (v, B))))"

lemma copy_ptr_isolates:
  assumes "deep_copyable see copy" "injected put proj"
  shows "isolates (see_ptr see proj) (copy_ptr copy put proj)"
  unfolding isolates_def
proof (intro allI impI)
  fix h p v A q h'
  assume p: "see_ptr see proj h p = Some (v, A)" and q: "copy_ptr copy put proj p h = (q, h')"
  note law = ptr_copyable [OF assms]
  obtain t B where t: "h' = h @ t" "see_ptr see proj h' q = Some (v, B)" "B \<subseteq> {length h..<length (h @ t)}"
    using deep_copyable.copies [OF law p] q by auto
  have nil: "q = None \<longleftrightarrow> p = None"
    using p q by (cases p) (auto simp: see_ptr_def copy_ptr_def bind_eq_Some_conv Let_def split: prod.splits)
  have "A \<subseteq> {..<length h}" by (rule deep_copyable.reach_bounded [OF law p])
  with t have "A \<inter> B = {}" by fastforce
  moreover have "see_ptr see proj h'' p = Some (v, A)" if "\<forall>a\<in>A. a < length h'' \<and> h'' ! a = h' ! a" for h''
    by (rule deep_copyable.frame [OF law deep_copyable.see_extended [OF law p, of t, folded t(1)] that])
  moreover have "see_ptr see proj h'' q = Some (v, B)" if "\<forall>b\<in>B. b < length h'' \<and> h'' ! b = h' ! b" for h''
    by (rule deep_copyable.frame [OF law t(2) that])
  ultimately show "(q = None \<longleftrightarrow> p = None) \<and> take (length h) h' = h \<and>
      (\<exists>B. see_ptr see proj h' q = Some (v, B) \<and> A \<inter> B = {} \<and>
         (\<forall>h''. (\<forall>a\<in>A. a < length h'' \<and> h'' ! a = h' ! a) \<longrightarrow> see_ptr see proj h'' p = Some (v, A)) \<and>
         (\<forall>h''. (\<forall>b\<in>B. b < length h'' \<and> h'' ! b = h' ! b) \<longrightarrow> see_ptr see proj h'' q = Some (v, B)))"
    using nil t by auto
qed

lemma deep_copy_objects:
  "PortAllocation_DeepCopyObject lib = PortAllocation_DeepCopy lib"
  "PortAllocationList_DeepCopyObject lib = PortAllocationList_DeepCopy lib"
  "ApolloNetworkPool_DeepCopyObject lib = ApolloNetworkPool_DeepCopy lib"
  "ApolloNetworkPoolList_DeepCopyObject lib = ApolloNetworkPoolList_DeepCopy lib"
  by (intro ext, simp add: PortAllocation_DeepCopyObject_def PortAllocationList_DeepCopyObject_def
      ApolloNetworkPool_DeepCopyObject_def ApolloNetworkPoolList_DeepCopyObject_def split: prod.splits option.splits)+

lemmas deep_copy_defs =
  PortAllocation_DeepCopy_def PortAllocationList_DeepCopy_def ApolloNetworkPool_DeepCopy_def
  ApolloNetworkPoolList_DeepCopy_def ApolloNetworkPoolSpec_DeepCopy_def ApolloNetworkPoolStatus_DeepCopy_def
  LoadBalancerAllocateStatus_DeepCopy_def PortAllocationSpec_DeepCopy_def PortAllocationStatus_DeepCopy_def
  PortBinding_DeepCopy_def BindingStatus_DeepCopy_def PortRange_DeepCopy_def BindingConfig_DeepCopy_def
  LoadBalancerRef_DeepCopy_def PodInfo_DeepCopy_def PodPortAllocation_DeepCopy_def PrewarmConfig_DeepCopy_def

lemmas flat_copy_defs =
  BindingConfig_DeepCopyInto_def LoadBalancerRef_DeepCopyInto_def PodInfo_DeepCopyInto_def
  PodPortAllocation_DeepCopyInto_def PrewarmConfig_DeepCopyInto_def

lemmas object_copyable =
  PortAllocation_copyable PortAllocationList_copyable ApolloNetworkPool_copyable ApolloNetworkPoolList_copyable
  ApolloNetworkPoolSpec_copyable ApolloNetworkPoolStatus_copyable LoadBalancerAllocateStatus_copyable
  PortAllocationStatus_copyable BindingStatus_copyable
  PortAllocationSpec.deep_copyable_axioms PortBinding.deep_copyable_axioms PortRange.deep_copyable_axioms

text \<open>
  C21. Every copying method of the API types isolates, provided those of the libraries copy
  deeply: the copy of an object, a list or a part of one has the same contents and shares no
  memory with the original.
\<close>

theorem deep_copies_isolate:
  assumes "library_copies lib_see lib"
  shows "isolates (see_ptr (see_ApolloNetworkPool lib_see) get_ApolloNetworkPool) (ApolloNetworkPool_DeepCopyObject lib) \<and>
    isolates (see_ptr (see_ApolloNetworkPoolList lib_see) get_ApolloNetworkPoolList) (ApolloNetworkPoolList_DeepCopyObject lib) \<and>
    isolates (see_ptr (see_PortAllocation lib_see) get_PortAllocation) (PortAllocation_DeepCopyObject lib) \<and>
    isolates (see_ptr (see_PortAllocationList lib_see) get_PortAllocationList) (PortAllocationList_DeepCopyObject lib) \<and>
    isolates (see_ptr (see_ApolloNetworkPoolSpec lib_see) get_ApolloNetworkPoolSpec) (ApolloNetworkPoolSpec_DeepCopy lib) \<and>
    isolates (see_ptr (see_ApolloNetworkPoolStatus lib_see) get_ApolloNetworkPoolStatus) (ApolloNetworkPoolStatus_DeepCopy lib) \<and>
    isolates (see_ptr (see_LoadBalancerAllocateStatus lib_see) get_LoadBalancerAllocateStatus)
      (LoadBalancerAllocateStatus_DeepCopy lib) \<and>
    isolates (see_ptr see_PortAllocationSpec get_PortAllocationSpec) PortAllocationSpec_DeepCopy \<and>
    isolates (see_ptr (see_PortAllocationStatus lib_see) get_PortAllocationStatus) (PortAllocationStatus_DeepCopy lib) \<and>
    isolates (see_ptr see_PortBinding get_PortBinding) PortBinding_DeepCopy \<and>
    isolates (see_ptr (see_BindingStatus lib_see) get_BindingStatus) (BindingStatus_DeepCopy lib) \<and>
    isolates (see_ptr see_PortRange get_PortRange) PortRange_DeepCopy \<and>
    isolates (see_ptr (see_flat flat_BindingConfig) get_BindingConfig) BindingConfig_DeepCopy \<and>
    isolates (see_ptr (see_flat flat_LoadBalancerRef) get_LoadBalancerRef) LoadBalancerRef_DeepCopy \<and>
    isolates (see_ptr (see_flat flat_PodInfo) get_PodInfo) PodInfo_DeepCopy \<and>
    isolates (see_ptr (see_flat flat_PodPortAllocation) get_PodPortAllocation) PodPortAllocation_DeepCopy \<and>
    isolates (see_ptr (see_flat flat_PrewarmConfig) get_PrewarmConfig) PrewarmConfig_DeepCopy"
  unfolding deep_copy_objects deep_copy_defs flat_copy_defs
  by (intro conjI; rule copy_ptr_isolates, rule object_copyable flat_copyable, (rule assms injected_nodes)+)

section \<open>Writing a status\<close>

text \<open>
  What updatePoolStatus (apollonetworkpool\_controller.go) does to the pool it has read: it
  makes the map if there is none and writes the entries into it, in place.
\<close>

definition record_status ::
  "(string \<times> LoadBalancerAllocateStatus_m) list \<Rightarrow> 'f ApolloNetworkPool_m \<Rightarrow> 'f memory \<Rightarrow> 'f ApolloNetworkPool_m \<times> 'f memory" where
  "record_status statuses latestPool h =
     (let (allocations, h) =
        (case npsm_Allocations (npm_Status latestPool) of None \<Rightarrow> (length h, h @ [Map []]) | Some m \<Rightarrow> (m, h))
      in (latestPool\<lparr>npm_Status := \<lparr>npsm_Allocations = Some allocations, npsm_IsSynced = True\<rparr>\<rparr>,
          fold (\<lambda>(lbID, lbStatus). set_entry allocations lbID (NLoadBalancerAllocateStatus lbStatus)) statuses h))"

lemma set_entry_elsewhere:
  "length (set_entry m k n h) = length h" "a \<noteq> m \<Longrightarrow> set_entry m k n h ! a = h ! a"
  by (simp_all add: set_entry_def split: cell.splits)

lemma fold_set_entry_elsewhere:
  "length (fold (\<lambda>(k, n). set_entry m k (f n)) kns h) = length h"
  "a \<noteq> m \<Longrightarrow> fold (\<lambda>(k, n). set_entry m k (f n)) kns h ! a = h ! a"
  by (induction kns arbitrary: h) (auto simp: set_entry_elsewhere)

lemma record_status_elsewhere:
  assumes "record_status statuses x h = (x', h')" "a < length h" "npsm_Allocations (npm_Status x) \<noteq> Some a"
  shows "a < length h' \<and> h' ! a = h ! a"
  using assms
  by (auto simp: record_status_def fold_set_entry_elsewhere nth_append split: option.splits)

lemma see_pool_map:
  assumes "see_ApolloNetworkPool lib_see h x = Some (v, A)" "npsm_Allocations (npm_Status x) = Some m"
  obtains c1 c2 c3 c4 kxs vs where "m \<in> A" "entries get_LoadBalancerAllocateStatus h m = Some kxs" "length vs = length kxs"
    "v = VStruct [c1, VStruct [c2, VStruct [c3, VStruct [c4, VMap (zip (map fst kxs) vs)]]]]"
proof -
  obtain w1 A1 w2 A2 w3 A3 where parts: "see_ApolloNetworkPoolStatus lib_see h (npm_Status x) = Some (w3, A3)"
    "v = VStruct [flat_TypeMeta (npm_TypeMeta x), VStruct [w1, VStruct [w2, w3]]]" "A = A1 \<union> (A2 \<union> A3)"
    using assms(1) by (auto simp: see_ApolloNetworkPool_def see_struct_def see_pair_def bind_eq_Some_conv)
  then obtain kxs ps where "entries get_LoadBalancerAllocateStatus h m = Some kxs"
    "those (map (see_LoadBalancerAllocateStatus lib_see h \<circ> snd) kxs) = Some ps" "m \<in> A3"
    "w3 = VStruct [VBool (npsm_IsSynced (npm_Status x)), VMap (zip (map fst kxs) (map fst ps))]"
    using assms(2) by (auto simp: see_ApolloNetworkPoolStatus_def see_struct_def see_map_def bind_eq_Some_conv)
  with parts that [of kxs "map fst ps"] show ?thesis
    by (auto simp: those_map_iff dest: list_all2_lengthD)
qed

lemma entries_cell:
  assumes "entries get h m = Some kxs"
  obtains kvs where "m < length h" "h ! m = Map kvs" "map fst kvs = map fst kxs"
proof -
  have "\<exists>kvs. m < length h \<and> h ! m = Map kvs \<and> map fst kvs = map fst kxs"
    using assms by (auto simp: entries_def those_map_iff map_fst_zip dest: list_all2_lengthD split: if_splits cell.splits)
  then show ?thesis using that by blast
qed

lemma shared_map_changes:
  assumes p: "see_ptr (see_ApolloNetworkPool lib_see) get_ApolloNetworkPool h (Some a) = Some (v, A)"
    and x: "deref get_ApolloNetworkPool h a = Some x" "npsm_Allocations (npm_Status x) = Some m"
    and kxs: "entries get_LoadBalancerAllocateStatus h m = Some kxs" "lbID \<notin> fst ` set kxs"
    and writes: "record_status [(lbID, lbStatus)] x h = (x', h')"
  shows "see_ptr (see_ApolloNetworkPool lib_see) get_ApolloNetworkPool h' (Some a) \<noteq> Some (v, A')"
proof
  assume p': "see_ptr (see_ApolloNetworkPool lib_see) get_ApolloNetworkPool h' (Some a) = Some (v, A')"
  obtain kvs where kvs: "m < length h" "h ! m = Map kvs" "map fst kvs = map fst kxs"
    using kxs(1) by (rule entries_cell)
  have "m \<noteq> a" using x(1) kvs(2) by (auto simp: deref_def split: if_splits)
  with record_status_elsewhere [OF writes, of a] x have "deref get_ApolloNetworkPool h' a = Some x"
    by (auto simp: deref_def split: if_splits)
  then obtain w' B' where w': "see_ApolloNetworkPool lib_see h' x = Some (w', B')" "v = VPtr w'"
    using p' by (auto simp: see_ptr_def bind_eq_Some_conv)
  obtain w B where w: "see_ApolloNetworkPool lib_see h x = Some (w, B)" "v = VPtr w"
    using p x(1) by (auto simp: see_ptr_def bind_eq_Some_conv)
  have "h' = set_entry m lbID (NLoadBalancerAllocateStatus lbStatus) h"
    using writes x(2) by (simp add: record_status_def)
  moreover have "lbID \<notin> set (map fst kvs)" unfolding kvs(3) using kxs(2) by simp
  ultimately have h'm: "h' ! m = Map (kvs @ [(lbID, NLoadBalancerAllocateStatus lbStatus)])"
    using kvs(1,2) by (simp add: set_entry_def put_new_key)
  obtain c1 c2 c3 c4 kxs1 vs1 where 1: "entries get_LoadBalancerAllocateStatus h m = Some kxs1" "length vs1 = length kxs1"
    "w = VStruct [c1, VStruct [c2, VStruct [c3, VStruct [c4, VMap (zip (map fst kxs1) vs1)]]]]"
    by (rule see_pool_map [OF w(1) x(2)])
  obtain d1 d2 d3 d4 kxs2 vs2 where 2: "entries get_LoadBalancerAllocateStatus h' m = Some kxs2" "length vs2 = length kxs2"
    "w' = VStruct [d1, VStruct [d2, VStruct [d3, VStruct [d4, VMap (zip (map fst kxs2) vs2)]]]]"
    by (rule see_pool_map [OF w'(1) x(2)])
  obtain kvs2 where kvs2: "h' ! m = Map kvs2" "map fst kvs2 = map fst kxs2"
    using 2(1) by (rule entries_cell)
  from kvs2(1) h'm have "kvs2 = kvs @ [(lbID, NLoadBalancerAllocateStatus lbStatus)]" by simp
  with kvs2(2) kvs(3) have "map fst kxs2 = map fst kxs @ [lbID]" by simp
  then have "length (map fst kxs2) = Suc (length kxs)" by simp
  moreover have "zip (map fst kxs1) vs1 = zip (map fst kxs2) vs2" "kxs1 = kxs"
    using 1 2 kxs(1) w(2) w'(2) by simp_all
  then have "length (zip (map fst kxs) vs1) = length (zip (map fst kxs2) vs2)" by simp
  then have "length kxs = length kxs2" using 1(2) 2(2) \<open>kxs1 = kxs\<close> by simp
  ultimately show False by simp
qed

text \<open>
  C22. A pool is read from the cache as a deep copy, and updatePoolStatus writes the status
  into that copy in place; the pool in the cache keeps its contents, whether or not the
  update is accepted later. This needs the deep copy: after a plain assignment of the
  struct the map is shared, and the first entry of a new load balancer shows in the cache.
\<close>

theorem status_writes_spare_the_cache:
  assumes lib: "library_copies lib_see lib"
    and cached: "see_ptr (see_ApolloNetworkPool lib_see) get_ApolloNetworkPool h (Some cachedPool) = Some (v, A)"
  shows "(\<forall>q h1 latestPool statuses latestPool' h2.
       ApolloNetworkPool_DeepCopy lib (Some cachedPool) h = (Some q, h1) \<longrightarrow>
       deref get_ApolloNetworkPool h1 q = Some latestPool \<longrightarrow>
       record_status statuses latestPool h1 = (latestPool', h2) \<longrightarrow>
       see_ptr (see_ApolloNetworkPool lib_see) get_ApolloNetworkPool h2 (Some cachedPool) = Some (v, A)) \<and>
    (\<forall>x m kxs lbID lbStatus x' h2.
       deref get_ApolloNetworkPool h cachedPool = Some x \<longrightarrow> npsm_Allocations (npm_Status x) = Some m \<longrightarrow>
       entries get_LoadBalancerAllocateStatus h m = Some kxs \<longrightarrow> lbID \<notin> fst ` set kxs \<longrightarrow>
       record_status [(lbID, lbStatus)] x h = (x', h2) \<longrightarrow>
       see_ptr (see_ApolloNetworkPool lib_see) get_ApolloNetworkPool h2 (Some cachedPool) \<noteq> Some (v, A))"
proof (intro conjI allI impI)
  fix q h1 latestPool statuses latestPool' h2
  assume copy: "ApolloNetworkPool_DeepCopy lib (Some cachedPool) h = (Some q, h1)"
    and latest: "deref get_ApolloNetworkPool h1 q = Some latestPool"
    and writes: "record_status statuses latestPool h1 = (latestPool', h2)"
  have "isolates (see_ptr (see_ApolloNetworkPool lib_see) get_ApolloNetworkPool) (ApolloNetworkPool_DeepCopy lib)"
    unfolding ApolloNetworkPool_DeepCopy_def
    by (rule copy_ptr_isolates [OF ApolloNetworkPool_copyable [OF lib]], rule injected_nodes)
  with cached copy obtain B where
    B: "see_ptr (see_ApolloNetworkPool lib_see) get_ApolloNetworkPool h1 (Some q) = Some (v, B)" "A \<inter> B = {}"
    and old: "take (length h) h1 = h"
    and keep: "\<And>h''. \<forall>a\<in>A. a < length h'' \<and> h'' ! a = h1 ! a \<Longrightarrow>
      see_ptr (see_ApolloNetworkPool lib_see) get_ApolloNetworkPool h'' (Some cachedPool) = Some (v, A)"
    unfolding isolates_def by blast
  have "A \<subseteq> {..<length h}"
    by (rule deep_copyable.reach_bounded [OF ptr_copyable [OF ApolloNetworkPool_copyable [OF lib]] cached]) (rule injected_nodes)
  moreover have "length h \<le> length h1"
    using old by (metis nat_le_linear take_all_iff)
  moreover have "npsm_Allocations (npm_Status latestPool) \<noteq> Some a" if "a \<in> A" for a
  proof
    assume a: "npsm_Allocations (npm_Status latestPool) = Some a"
    obtain w C where w: "see_ApolloNetworkPool lib_see h1 latestPool = Some (w, C)" "C \<subseteq> B"
      using B(1) latest by (auto simp: see_ptr_def bind_eq_Some_conv)
    have "a \<in> C" by (rule see_pool_map [OF w(1) a])
    with w B(2) that show False by blast
  qed
  ultimately show "see_ptr (see_ApolloNetworkPool lib_see) get_ApolloNetworkPool h2 (Some cachedPool) = Some (v, A)"
    using record_status_elsewhere [OF writes] by (intro keep) fastforce
next
  show "see_ptr (see_ApolloNetworkPool lib_see) get_ApolloNetworkPool h2 (Some cachedPool) \<noteq> Some (v, A)"
    if "deref get_ApolloNetworkPool h cachedPool = Some x" "npsm_Allocations (npm_Status x) = Some m"
      "entries get_LoadBalancerAllocateStatus h m = Some kxs" "lbID \<notin> fst ` set kxs"
      "record_status [(lbID, lbStatus)] x h = (x', h2)"
    for x m kxs lbID lbStatus x' h2
    by (rule shared_map_changes [OF cached that])
qed

section \<open>An instance\<close>

text \<open>A library whose structs are a name and a map of labels, and a pool with a status in memory.\<close>

definition sample_see :: "(string \<times> pointer, unit) library_see" where
  "sample_see k = see_struct (\<lambda>x. VString (fst x)) snd (see_map (see_flat VString) get_String)"

definition sample_copy :: "(string \<times> pointer) library_copy" where
  "sample_copy k x h = (case copy_map copy_flat NString get_String (snd x) h of (r, h') \<Rightarrow> ((fst x, r), h'))"

lemma sample_library: "library_copies sample_see sample_copy"
  unfolding library_copies_def sample_see_def
  by (rule allI, rule struct_copyable [where upd = "\<lambda>r x. (fst x, r)"], (rule copy_intros)+) (simp_all add: sample_copy_def)

definition sample_memory :: "(string \<times> pointer) memory" where
  "sample_memory =
     [Array [Some (NApolloNetworkPool
        \<lparr>npm_TypeMeta = zero_type_meta, npm_ObjectMeta = (''pool'', Some 1),
         npm_Spec = \<lparr>psm_LoadBalancers = Some \<lparr>gs_array = 2, gs_off = 0, gs_len = 1\<rparr>, psm_ISPLineType = ISPLineTypeBGP,
           psm_PortRange = \<lparr>prm_Min = 30000, prm_Max = 30009, prm_ExcludedPorts = Some \<lparr>gs_array = 3, gs_off = 1, gs_len = 2\<rparr>\<rparr>,
           psm_PrewarmConfig = \<lparr>pw_Enabled = True, pw_BufferSize = 1\<rparr>, psm_PodSelector = None\<rparr>,
         npm_Status = \<lparr>npsm_Allocations = Some 4, npsm_IsSynced = False\<rparr>\<rparr>)],
      Map [(''team'', NString ''a'')],
      Array [Some (NLoadBalancerRef \<lparr>lb_ID = ''lb-1'', lb_Region = ''r'', lb_ResourceGroup = '''', lb_Provider = ''p''\<rparr>)],
      Array [Some (NInt32 1), Some (NInt32 30001), Some (NInt32 30002)],
      Map [(''lb-1'', NLoadBalancerAllocateStatus
        \<lparr>lasm_Phase = '''', lasm_AllocatedPorts = Some \<lparr>gs_array = 5, gs_off = 0, gs_len = 1\<rparr>, lasm_PrewarmedPorts = None,
         lasm_TotalPorts = 8, lasm_AllocatedCount = 1, lasm_PrewarmedCount = 1, lasm_AvailableCount = 6,
         lasm_LastUpdated = Some 7, lasm_IsSynced = True\<rparr>)],
      Array [Some (NPortAllocation
        \<lparr>pam_TypeMeta = zero_type_meta, pam_ObjectMeta = (''pool-pod'', Some 1),
         pam_Spec = \<lparr>asm_PodInfo = \<lparr>pi_Name = ''pod'', pi_Namespace = ''ns'', pi_UID = '''', pi_PodIP = ''''\<rparr>,
           asm_PortBindings = Some \<lparr>gs_array = 6, gs_off = 0, gs_len = 1\<rparr>\<rparr>,
         pam_Status = \<lparr>stm_Phase = AllocationPhasePending, stm_BindingStatuses = None, stm_AllocatedAt = Some 7,
           stm_BoundAt = None, stm_LastUpdated = None, stm_Conditions = None, stm_Message = '''', stm_ObservedGeneration = 0\<rparr>\<rparr>)],
      Array [Some (NPortBinding
        \<lparr>pbm_PodPort = 80, pbm_LBPort = 30000, pbm_Protocol = ProtocolTCP, pbm_PortName = '''', pbm_BindingType = '''',
         pbm_LoadBalancerRef = \<lparr>lb_ID = ''lb-1'', lb_Region = ''r'', lb_ResourceGroup = '''', lb_Provider = ''p''\<rparr>,
         pbm_BindingConfig = Some 8\<rparr>)],
      Array [Some (NForeign (''now'', None))],
      Array [Some (NBindingConfig \<lparr>bc_TargetWeight = 5, bc_SessionAffinity = ''''\<rparr>)]]"

abbreviation see_sample_pool :: "((string \<times> pointer) node, pointer, unit) reader" where
  "see_sample_pool \<equiv> see_ptr (see_ApolloNetworkPool sample_see) get_ApolloNetworkPool"

lemma sample_in_order: "\<exists>v A. see_sample_pool sample_memory (Some 0) = Some (v, A)"
proof -
  have "\<not> Option.is_none (see_sample_pool sample_memory (Some 0))" by code_simp
  then show ?thesis by (auto simp: Option.is_none_def)
qed

theorem deep_copies_isolate_witness:
  "\<exists>v A B q h'. see_sample_pool sample_memory (Some 0) = Some (v, A) \<and>
     ApolloNetworkPool_DeepCopyObject sample_copy (Some 0) sample_memory = (Some q, h') \<and>
     see_sample_pool h' (Some q) = Some (v, B) \<and> A \<inter> B = {}"
proof -
  obtain v A where see: "see_sample_pool sample_memory (Some 0) = Some (v, A)" using sample_in_order by blast
  obtain q h' where copy: "ApolloNetworkPool_DeepCopyObject sample_copy (Some 0) sample_memory = (q, h')"
    by (metis surj_pair)
  have "isolates see_sample_pool (ApolloNetworkPool_DeepCopyObject sample_copy)"
    using deep_copies_isolate [OF sample_library] by (rule conjunct1)
  with see copy obtain B where "q \<noteq> None" "see_sample_pool h' q = Some (v, B)" "A \<inter> B = {}"
    unfolding isolates_def by blast
  with see copy show ?thesis by blast
qed

definition sample_status :: LoadBalancerAllocateStatus_m where
  "sample_status =
     \<lparr>lasm_Phase = '''', lasm_AllocatedPorts = None, lasm_PrewarmedPorts = None, lasm_TotalPorts = 8,
      lasm_AllocatedCount = 0, lasm_PrewarmedCount = 1, lasm_AvailableCount = 7, lasm_LastUpdated = None, lasm_IsSynced = True\<rparr>"

theorem status_writes_spare_the_cache_witness:
  "\<exists>v A q h1 latestPool latestPool' h2.
     ApolloNetworkPool_DeepCopy sample_copy (Some 0) sample_memory = (Some q, h1) \<and>
     deref get_ApolloNetworkPool h1 q = Some latestPool \<and>
     record_status [(''lb-2'', sample_status)] latestPool h1 = (latestPool', h2) \<and>
     see_sample_pool sample_memory (Some 0) = Some (v, A) \<and> see_sample_pool h2 (Some 0) = Some (v, A)"
proof -
  obtain v A where see: "see_sample_pool sample_memory (Some 0) = Some (v, A)" using sample_in_order by blast
  let ?copy = "ApolloNetworkPool_DeepCopy sample_copy (Some 0) sample_memory"
  have "\<not> Option.is_none (Option.bind (fst ?copy) (deref get_ApolloNetworkPool (snd ?copy)))" by code_simp
  then obtain q latestPool where "fst ?copy = Some q" and latest: "deref get_ApolloNetworkPool (snd ?copy) q = Some latestPool"
    by (auto simp: Option.is_none_def bind_eq_Some_conv)
  then have copy: "?copy = (Some q, snd ?copy)" by (metis prod.collapse)
  obtain latestPool' h2 where written: "record_status [(''lb-2'', sample_status)] latestPool (snd ?copy) = (latestPool', h2)"
    by (metis surj_pair)
  from status_writes_spare_the_cache [OF sample_library see, THEN conjunct1, rule_format, OF copy latest written]
  show ?thesis using see copy latest written by blast
qed

end
