(* ===== verification/Patterns.thy ===== *)
theory Patterns
  imports GoJson
begin

text \<open>
  The regular expressions that the schemas of the custom resources use as patterns: classes
  of characters, sequence, choice and repetition. All of them are anchored at both ends, so a
  pattern is met by whole strings.
\<close>

datatype pattern =
    Blank
  | Never
  | Within "(char \<times> char) list"
  | Either pattern pattern
  | Sequel pattern pattern
  | Many pattern

text \<open>What a pattern means, as a relation.\<close>

inductive denotes :: "pattern \<Rightarrow> string \<Rightarrow> bool" where
  blank: "denotes Blank ''''"
| within: "(lo, hi) \<in> set rs \<Longrightarrow> code lo \<le> code c \<Longrightarrow> code c \<le> code hi \<Longrightarrow> denotes (Within rs) [c]"
| left: "denotes p s \<Longrightarrow> denotes (Either p q) s"
| right: "denotes q s \<Longrightarrow> denotes (Either p q) s"
| sequel: "denotes p s \<Longrightarrow> denotes q t \<Longrightarrow> denotes (Sequel p q) (s @ t)"
| none: "denotes (Many p) ''''"
| more: "denotes p s \<Longrightarrow> denotes (Many p) t \<Longrightarrow> denotes (Many p) (s @ t)"

inductive_simps denotes_simps: "denotes Blank s" "denotes Never s" "denotes (Within rs) s" "denotes (Either p q) s"
  "denotes (Sequel p q) s"

text \<open>The test: what is left to meet after each character.\<close>

fun meets_blank :: "pattern \<Rightarrow> bool" where
  "meets_blank Blank = True"
| "meets_blank Never = False"
| "meets_blank (Within rs) = False"
| "meets_blank (Either p q) = (meets_blank p \<or> meets_blank q)"
| "meets_blank (Sequel p q) = (meets_blank p \<and> meets_blank q)"
| "meets_blank (Many p) = True"

fun left_after :: "char \<Rightarrow> pattern \<Rightarrow> pattern" where
  "left_after c Blank = Never"
| "left_after c Never = Never"
| "left_after c (Within rs) = (if list_ex (\<lambda>(lo, hi). code lo \<le> code c \<and> code c \<le> code hi) rs then Blank else Never)"
| "left_after c (Either p q) = Either (left_after c p) (left_after c q)"
| "left_after c (Sequel p q) =
     (if meets_blank p then Either (Sequel (left_after c p) q) (left_after c q) else Sequel (left_after c p) q)"
| "left_after c (Many p) = Sequel (left_after c p) (Many p)"

definition has_form :: "pattern \<Rightarrow> string \<Rightarrow> bool" where
  "has_form p s \<longleftrightarrow> meets_blank (fold left_after s p)"

lemma meets_blank_denotes: "meets_blank p \<longleftrightarrow> denotes p ''''"
proof (induction p)
  case (Sequel p q)
  then show ?case by (auto simp: denotes_simps)
qed (auto simp: denotes_simps intro: denotes.none)

text \<open>A repetition that starts with a character starts with a nonempty part.\<close>

lemma denotes_Many_Cons:
  "denotes (Many p) (c # s) \<longleftrightarrow> (\<exists>t u. s = t @ u \<and> denotes p (c # t) \<and> denotes (Many p) u)"
proof
  have "denotes q w \<Longrightarrow> q = Many p \<Longrightarrow> w = c # s \<Longrightarrow> \<exists>t u. s = t @ u \<and> denotes p (c # t) \<and> denotes (Many p) u" for q w
    by (induction rule: denotes.induct) (auto simp: append_eq_Cons_conv)
  then show "denotes (Many p) (c # s) \<Longrightarrow> \<exists>t u. s = t @ u \<and> denotes p (c # t) \<and> denotes (Many p) u" by blast
  show "\<exists>t u. s = t @ u \<and> denotes p (c # t) \<and> denotes (Many p) u \<Longrightarrow> denotes (Many p) (c # s)"
    using denotes.more [of p "c # t" for t] by (metis append_Cons)
qed

lemma left_after_denotes: "denotes (left_after c p) s \<longleftrightarrow> denotes p (c # s)"
proof (induction p arbitrary: s)
  case (Within rs)
  show ?case by (auto simp: denotes_simps list_ex_iff)
next
  case (Sequel p q)
  show ?case
    by (auto simp: denotes_simps Sequel meets_blank_denotes Cons_eq_append_conv)
next
  case (Many p)
  show ?case by (simp add: denotes_simps denotes_Many_Cons Many)
qed (auto simp: denotes_simps)

theorem has_form_denotes: "has_form p s \<longleftrightarrow> denotes p s"
  unfolding has_form_def
  by (induction s arbitrary: p) (simp_all add: meets_blank_denotes left_after_denotes)

section \<open>Forms of strings\<close>

definition optional :: "pattern \<Rightarrow> pattern" where
  "optional p = Either Blank p"

fun in_sequence :: "pattern list \<Rightarrow> pattern" where
  "in_sequence [] = Blank"
| "in_sequence (p # ps) = Sequel p (in_sequence ps)"

abbreviation one_char :: "char \<Rightarrow> pattern" where
  "one_char c \<equiv> Within [(c, c)]"

abbreviation digit :: pattern where
  "digit \<equiv> Within [(CHR ''0'', CHR ''9'')]"

text \<open>The format date-time: a date and a time of day of RFC 3339, in the form it has.\<close>

definition date_time :: pattern where
  "date_time =
     in_sequence [digit, digit, digit, digit, one_char (CHR ''-''), digit, digit, one_char (CHR ''-''), digit, digit,
       Within [(CHR ''T'', CHR ''T''), (CHR ''t'', CHR ''t'')],
       digit, digit, one_char (CHR '':''), digit, digit, one_char (CHR '':''), digit, digit,
       optional (in_sequence [one_char (CHR ''.''), digit, Many digit]),
       Either (Within [(CHR ''Z'', CHR ''Z''), (CHR ''z'', CHR ''z'')])
         (in_sequence [Within [(CHR ''+'', CHR ''+''), (CHR ''-'', CHR ''-'')], digit, digit, one_char (CHR '':''), digit, digit])]"

lemma denotes_Sequel_simps:
  "denotes (Sequel Blank q) s = denotes q s" "denotes (Sequel Never q) s = False"
  "denotes (Sequel (Within rs) q) (c # s) =
     (list_ex (\<lambda>(lo, hi). code lo \<le> code c \<and> code c \<le> code hi) rs \<and> denotes q s)"
  "denotes (Sequel q Blank) s = denotes q s"
proof -
  show "denotes (Sequel q Blank) s = denotes q s" by (simp add: denotes_simps)
  show "denotes (Sequel Blank q) s = denotes q s" "denotes (Sequel Never q) s = False" for s by (simp_all add: denotes_simps)
  then show "denotes (Sequel (Within rs) q) (c # s) =
     (list_ex (\<lambda>(lo, hi). code lo \<le> code c \<and> code c \<le> code hi) rs \<and> denotes q s)"
    by (simp flip: left_after_denotes)
qed

lemma denotes_digits: "list_all is_digit ds \<Longrightarrow> denotes (Many digit) ds"
proof (induction ds)
  case (Cons c ds)
  then have "denotes digit [c]" by (auto simp: denotes_simps is_digit_def code_def)
  from denotes.more [OF this Cons.IH] Cons.prems show ?case by simp
qed (rule denotes.none)

text \<open>Lengths are counted in code points, of which a continuation byte starts none.\<close>

definition rune_count :: "string \<Rightarrow> nat" where
  "rune_count s = length (filter (\<lambda>c. \<not> (0x80 \<le> code c \<and> code c < 0xC0)) s)"

end
