(* ===== verification/Schema.thy ===== *)
theory Schema
  imports PodParse Patterns
begin

text \<open>
  The schema of a custom resource, as far as the two resources use it: types, formats,
  properties and required ones, enumerations, lengths, patterns and least values. What a value
  has to meet, what the server drops of it, and the parts of encoding/json that writing and
  reading the API types need. Strings are UTF-8.
\<close>

section \<open>Schemas\<close>

datatype schema =
    SString
  | SDateTime
  | SEnum "string list"
  | SText nat nat "pattern option"
  | SBool
  | SInt32
  | SInt64 "int option"
  | SArray schema
  | SMap schema
  | SObject "(string \<times> schema) list" "string list"

definition parse_int64 :: "string \<Rightarrow> int64 option" where
  "parse_int64 s =
     (let (sg, ds) = num_sign s;
          n = (if sg = [] then int (digits_value ds) else - int (digits_value ds)) in
      if ds \<noteq> [] \<and> list_all is_digit ds \<and> - (2 ^ 63) \<le> n \<and> n < 2 ^ 63 then Some (word_of_int n) else None)"

text \<open>
  No property is nullable: a member that is null counts as absent. Properties the schema does
  not know are not refused. A text has its least and greatest length.
\<close>

fun text_meets :: "string \<Rightarrow> schema \<Rightarrow> bool" where
  "text_meets t SString = True"
| "text_meets t SDateTime = has_form date_time t"
| "text_meets t (SEnum ts) = (t \<in> set ts)"
| "text_meets t (SText least most form) =
     (least \<le> rune_count t \<and> rune_count t \<le> most \<and> (case form of None \<Rightarrow> True | Some p \<Rightarrow> has_form p t))"
| "text_meets t _ = False"

fun number_meets :: "string \<Rightarrow> schema \<Rightarrow> bool" where
  "number_meets n SInt32 = (parse_int32 n \<noteq> None)"
| "number_meets n (SInt64 minimum) =
     (case parse_int64 n of None \<Rightarrow> False | Some w \<Rightarrow> (case minimum of None \<Rightarrow> True | Some least \<Rightarrow> least \<le> sint w))"
| "number_meets n _ = False"

fun meets :: "json \<Rightarrow> schema \<Rightarrow> bool" where
  "meets (JStr t) s = text_meets t s"
| "meets (JBool _) s = (s = SBool)"
| "meets (JNum n) s = number_meets n s"
| "meets (JArr js) s = (case s of SArray e \<Rightarrow> \<forall>j\<in>set js. meets j e | _ \<Rightarrow> False)"
| "meets (JObj ms) s =
     (case s of
        SObject properties required \<Rightarrow>
          (\<forall>r\<in>set required. \<exists>m\<in>set ms. fst m = r \<and> snd m \<noteq> JNull) \<and>
          (\<forall>m\<in>set ms. snd m = JNull \<or> (case map_of properties (fst m) of None \<Rightarrow> True | Some p \<Rightarrow> meets (snd m) p))
      | SMap e \<Rightarrow> \<forall>m\<in>set ms. snd m = JNull \<or> meets (snd m) e
      | _ \<Rightarrow> False)"
| "meets JNull s = False"

text \<open>Unknown members and members that are null are dropped, at every level.\<close>

definition kept_member :: "string \<Rightarrow> json \<Rightarrow> (string \<times> json) list" where
  "kept_member k j = (if j = JNull then [] else [(k, j)])"

fun prune :: "schema \<Rightarrow> json \<Rightarrow> json" where
  "prune s (JObj ms) =
     (case s of
        SObject properties required \<Rightarrow>
          JObj (concat (map (\<lambda>m. case map_of properties (fst m) of
              None \<Rightarrow> [] | Some p \<Rightarrow> kept_member (fst m) (prune p (snd m))) ms))
      | SMap e \<Rightarrow> JObj (concat (map (\<lambda>m. kept_member (fst m) (prune e (snd m))) ms))
      | _ \<Rightarrow> JObj ms)"
| "prune s (JArr js) = (case s of SArray e \<Rightarrow> JArr (map (prune e) js) | _ \<Rightarrow> JArr js)"
| "prune s (JStr t) = JStr t"
| "prune s (JNum n) = JNum n"
| "prune s (JBool b) = JBool b"
| "prune s JNull = JNull"

declare prune.simps(1) [simp del]

section \<open>Writing\<close>

text \<open>Values of encoding/json before they are text. A member tagged omitempty is left out when empty.\<close>

definition omitempty :: "bool \<Rightarrow> string \<Rightarrow> json \<Rightarrow> (string \<times> json) list" where
  "omitempty is_zero k j = (if is_zero then [] else [(k, j)])"

definition marshal_int32 :: "int32 \<Rightarrow> json" where
  "marshal_int32 n = JNum (show_int (sint n))"

definition marshal_int64 :: "int64 \<Rightarrow> json" where
  "marshal_int64 n = JNum (show_int (sint n))"

definition string_omitempty :: "string \<Rightarrow> string \<Rightarrow> (string \<times> json) list" where
  "string_omitempty k s = omitempty (s = '''') k (JStr s)"

definition int32_omitempty :: "string \<Rightarrow> int32 \<Rightarrow> (string \<times> json) list" where
  "int32_omitempty k n = omitempty (n = 0) k (marshal_int32 n)"

definition slice_omitempty :: "string \<Rightarrow> ('a \<Rightarrow> json) \<Rightarrow> 'a list \<Rightarrow> (string \<times> json) list" where
  "slice_omitempty k enc xs = omitempty (xs = []) k (JArr (map enc xs))"

definition marshal_map :: "('a \<Rightarrow> json) \<Rightarrow> (string, 'a) gomap \<Rightarrow> json" where
  "marshal_map enc m = JObj (map (\<lambda>e. (fst e, enc (snd e))) m)"

definition map_omitempty :: "string \<Rightarrow> ('a \<Rightarrow> json) \<Rightarrow> (string, 'a) gomap \<Rightarrow> (string \<times> json) list" where
  "map_omitempty k enc m = omitempty (m = []) k (marshal_map enc m)"

definition pointer_omitempty :: "string \<Rightarrow> ('a \<Rightarrow> json) \<Rightarrow> 'a option \<Rightarrow> (string \<times> json) list" where
  "pointer_omitempty k enc p = (case p of None \<Rightarrow> [] | Some x \<Rightarrow> [(k, enc x)])"

section \<open>Reading\<close>

text \<open>
  The decoder of API objects matches names exactly. A value is decoded into a fresh one; an
  object that becomes a map has every key once.
\<close>

definition decode_int64 :: "json \<Rightarrow> int64 option" where
  "decode_int64 j = (case j of JNum n \<Rightarrow> parse_int64 n | JNull \<Rightarrow> Some 0 | _ \<Rightarrow> None)"

definition decode_bool :: "json \<Rightarrow> bool option" where
  "decode_bool j = (case j of JBool b \<Rightarrow> Some b | JNull \<Rightarrow> Some False | _ \<Rightarrow> None)"

definition decode_map :: "(json \<Rightarrow> 'a option) \<Rightarrow> json \<Rightarrow> (string, 'a) gomap option" where
  "decode_map dec j =
     (case j of
        JObj ms \<Rightarrow> collect (map (\<lambda>m. map_option (Pair (fst m)) (dec (snd m))) ms)
      | JNull \<Rightarrow> Some [] | _ \<Rightarrow> None)"

definition decode_pointer :: "(json \<Rightarrow> 'a option) \<Rightarrow> json \<Rightarrow> 'a option option" where
  "decode_pointer dec j = (case j of JNull \<Rightarrow> Some None | _ \<Rightarrow> map_option Some (dec j))"

text \<open>A member that is decoded by \<open>dec\<close> and stored by \<open>upd\<close>.\<close>

definition into :: "(json \<Rightarrow> 'a option) \<Rightarrow> ('a \<Rightarrow> 'r \<Rightarrow> 'r) \<Rightarrow> json \<Rightarrow> 'r \<Rightarrow> 'r option" where
  "into dec upd j r = map_option (\<lambda>x. upd x r) (dec j)"

abbreviation string_into :: "(string \<Rightarrow> 'r \<Rightarrow> 'r) \<Rightarrow> json \<Rightarrow> 'r \<Rightarrow> 'r option" where
  "string_into \<equiv> into (\<lambda>j. decode_string j '''')"

abbreviation int32_into :: "(int32 \<Rightarrow> 'r \<Rightarrow> 'r) \<Rightarrow> json \<Rightarrow> 'r \<Rightarrow> 'r option" where
  "int32_into \<equiv> into (\<lambda>j. decode_int32 j 0)"

section \<open>Member by member\<close>

named_theorems wire \<open>writing, pruning and reading, member by member\<close>

lemma sint64_range: "- (2 ^ 63) \<le> sint (x :: int64) \<and> sint x < 2 ^ 63"
  using sint_greater_eq [of x] sint_less [of x] by simp

lemma parse_int64_show: "parse_int64 (show_int (sint (x :: int64))) = Some x"
proof -
  have neg: "num_sign (CHR ''-'' # s) = (''-'', s)" for s by (simp add: num_sign_def)
  have pos: "num_sign (show_nat n) = ([], show_nat n)" for n using num_sign_show [of n "[]"] by simp
  show ?thesis
    using sint64_range [of x] show_nat_digits
    by (auto simp: parse_int64_def show_int_def neg pos show_nat_value Let_def)
qed

lemma meets_int32 [simp]: "meets (marshal_int32 n) SInt32"
  by (simp add: marshal_int32_def parse_int32_show)

lemma meets_int64 [simp]:
  "meets (marshal_int64 n) (SInt64 m) \<longleftrightarrow> (case m of None \<Rightarrow> True | Some least \<Rightarrow> least \<le> sint n)"
  by (simp add: marshal_int64_def parse_int64_show)

lemma present_values [simp]:
  "marshal_int32 n \<noteq> JNull" "marshal_int64 m \<noteq> JNull" "marshal_map enc ms \<noteq> JNull"
  by (simp_all add: marshal_int32_def marshal_int64_def marshal_map_def)

lemma marshal_int32_inject [simp]: "marshal_int32 m = marshal_int32 n \<longleftrightarrow> m = n"
  by (metis json.inject(2) marshal_int32_def option.inject parse_int32_show)

definition pruned_members :: "(string \<times> schema) list \<Rightarrow> (string \<times> json) list \<Rightarrow> (string \<times> json) list" where
  "pruned_members properties ms =
     concat (map (\<lambda>m. case map_of properties (fst m) of None \<Rightarrow> [] | Some p \<Rightarrow> kept_member (fst m) (prune p (snd m))) ms)"

lemma prune_object [wire]: "prune (SObject properties required) (JObj ms) = JObj (pruned_members properties ms)"
  by (simp add: prune.simps(1) pruned_members_def)

lemma pruned_members_simps [wire]:
  "pruned_members properties [] = []"
  "pruned_members properties ((k, j) # ms) =
     (case map_of properties k of None \<Rightarrow> [] | Some p \<Rightarrow> kept_member k (prune p j)) @ pruned_members properties ms"
  "pruned_members properties (ms @ ms') = pruned_members properties ms @ pruned_members properties ms'"
  "pruned_members properties (omitempty z k j) =
     (case map_of properties k of None \<Rightarrow> [] | Some p \<Rightarrow> if prune p j = JNull then [] else omitempty z k (prune p j))"
  by (simp_all add: pruned_members_def omitempty_def kept_member_def split: option.split)

lemma kept_member_present [wire]: "j \<noteq> JNull \<Longrightarrow> kept_member k j = [(k, j)]"
  by (simp add: kept_member_def)

lemma prune_present [wire]:
  "prune (SMap e) (marshal_map enc m) \<noteq> JNull" "prune s (JArr js) \<noteq> JNull" "prune s (JObj ms) \<noteq> JNull"
  by (auto simp: marshal_map_def prune.simps(1) split: schema.split)

lemma decode_members_append [wire]:
  "decode_members f (ms @ ms') v = Option.bind (decode_members f ms v) (decode_members f ms')"
  by (induction ms arbitrary: v) (auto split: option.split)

lemma decode_omitempty [wire]:
  "decode_members f (omitempty z k j) v = (if z then Some v else f k j v)"
  by (simp add: omitempty_def split: option.split)

text \<open>An omitted member is the zero value that the field has already.\<close>

lemma omitted [wire]: "(c \<Longrightarrow> v' = v) \<Longrightarrow> (if c then Some v else Some v') = Some v'"
  by simp

lemma into_Some [wire]: "dec j = Some x \<Longrightarrow> into dec upd j r = Some (upd x r)"
  by (simp add: into_def)

lemma bind_Some [wire]: "Option.bind (Some v) f = f v"
  by simp

lemma prune_marshal_int [wire]:
  "prune s (marshal_int32 n) = marshal_int32 n" "prune s (marshal_int64 m) = marshal_int64 m"
  by (simp_all add: marshal_int32_def marshal_int64_def)

lemma decode_basic [wire]:
  "decode_int32 (marshal_int32 n) old = Some n" "decode_int64 (marshal_int64 m) = Some m"
  "decode_string (JStr s) old' = Some s" "decode_bool (JBool b) = Some b"
  by (simp_all add: decode_int32_def marshal_int32_def parse_int32_show decode_int64_def marshal_int64_def parse_int64_show
      decode_string_def decode_bool_def)

section \<open>Types that are stored and read back\<close>

text \<open>
  The contract of a type of the API: the JSON of a value that is \<open>ok\<close> meets the schema, and
  what is read back after the server has dropped what the schema does not know is the part
  that is kept. Slices, maps and pointers of such a type have it too.
\<close>

lemma collect_all: "\<forall>x\<in>set xs. f x = Some (g x) \<Longrightarrow> collect (map f xs) = Some (map g xs)"
  by (induction xs) simp_all

locale stored_form =
  fixes enc :: "'a \<Rightarrow> json" and sch :: schema and dec :: "json \<Rightarrow> 'a option" and kept :: "'a \<Rightarrow> 'a" and ok :: "'a \<Rightarrow> bool"
  assumes fits: "ok x \<Longrightarrow> meets (enc x) sch"
    and read_back: "ok x \<Longrightarrow> dec (prune sch (enc x)) = Some (kept x)"
    and present [wire]: "ok x \<Longrightarrow> prune sch (enc x) \<noteq> JNull"
begin

lemma enc_present: "ok x \<Longrightarrow> enc x \<noteq> JNull"
  using fits [of x] by auto

lemma slice_fits: "list_all ok xs \<Longrightarrow> meets (JArr (map enc xs)) (SArray sch)"
  using fits by (auto simp: list_all_iff)

lemma slice_read_back:
  assumes "list_all ok xs"
  shows "decode_slice dec (prune (SArray sch) (JArr (map enc xs))) = Some (map kept xs)"
  using assms by (simp add: decode_slice_def comp_def collect_all read_back list_all_iff)

lemma map_fits: "list_all (\<lambda>e. ok (snd e)) m \<Longrightarrow> meets (marshal_map enc m) (SMap sch)"
  using fits by (auto simp: marshal_map_def list_all_iff)

lemma map_read_back:
  assumes "list_all (\<lambda>e. ok (snd e)) m"
  shows "decode_map dec (prune (SMap sch) (marshal_map enc m)) = Some (map (\<lambda>(k, x). (k, kept x)) m)"
proof -
  have "concat (map (\<lambda>e. kept_member (fst e) (prune sch (enc (snd e)))) m) = map (\<lambda>e. (fst e, prune sch (enc (snd e)))) m"
    using assms by (induction m) (simp_all add: kept_member_present present)
  then show ?thesis
    using assms
    by (simp add: prune.simps(1) decode_map_def marshal_map_def comp_def split_beta list_all_iff read_back
        collect_all [where g = "\<lambda>e. (fst e, kept (snd e))"])
qed

lemma pointer_read_back: "ok x \<Longrightarrow> decode_pointer dec (prune sch (enc x)) = Some (Some (kept x))"
  using present [of x] read_back [of x] by (cases "prune sch (enc x)") (simp_all add: decode_pointer_def)

end

interpretation str: stored_form JStr SString "\<lambda>j. decode_string j ''''" "\<lambda>s. s" "\<lambda>s. True"
  by unfold_locales (simp_all add: wire)

interpretation i32: stored_form marshal_int32 SInt32 "\<lambda>j. decode_int32 j 0" "\<lambda>n. n" "\<lambda>n. True"
  by unfold_locales (simp_all add: wire)

lemma list_all_True [simp]: "list_all (\<lambda>x. True) xs"
  by (simp add: list_all_iff)

end
