(* ===== verification/Wire.thy ===== *)
theory Wire
  imports Release Schema
begin

text \<open>
  What the allocator sends to the API server: the JSON of an allocation's spec (encoding/json
  with the tags of api/v1), the schema of the custom resource it has to meet
  (config/crd/bases/apollo.io\_portallocations.yaml), and what the status subresource does to
  the status that is sent along.
\<close>

section \<open>Marshalling\<close>

definition marshal_LoadBalancerRef :: "LoadBalancerRef \<Rightarrow> json" where
  "marshal_LoadBalancerRef r =
     JObj ([(''id'', JStr (lb_ID r)), (''region'', JStr (lb_Region r))] @
       string_omitempty ''resourceGroup'' (lb_ResourceGroup r) @ string_omitempty ''provider'' (lb_Provider r))"

definition marshal_PodInfo :: "PodInfo \<Rightarrow> json" where
  "marshal_PodInfo i =
     JObj ([(''name'', JStr (pi_Name i)), (''namespace'', JStr (pi_Namespace i))] @
       string_omitempty ''uid'' (pi_UID i) @ string_omitempty ''podIP'' (pi_PodIP i))"

definition marshal_BindingConfig :: "BindingConfig \<Rightarrow> json" where
  "marshal_BindingConfig c =
     JObj (int32_omitempty ''targetWeight'' (bc_TargetWeight c) @ string_omitempty ''sessionAffinity'' (bc_SessionAffinity c))"

definition marshal_PortBinding :: "PortBinding \<Rightarrow> json" where
  "marshal_PortBinding b =
     JObj ([(''podPort'', marshal_int32 (pb_PodPort b)), (''lbPort'', marshal_int32 (pb_LBPort b)),
        (''protocol'', JStr (pb_Protocol b))] @ string_omitempty ''portName'' (pb_PortName b) @
       [(''bindingType'', JStr (pb_BindingType b)), (''loadBalancerRef'', marshal_LoadBalancerRef (pb_LoadBalancerRef b))] @
       (case pb_BindingConfig b of None \<Rightarrow> [] | Some c \<Rightarrow> [(''bindingConfig'', marshal_BindingConfig c)]))"

text \<open>The bindings have no omitempty, and a nil slice is null.\<close>

definition marshal_PortAllocationSpec :: "PodInfo \<Rightarrow> PortBinding list option \<Rightarrow> json" where
  "marshal_PortAllocationSpec i bs =
     JObj [(''podInfo'', marshal_PodInfo i),
       (''portBindings'', case bs of None \<Rightarrow> JNull | Some bs \<Rightarrow> JArr (map marshal_PortBinding bs))]"

text \<open>tryAllocatePort makes the slice of bindings in either of its branches, so it is never nil.\<close>

definition sent_spec :: "PortAllocation \<Rightarrow> json" where
  "sent_spec a = marshal_PortAllocationSpec (as_PodInfo (pa_Spec a)) (Some (as_PortBindings (pa_Spec a)))"

section \<open>The schema\<close>

definition crd_PodInfo :: schema where
  "crd_PodInfo =
     SObject [(''name'', SString), (''namespace'', SString), (''podIP'', SString), (''uid'', SString)] [''name'', ''namespace'']"

definition crd_BindingConfig :: schema where
  "crd_BindingConfig = SObject [(''sessionAffinity'', SString), (''targetWeight'', SInt32)] []"

definition crd_LoadBalancerRef :: schema where
  "crd_LoadBalancerRef =
     SObject [(''id'', SString), (''provider'', SString), (''region'', SString), (''resourceGroup'', SString)]
       [''id'', ''region'']"

definition crd_PortBinding :: schema where
  "crd_PortBinding =
     SObject [(''bindingConfig'', crd_BindingConfig), (''bindingType'', SString), (''lbPort'', SInt32),
        (''loadBalancerRef'', crd_LoadBalancerRef), (''podPort'', SInt32), (''portName'', SString), (''protocol'', SString)]
       [''bindingType'', ''lbPort'', ''loadBalancerRef'', ''podPort'', ''protocol'']"

definition crd_PortAllocationSpec :: schema where
  "crd_PortAllocationSpec =
     SObject [(''podInfo'', crd_PodInfo), (''portBindings'', SArray crd_PortBinding)] [''podInfo'', ''portBindings'']"

lemma marshal_present [simp]:
  "marshal_LoadBalancerRef r \<noteq> JNull" "marshal_PodInfo i \<noteq> JNull" "marshal_BindingConfig c \<noteq> JNull"
  by (simp_all add: marshal_LoadBalancerRef_def marshal_PodInfo_def marshal_BindingConfig_def)

lemma meets_LoadBalancerRef: "meets (marshal_LoadBalancerRef r) crd_LoadBalancerRef"
  by (simp add: marshal_LoadBalancerRef_def crd_LoadBalancerRef_def string_omitempty_def omitempty_def)

lemma meets_PodInfo: "meets (marshal_PodInfo i) crd_PodInfo"
  by (simp add: marshal_PodInfo_def crd_PodInfo_def string_omitempty_def omitempty_def)

lemma meets_BindingConfig: "meets (marshal_BindingConfig c) crd_BindingConfig"
  by (simp add: marshal_BindingConfig_def crd_BindingConfig_def string_omitempty_def omitempty_def int32_omitempty_def)

lemma meets_PortBinding: "meets (marshal_PortBinding b) crd_PortBinding"
  using meets_LoadBalancerRef meets_BindingConfig
  by (auto simp: marshal_PortBinding_def crd_PortBinding_def string_omitempty_def omitempty_def split: option.splits)

section \<open>Nothing is lost\<close>

lemma marshal_LoadBalancerRef_inject [simp]: "marshal_LoadBalancerRef r = marshal_LoadBalancerRef q \<longleftrightarrow> r = q"
  by (cases r; cases q) (auto simp: marshal_LoadBalancerRef_def string_omitempty_def omitempty_def split: if_splits)

lemma marshal_PodInfo_inject [simp]: "marshal_PodInfo i = marshal_PodInfo j \<longleftrightarrow> i = j"
  by (cases i; cases j) (auto simp: marshal_PodInfo_def string_omitempty_def omitempty_def split: if_splits)

lemma marshal_BindingConfig_inject [simp]: "marshal_BindingConfig c = marshal_BindingConfig d \<longleftrightarrow> c = d"
  by (cases c; cases d) (auto simp: marshal_BindingConfig_def string_omitempty_def omitempty_def int32_omitempty_def split: if_splits)

lemma marshal_PortBinding_inject [simp]: "marshal_PortBinding b = marshal_PortBinding c \<longleftrightarrow> b = c"
  by (cases b; cases c) (auto simp: marshal_PortBinding_def string_omitempty_def omitempty_def split: if_splits option.splits)

lemma marshal_PortAllocationSpec_inject [simp]:
  "marshal_PortAllocationSpec i bs = marshal_PortAllocationSpec j cs \<longleftrightarrow> i = j \<and> bs = cs"
  by (auto simp: marshal_PortAllocationSpec_def inj_map_eq_map inj_def split: option.splits)

text \<open>
  C23. The spec the allocator sends always meets the schema of the custom resource, for any
  pod, ports and load balancer: it is well-typed and has every required field. It would not
  if the slice of bindings were nil (a null there is refused), so it matters that
  tryAllocatePort makes an empty slice for a pod without ports. And nothing is lost: two
  allocations are sent as the same JSON only if their specs are equal.
\<close>

theorem sent_spec_meets_schema:
  "meets (sent_spec a) crd_PortAllocationSpec \<and>
   (meets (marshal_PortAllocationSpec i bs) crd_PortAllocationSpec \<longleftrightarrow> bs \<noteq> None) \<and>
   (sent_spec a = sent_spec b \<longleftrightarrow> pa_Spec a = pa_Spec b)"
proof -
  have "meets (marshal_PortAllocationSpec i (Some bs)) crd_PortAllocationSpec" for i bs
    using meets_PodInfo meets_PortBinding
    by (auto simp: marshal_PortAllocationSpec_def crd_PortAllocationSpec_def)
  moreover have "\<not> meets (marshal_PortAllocationSpec i None) crd_PortAllocationSpec"
    by (simp add: marshal_PortAllocationSpec_def crd_PortAllocationSpec_def)
  ultimately show ?thesis
    by (cases bs) (auto simp: sent_spec_def)
qed

section \<open>The status that is sent along\<close>

text \<open>
  The resource has a status subresource (the marker at port\_allocation\_types.go:170): a create
  stores the object without its status.
\<close>

definition zero_status :: PortAllocationStatus where
  "zero_status =
     \<lparr>st_Phase = '''', st_BindingStatuses = [], st_AllocatedAt = None, st_BoundAt = None, st_LastUpdated = None,
      st_Conditions = [], st_Message = '''', st_ObservedGeneration = 0\<rparr>"

definition drops_status :: "('s, 'e) kube_client \<Rightarrow> bool" where
  "drops_status api \<longleftrightarrow>
     (\<forall>a s b s'. kc_CreateAllocation api a s = (Inr b, s') \<longrightarrow> pa_Status b = zero_status)"

text \<open>No stored allocation has a phase or a time of allocation.\<close>

definition phaseless :: "cluster \<Rightarrow> bool" where
  "phaseless c \<longleftrightarrow>
     (\<forall>a\<in>set (cl_Allocs c). st_Phase (pa_Status a) = '''' \<and> st_AllocatedAt (pa_Status a) = None)"

lemma phaseless_store:
  assumes "phaseless c" and "pa_Status a = zero_status"
  shows "phaseless (store_alloc a c)"
  using assms by (auto simp: phaseless_def zero_status_def)

lemma phaseless_remove: "phaseless c \<Longrightarrow> phaseless (remove_key k c)"
  by (auto simp: phaseless_def)

lemma phaseless_mark: "phaseless c \<Longrightarrow> phaseless (mark_key t k c)"
  by (auto simp: phaseless_def mark_deleting_def)

text \<open>What tryAllocatePort asks for: pending, and allocated at this moment.\<close>

lemma tryAllocatePort_pending:
  assumes "tryAllocatePort api pool n pod ns cps pa s = (Inr a, pa', s')"
  shows "st_Phase (pa_Status a) = AllocationPhasePending \<and> st_AllocatedAt (pa_Status a) = Some (kc_Now api s')"
  using assms by (auto simp: tryAllocatePort_def build_allocation_def split: prod.splits sum.splits option.splits if_splits)

text \<open>No call gives a stored allocation a phase: the one writes it with the creation only.\<close>

lemma AllocatePort_phaseless:
  assumes "consistent_client api view" and "retries_on_conflict api retry" and "drops_status api"
    and "pools_bounded (view s)" and "phaseless (view s)"
  shows "phaseless (view (snd (go_state (AllocatePort api retry pool n pod ns cps pa s))))"
proof (cases "AllocatePort api retry pool n pod ns cps pa s" rule: outcome_cases)
  case (Ok a c s')
  obtain built t t' where "kc_CreateAllocation api built t = (Inr a, t')"
    using AllocatePort_created [OF assms(2) Ok] .
  with assms(3) have "pa_Status a = zero_status" by (auto simp: drops_status_def)
  with AllocatePort_Inr(3) [OF assms(1,2,4) Ok] phaseless_store [OF assms(5)] Ok show ?thesis by simp
qed (use AllocatePort_post [OF assms(1,2,4), of pool n pod ns cps pa] assms(5) in \<open>simp_all add: allocate_post_def\<close>)

lemma ReleasePort_phaseless:
  assumes "consistent_client api view" and "phaseless (view s)"
  shows "phaseless (view (snd (go_state (ReleasePort api pool n pod ns pa s))))"
  using ReleasePort_view_cases [OF assms(1) prod.collapse [symmetric], of pool n pod ns pa s] assms(2)
  by (auto simp: phaseless_remove phaseless_mark)

lemma history_phaseless:
  assumes "history api retry view c0 c" and "consistent_client api view" and "retries_on_conflict api retry"
    and "drops_status api" and "pools_bounded (view (snd c0))" and "phaseless (view (snd c0))"
  shows "pools_bounded (view (snd c)) \<and> phaseless (view (snd c))"
  using assms(1)
proof (induction rule: history.induct)
  case start
  then show ?case using assms by simp
next
  case (allocate pa s pool n pod ns cps)
  then have "pools_bounded (view s)" and "phaseless (view s)" by simp_all
  with allocating.bounded [OF assms(2,3) _ prod.collapse [symmetric]] AllocatePort_phaseless [OF assms(2-4)]
  show ?case by simp
next
  case (release pa s pool n pod ns)
  then have "pools_bounded (view s)" and "phaseless (view s)" by simp_all
  with releasing.bounded [OF assms(2,3) _ prod.collapse [symmetric]] ReleasePort_phaseless [OF assms(2)]
  show ?case by simp
next
  case (elsewhere pa s s')
  then show ?case by (simp add: phaseless_def)
qed

lemma phaseless_list:
  assumes "consistent_client api view" and "phaseless (view s)"
    and "kc_ListAllocations api sel lim s = (Inr l, s')" and "phase \<noteq> ''''"
  shows "GetAllocationsByPhase l phase = []" and "GetPendingAllocations l = []"
proof -
  have "lists_current api view" using assms(1) by (simp add: consistent_client_def)
  with assms(3) have "set (al_Items l) \<subseteq> {a \<in> set (cl_Allocs (view s)). selected_by sel a}"
    unfolding lists_current_def by blast
  then have "set (al_Items l) \<subseteq> set (cl_Allocs (view s))" by blast
  with assms(2) have none: "\<forall>a\<in>set (al_Items l). st_Phase (pa_Status a) = ''''"
    by (auto simp: phaseless_def)
  then show "GetAllocationsByPhase l phase = []"
    using assms(4) by (auto simp: phase_query.query_selects filter_empty_conv)
  from none show "GetPendingAllocations l = []"
    by (auto simp: pending_query.query_selects filter_empty_conv AllocationPhasePending_def)
qed

text \<open>
  C24. The phase and the time that tryAllocatePort puts into a new allocation never take
  effect. Every allocation it builds is pending, with the time of the call. But over any
  history of calls to AllocatePort and ReleasePort, on a server that keeps the status of a
  create out, the stored allocations stay without phase and time when they start so (as
  none do at first), as long as nobody else changes the allocations: whatever is listed, none of
  the list is pending or in any other phase that has a name. No operation of the allocator sets
  the phase later.
\<close>

theorem created_status_lost:
  assumes "history api retry view c0 (pa, s)"
    and "consistent_client api view" and "retries_on_conflict api retry" and "drops_status api"
    and "pools_bounded (view (snd c0))" and "phaseless (view (snd c0))"
  shows "(tryAllocatePort api pool n pod ns cps pb s = (Inr a, pb', t) \<longrightarrow>
      GetPendingAllocations \<lparr>al_Items = [a]\<rparr> = [a] \<and> st_AllocatedAt (pa_Status a) = Some (kc_Now api t)) \<and>
    (\<forall>b\<in>set (cl_Allocs (view s)). st_AllocatedAt (pa_Status b) = None) \<and>
    (kc_ListAllocations api sel lim s = (Inr l, s') \<longrightarrow>
      GetPendingAllocations l = [] \<and> (\<forall>phase. phase \<noteq> '''' \<longrightarrow> GetAllocationsByPhase l phase = []))"
proof -
  have p: "phaseless (view s)" using history_phaseless [OF assms] by simp
  have "GetPendingAllocations \<lparr>al_Items = [a]\<rparr> = [a]" if "tryAllocatePort api pool n pod ns cps pb s = (Inr a, pb', t)"
    using tryAllocatePort_pending [OF that] by (simp add: GetPendingAllocations_def GetAllocationsByPhase_def)
  then show ?thesis
    using tryAllocatePort_pending [of api pool n pod ns cps pb s a pb' t] phaseless_list [OF assms(2) p] p
    by (fastforce simp: phaseless_def)
qed

text \<open>The in-memory client with a status subresource.\<close>

definition subresource_create :: "PortAllocation \<Rightarrow> cluster \<Rightarrow> (mem_error + PortAllocation) \<times> cluster" where
  "subresource_create a c = mem_create (a\<lparr>pa_Status := zero_status\<rparr>) c"

definition subresource_api :: mem_client where
  "subresource_api = mem_api\<lparr>kc_CreateAllocation := subresource_create\<rparr>"

lemma subresource_laws:
  "consistent_client subresource_api (\<lambda>c. c)" "retries_on_conflict subresource_api mem_retry" "drops_status subresource_api"
proof -
  have fields: "kc_GetPool subresource_api = kc_GetPool mem_api" "kc_GetAllocation subresource_api = kc_GetAllocation mem_api"
    "kc_GetPod subresource_api = kc_GetPod mem_api" "kc_ListAllocations subresource_api = kc_ListAllocations mem_api"
    "kc_DeleteAllocation subresource_api = kc_DeleteAllocation mem_api" "kc_IsNotFound subresource_api = kc_IsNotFound mem_api"
    "kc_IsConflict subresource_api = kc_IsConflict mem_api" "kc_CreateAllocation subresource_api = subresource_create"
    "kc_CreateAllocation mem_api = mem_create"
    by (simp_all add: subresource_api_def)
  have "creates subresource_api (\<lambda>c. c)"
    unfolding creates_def fields
    by (auto simp: subresource_create_def mem_create_def same_content_def split: if_splits)
  then show "consistent_client subresource_api (\<lambda>c. c)"
    using mem_reads mem_lists mem_gets mem_deletes
    unfolding consistent_client_def reads_preserve_def lists_current_def gets_current_def deletes_def fields by blast
  have "is_conflict subresource_api = is_conflict mem_api"
    by (intro ext) (simp add: is_conflict_def fields split: option.splits)
  then show "retries_on_conflict subresource_api mem_retry" by (simp add: retries_on_conflict_def mem_retry_def)
  show "drops_status subresource_api"
    unfolding drops_status_def fields by (auto simp: subresource_create_def mem_create_def split: if_splits)
qed

text \<open>A first pod is served by a cluster without allocations.\<close>

definition demo_new :: cluster where
  "demo_new = demo_cluster [demo_pool ''p''] []"

lemma demo_new_facts: "pools_bounded demo_new" "phaseless demo_new"
  by (simp_all add: demo_new_def phaseless_def pools_bounded_def demo_eval)

lemma demo_new_pending:
  "\<exists>a pa. tryAllocatePort subresource_api ''p'' '''' ''b'' ''ns'' [sample_port]
      (NewPoolAllocator StrategyRoundRobin) demo_new = (Inr a, pa, demo_new)"
  by (simp add: call_eval attempt_eval demo_new_def demo_pool_def subresource_api_def)

lemma demo_new_call:
  "\<exists>a pa c. AllocatePort subresource_api mem_retry ''p'' '''' ''b'' ''ns'' [sample_port]
      (NewPoolAllocator StrategyRoundRobin) demo_new = Returns (Inr a) (pa, c) \<and> cl_Allocs c = [a]"
  by (simp add: call_eval attempt_eval demo_new_def demo_pool_def subresource_api_def subresource_create_def)

theorem created_status_lost_witness:
  "(\<exists>a pa. tryAllocatePort subresource_api ''p'' '''' ''b'' ''ns'' [sample_port]
      (NewPoolAllocator StrategyRoundRobin) demo_new = (Inr a, pa, demo_new) \<and> GetPendingAllocations \<lparr>al_Items = [a]\<rparr> = [a]) \<and>
   (\<exists>a pa c l. AllocatePort subresource_api mem_retry ''p'' '''' ''b'' ''ns'' [sample_port]
      (NewPoolAllocator StrategyRoundRobin) demo_new = Returns (Inr a) (pa, c) \<and> cl_Allocs c = [a] \<and>
      kc_ListAllocations subresource_api [] None c = (Inr l, c) \<and> al_Items l = [a] \<and> GetPendingAllocations l = [])"
proof -
  let ?start = "(NewPoolAllocator StrategyRoundRobin, demo_new)"
  obtain a pa c where run: "AllocatePort subresource_api mem_retry ''p'' '''' ''b'' ''ns'' [sample_port]
      (NewPoolAllocator StrategyRoundRobin) demo_new = Returns (Inr a) (pa, c)" and c: "cl_Allocs c = [a]"
    using demo_new_call by blast
  have "history subresource_api mem_retry (\<lambda>c. c) ?start (pa, c)"
    using history.allocate [OF history.start, of subresource_api mem_retry "\<lambda>c. c" "NewPoolAllocator StrategyRoundRobin" demo_new
      "''p''" "''''" "''b''" "''ns''" "[sample_port]"] run by simp
  note after = created_status_lost [OF this subresource_laws, simplified, OF demo_new_facts]
  note before = created_status_lost [OF history.start subresource_laws, of "NewPoolAllocator StrategyRoundRobin" demo_new, simplified,
    OF demo_new_facts]
  have "kc_ListAllocations subresource_api [] None c = (Inr \<lparr>al_Items = [a]\<rparr>, c)"
    by (simp add: subresource_api_def mem_list_def c selected_by_def)
  with after run c before demo_new_pending show ?thesis by (metis PortAllocationList.select_convs(1))
qed

end
