(* ===== verification/StoredStatus.thy ===== *)
theory StoredStatus
  imports Wire PoolReconciler
begin

text \<open>
  The stored representation of pools: the JSON of their spec and status by the tags of api/v1,
  the schema of the custom resource (config/crd/bases/apollo.io\_apollonetworkpools.yaml), and
  what is read back of it. The text of a time and the members of the metadata are made by
  k8s.io/apimachinery and are parameters: \<open>fmt\<close> and \<open>parse\<close> for times, \<open>metadata\<close> for the
  members of an object's metadata.
\<close>

section \<open>Allocations\<close>

definition set_LoadBalancerRef :: "string \<Rightarrow> json \<Rightarrow> LoadBalancerRef \<Rightarrow> LoadBalancerRef option" where
  "set_LoadBalancerRef k j r =
     (if k = ''id'' then string_into (\<lambda>x r. r\<lparr>lb_ID := x\<rparr>) j r
      else if k = ''region'' then string_into (\<lambda>x r. r\<lparr>lb_Region := x\<rparr>) j r
      else if k = ''resourceGroup'' then string_into (\<lambda>x r. r\<lparr>lb_ResourceGroup := x\<rparr>) j r
      else if k = ''provider'' then string_into (\<lambda>x r. r\<lparr>lb_Provider := x\<rparr>) j r
      else Some r)"

definition decode_LoadBalancerRef :: "json \<Rightarrow> LoadBalancerRef option" where
  "decode_LoadBalancerRef = decode_struct set_LoadBalancerRef
     \<lparr>lb_ID = '''', lb_Region = '''', lb_ResourceGroup = '''', lb_Provider = ''''\<rparr>"

definition set_PodInfo :: "string \<Rightarrow> json \<Rightarrow> PodInfo \<Rightarrow> PodInfo option" where
  "set_PodInfo k j r =
     (if k = ''name'' then string_into (\<lambda>x r. r\<lparr>pi_Name := x\<rparr>) j r
      else if k = ''namespace'' then string_into (\<lambda>x r. r\<lparr>pi_Namespace := x\<rparr>) j r
      else if k = ''uid'' then string_into (\<lambda>x r. r\<lparr>pi_UID := x\<rparr>) j r
      else if k = ''podIP'' then string_into (\<lambda>x r. r\<lparr>pi_PodIP := x\<rparr>) j r
      else Some r)"

definition decode_PodInfo :: "json \<Rightarrow> PodInfo option" where
  "decode_PodInfo = decode_struct set_PodInfo
     \<lparr>pi_Name = '''', pi_Namespace = '''', pi_UID = '''', pi_PodIP = ''''\<rparr>"

definition set_BindingConfig :: "string \<Rightarrow> json \<Rightarrow> BindingConfig \<Rightarrow> BindingConfig option" where
  "set_BindingConfig k j r =
     (if k = ''targetWeight'' then int32_into (\<lambda>x r. r\<lparr>bc_TargetWeight := x\<rparr>) j r
      else if k = ''sessionAffinity'' then string_into (\<lambda>x r. r\<lparr>bc_SessionAffinity := x\<rparr>) j r
      else Some r)"

definition decode_BindingConfig :: "json \<Rightarrow> BindingConfig option" where
  "decode_BindingConfig = decode_struct set_BindingConfig \<lparr>bc_TargetWeight = 0, bc_SessionAffinity = ''''\<rparr>"

definition set_PortBinding :: "string \<Rightarrow> json \<Rightarrow> PortBinding \<Rightarrow> PortBinding option" where
  "set_PortBinding k j r =
     (if k = ''podPort'' then int32_into (\<lambda>x r. r\<lparr>pb_PodPort := x\<rparr>) j r
      else if k = ''lbPort'' then int32_into (\<lambda>x r. r\<lparr>pb_LBPort := x\<rparr>) j r
      else if k = ''protocol'' then string_into (\<lambda>x r. r\<lparr>pb_Protocol := x\<rparr>) j r
      else if k = ''portName'' then string_into (\<lambda>x r. r\<lparr>pb_PortName := x\<rparr>) j r
      else if k = ''bindingType'' then string_into (\<lambda>x r. r\<lparr>pb_BindingType := x\<rparr>) j r
      else if k = ''loadBalancerRef'' then into decode_LoadBalancerRef (\<lambda>x r. r\<lparr>pb_LoadBalancerRef := x\<rparr>) j r
      else if k = ''bindingConfig'' then
        into (decode_pointer decode_BindingConfig) (\<lambda>x r. r\<lparr>pb_BindingConfig := x\<rparr>) j r
      else Some r)"

definition decode_PortBinding :: "json \<Rightarrow> PortBinding option" where
  "decode_PortBinding = decode_struct set_PortBinding
     \<lparr>pb_PodPort = 0, pb_LBPort = 0, pb_Protocol = '''', pb_PortName = '''', pb_BindingType = '''',
      pb_LoadBalancerRef = \<lparr>lb_ID = '''', lb_Region = '''', lb_ResourceGroup = '''', lb_Provider = ''''\<rparr>,
      pb_BindingConfig = None\<rparr>"

lemmas omit_defs = string_omitempty_def int32_omitempty_def slice_omitempty_def map_omitempty_def

interpretation lbr: stored_form marshal_LoadBalancerRef crd_LoadBalancerRef decode_LoadBalancerRef "\<lambda>r. r" "\<lambda>r. True"
proof
  fix r :: LoadBalancerRef
  show "meets (marshal_LoadBalancerRef r) crd_LoadBalancerRef" by (rule meets_LoadBalancerRef)
  show "decode_LoadBalancerRef (prune crd_LoadBalancerRef (marshal_LoadBalancerRef r)) = Some r"
    by (simp add: wire marshal_LoadBalancerRef_def crd_LoadBalancerRef_def decode_LoadBalancerRef_def decode_struct_def
        set_LoadBalancerRef_def omit_defs)
  show "prune crd_LoadBalancerRef (marshal_LoadBalancerRef r) \<noteq> JNull"
    by (simp add: wire marshal_LoadBalancerRef_def crd_LoadBalancerRef_def)
qed

interpretation pin: stored_form marshal_PodInfo crd_PodInfo decode_PodInfo "\<lambda>r. r" "\<lambda>r. True"
proof
  fix r :: PodInfo
  show "meets (marshal_PodInfo r) crd_PodInfo" by (rule meets_PodInfo)
  show "decode_PodInfo (prune crd_PodInfo (marshal_PodInfo r)) = Some r"
    by (simp add: wire marshal_PodInfo_def crd_PodInfo_def decode_PodInfo_def decode_struct_def set_PodInfo_def omit_defs)
  show "prune crd_PodInfo (marshal_PodInfo r) \<noteq> JNull" by (simp add: wire marshal_PodInfo_def crd_PodInfo_def)
qed

interpretation bco: stored_form marshal_BindingConfig crd_BindingConfig decode_BindingConfig "\<lambda>r. r" "\<lambda>r. True"
proof
  fix r :: BindingConfig
  show "meets (marshal_BindingConfig r) crd_BindingConfig" by (rule meets_BindingConfig)
  show "decode_BindingConfig (prune crd_BindingConfig (marshal_BindingConfig r)) = Some r"
    by (simp add: wire marshal_BindingConfig_def crd_BindingConfig_def decode_BindingConfig_def decode_struct_def
        set_BindingConfig_def omit_defs)
  show "prune crd_BindingConfig (marshal_BindingConfig r) \<noteq> JNull"
    by (simp add: wire marshal_BindingConfig_def crd_BindingConfig_def)
qed

interpretation pbi: stored_form marshal_PortBinding crd_PortBinding decode_PortBinding "\<lambda>r. r" "\<lambda>r. True"
proof
  fix r :: PortBinding
  show "meets (marshal_PortBinding r) crd_PortBinding" by (rule meets_PortBinding)
  show "decode_PortBinding (prune crd_PortBinding (marshal_PortBinding r)) = Some r"
    by (cases "pb_BindingConfig r")
      (simp_all add: wire marshal_PortBinding_def crd_PortBinding_def decode_PortBinding_def decode_struct_def
        set_PortBinding_def omit_defs lbr.read_back bco.pointer_read_back)
  show "prune crd_PortBinding (marshal_PortBinding r) \<noteq> JNull" by (simp add: wire marshal_PortBinding_def crd_PortBinding_def)
qed

definition set_PortAllocationSpec :: "string \<Rightarrow> json \<Rightarrow> PortAllocationSpec \<Rightarrow> PortAllocationSpec option" where
  "set_PortAllocationSpec k j r =
     (if k = ''podInfo'' then into decode_PodInfo (\<lambda>x r. r\<lparr>as_PodInfo := x\<rparr>) j r
      else if k = ''portBindings'' then into (decode_slice decode_PortBinding) (\<lambda>x r. r\<lparr>as_PortBindings := x\<rparr>) j r
      else Some r)"

definition zero_spec :: PortAllocationSpec where
  "zero_spec = \<lparr>as_PodInfo = \<lparr>pi_Name = '''', pi_Namespace = '''', pi_UID = '''', pi_PodIP = ''''\<rparr>, as_PortBindings = []\<rparr>"

definition decode_PortAllocationSpec :: "json \<Rightarrow> PortAllocationSpec option" where
  "decode_PortAllocationSpec = decode_struct set_PortAllocationSpec zero_spec"

definition marshal_spec :: "PortAllocationSpec \<Rightarrow> json" where
  "marshal_spec s = marshal_PortAllocationSpec (as_PodInfo s) (Some (as_PortBindings s))"

interpretation asp: stored_form marshal_spec crd_PortAllocationSpec decode_PortAllocationSpec "\<lambda>r. r" "\<lambda>r. True"
proof
  fix r :: PortAllocationSpec
  show "meets (marshal_spec r) crd_PortAllocationSpec"
    using pin.fits pbi.slice_fits by (simp add: marshal_spec_def marshal_PortAllocationSpec_def crd_PortAllocationSpec_def)
  show "decode_PortAllocationSpec (prune crd_PortAllocationSpec (marshal_spec r)) = Some r"
    using pbi.slice_read_back [of "as_PortBindings r"]
    by (simp add: wire marshal_spec_def marshal_PortAllocationSpec_def crd_PortAllocationSpec_def decode_PortAllocationSpec_def
        decode_struct_def set_PortAllocationSpec_def zero_spec_def pin.read_back)
  show "prune crd_PortAllocationSpec (marshal_spec r) \<noteq> JNull"
    by (simp add: wire marshal_spec_def marshal_PortAllocationSpec_def crd_PortAllocationSpec_def)
qed

section \<open>The status of an allocation\<close>

text \<open>The zero time is written as null, and null is read as the zero time.\<close>

definition marshal_time :: "(time \<Rightarrow> string) \<Rightarrow> time \<Rightarrow> json" where
  "marshal_time fmt t = (if t = 0 then JNull else JStr (fmt t))"

definition decode_time :: "(string \<Rightarrow> time option) \<Rightarrow> json \<Rightarrow> time option" where
  "decode_time parse j = (case j of JStr s \<Rightarrow> parse s | JNull \<Rightarrow> Some 0 | _ \<Rightarrow> None)"

definition marshal_BindingStatus :: "(time \<Rightarrow> string) \<Rightarrow> BindingStatus \<Rightarrow> json" where
  "marshal_BindingStatus fmt b =
     JObj ([(''podPort'', marshal_int32 (bs_PodPort b)), (''lbPort'', marshal_int32 (bs_LBPort b)),
        (''phase'', JStr (bs_Phase b))] @ string_omitempty ''message'' (bs_Message b) @
       pointer_omitempty ''lastProbeTime'' (marshal_time fmt) (bs_LastProbeTime b) @
       pointer_omitempty ''boundAt'' (marshal_time fmt) (bs_BoundAt b) @
       map_omitempty ''loadBalancerConfig'' JStr (bs_LoadBalancerConfig b))"

definition crd_BindingStatus :: schema where
  "crd_BindingStatus =
     SObject [(''boundAt'', SDateTime), (''lastProbeTime'', SDateTime), (''lbPort'', SInt32),
        (''loadBalancerConfig'', SMap SString), (''message'', SString), (''phase'', SString), (''podPort'', SInt32)]
       [''lbPort'', ''phase'', ''podPort'']"

definition set_BindingStatus :: "(string \<Rightarrow> time option) \<Rightarrow> string \<Rightarrow> json \<Rightarrow> BindingStatus \<Rightarrow> BindingStatus option" where
  "set_BindingStatus parse k j r =
     (if k = ''podPort'' then int32_into (\<lambda>x r. r\<lparr>bs_PodPort := x\<rparr>) j r
      else if k = ''lbPort'' then int32_into (\<lambda>x r. r\<lparr>bs_LBPort := x\<rparr>) j r
      else if k = ''phase'' then string_into (\<lambda>x r. r\<lparr>bs_Phase := x\<rparr>) j r
      else if k = ''message'' then string_into (\<lambda>x r. r\<lparr>bs_Message := x\<rparr>) j r
      else if k = ''lastProbeTime'' then
        into (decode_pointer (decode_time parse)) (\<lambda>x r. r\<lparr>bs_LastProbeTime := x\<rparr>) j r
      else if k = ''boundAt'' then into (decode_pointer (decode_time parse)) (\<lambda>x r. r\<lparr>bs_BoundAt := x\<rparr>) j r
      else if k = ''loadBalancerConfig'' then
        into (decode_map (\<lambda>j. decode_string j '''')) (\<lambda>x r. r\<lparr>bs_LoadBalancerConfig := x\<rparr>) j r
      else Some r)"

definition decode_BindingStatus :: "(string \<Rightarrow> time option) \<Rightarrow> json \<Rightarrow> BindingStatus option" where
  "decode_BindingStatus parse = decode_struct (set_BindingStatus parse)
     \<lparr>bs_PodPort = 0, bs_LBPort = 0, bs_Phase = '''', bs_Message = '''', bs_LastProbeTime = None, bs_BoundAt = None,
      bs_LoadBalancerConfig = []\<rparr>"

text \<open>
  Times are whole seconds since the zero time, the start of the year 1. Those that are set and
  lie before the year 10000 have a text of the format, which is read back as that time.
\<close>

definition in_calendar :: "time \<Rightarrow> bool" where
  "in_calendar t \<longleftrightarrow> 0 < t \<and> t < 315537897600"

definition times_read_back :: "(time \<Rightarrow> string) \<Rightarrow> (string \<Rightarrow> time option) \<Rightarrow> bool" where
  "times_read_back fmt parse \<longleftrightarrow> (\<forall>t. in_calendar t \<longrightarrow> has_form date_time (fmt t) \<and> parse (fmt t) = Some t)"

lemma time_form:
  "times_read_back fmt parse \<Longrightarrow> stored_form (marshal_time fmt) SDateTime (decode_time parse) (\<lambda>t. t) in_calendar"
  by unfold_locales (auto simp: marshal_time_def decode_time_def times_read_back_def in_calendar_def)

definition admitted_binding :: "BindingStatus \<Rightarrow> bool" where
  "admitted_binding b \<longleftrightarrow> pred_option in_calendar (bs_LastProbeTime b) \<and> pred_option in_calendar (bs_BoundAt b)"

lemma BindingStatus_form:
  assumes "times_read_back fmt parse"
  shows "stored_form (marshal_BindingStatus fmt) crd_BindingStatus (decode_BindingStatus parse) (\<lambda>b. b) admitted_binding"
proof
  fix b :: BindingStatus
  assume "admitted_binding b"
  then have ok: "pred_option in_calendar (bs_LastProbeTime b)" "pred_option in_calendar (bs_BoundAt b)" by (simp_all add: admitted_binding_def)
  note time = stored_form.pointer_read_back [OF time_form [OF assms]] stored_form.fits [OF time_form [OF assms]]
    stored_form.enc_present [OF time_form [OF assms]] stored_form.present [OF time_form [OF assms]]
  show "meets (marshal_BindingStatus fmt b) crd_BindingStatus"
    using time(2) str.map_fits ok
    by (cases "bs_LastProbeTime b"; cases "bs_BoundAt b")
      (auto simp: marshal_BindingStatus_def crd_BindingStatus_def omit_defs omitempty_def pointer_omitempty_def)
  show "decode_BindingStatus parse (prune crd_BindingStatus (marshal_BindingStatus fmt b)) = Some b"
    using str.map_read_back [of "bs_LoadBalancerConfig b"] ok
    by (cases "bs_LastProbeTime b"; cases "bs_BoundAt b")
      (simp_all add: wire marshal_BindingStatus_def crd_BindingStatus_def decode_BindingStatus_def decode_struct_def
        set_BindingStatus_def omit_defs pointer_omitempty_def time(1,4))
  show "prune crd_BindingStatus (marshal_BindingStatus fmt b) \<noteq> JNull"
    by (simp add: wire marshal_BindingStatus_def crd_BindingStatus_def)
qed

definition marshal_condition :: "(time \<Rightarrow> string) \<Rightarrow> condition \<Rightarrow> json" where
  "marshal_condition fmt c =
     JObj ([(''type'', JStr (cd_Type c)), (''status'', JStr (cd_Status c))] @
       omitempty (cd_ObservedGeneration c = 0) ''observedGeneration'' (marshal_int64 (cd_ObservedGeneration c)) @
       [(''lastTransitionTime'', marshal_time fmt (cd_LastTransitionTime c)), (''reason'', JStr (cd_Reason c)),
        (''message'', JStr (cd_Message c))])"

definition reason_form :: pattern where
  "reason_form =
     (let word = [(CHR ''A'', CHR ''Z''), (CHR ''a'', CHR ''z''), (CHR ''0'', CHR ''9''), (CHR ''_'', CHR ''_'')] in
      in_sequence [Within [(CHR ''A'', CHR ''Z''), (CHR ''a'', CHR ''z'')],
        optional (in_sequence [Many (Within (word @ [(CHR '','', CHR '',''), (CHR '':'', CHR '':'')])), Within word])])"

definition type_form :: pattern where
  "type_form =
     (let low = [(CHR ''a'', CHR ''z''), (CHR ''0'', CHR ''9'')];
          word = (CHR ''A'', CHR ''Z'') # low;
          dash = (CHR ''-'', CHR ''-'');
          label = in_sequence [Within low, optional (in_sequence [Many (Within (dash # low)), Within low])]
      in in_sequence
        [optional (in_sequence [label, Many (in_sequence [one_char (CHR ''.''), label]), one_char (CHR ''/'')]),
         in_sequence
           [optional (in_sequence
              [Within word, Many (Within (dash # (CHR ''_'', CHR ''_'') # (CHR ''.'', CHR ''.'') # word))]), Within word]])"

definition crd_condition :: schema where
  "crd_condition =
     SObject [(''lastTransitionTime'', SDateTime), (''message'', SText 0 32768 None), (''observedGeneration'', SInt64 (Some 0)),
        (''reason'', SText 1 1024 (Some reason_form)), (''status'', SEnum [''True'', ''False'', ''Unknown'']),
        (''type'', SText 0 316 (Some type_form))]
       [''lastTransitionTime'', ''message'', ''reason'', ''status'', ''type'']"

definition set_condition :: "(string \<Rightarrow> time option) \<Rightarrow> string \<Rightarrow> json \<Rightarrow> condition \<Rightarrow> condition option" where
  "set_condition parse k j r =
     (if k = ''type'' then string_into (\<lambda>x r. r\<lparr>cd_Type := x\<rparr>) j r
      else if k = ''status'' then string_into (\<lambda>x r. r\<lparr>cd_Status := x\<rparr>) j r
      else if k = ''observedGeneration'' then into decode_int64 (\<lambda>x r. r\<lparr>cd_ObservedGeneration := x\<rparr>) j r
      else if k = ''lastTransitionTime'' then into (decode_time parse) (\<lambda>x r. r\<lparr>cd_LastTransitionTime := x\<rparr>) j r
      else if k = ''reason'' then string_into (\<lambda>x r. r\<lparr>cd_Reason := x\<rparr>) j r
      else if k = ''message'' then string_into (\<lambda>x r. r\<lparr>cd_Message := x\<rparr>) j r
      else Some r)"

definition decode_condition :: "(string \<Rightarrow> time option) \<Rightarrow> json \<Rightarrow> condition option" where
  "decode_condition parse = decode_struct (set_condition parse)
     \<lparr>cd_Type = '''', cd_Status = '''', cd_ObservedGeneration = 0, cd_LastTransitionTime = 0, cd_Reason = '''',
      cd_Message = ''''\<rparr>"

text \<open>
  What the schemas of both resources ask of a condition
  (config/crd/bases/apollo.io\_portallocations.yaml has the same one).
\<close>

definition admitted_condition :: "condition \<Rightarrow> bool" where
  "admitted_condition c \<longleftrightarrow>
     in_calendar (cd_LastTransitionTime c) \<and> 0 \<le> sint (cd_ObservedGeneration c) \<and>
     cd_Status c \<in> {''True'', ''False'', ''Unknown''} \<and> rune_count (cd_Message c) \<le> 32768 \<and>
     1 \<le> rune_count (cd_Reason c) \<and> rune_count (cd_Reason c) \<le> 1024 \<and> has_form reason_form (cd_Reason c) \<and>
     rune_count (cd_Type c) \<le> 316 \<and> has_form type_form (cd_Type c)"

lemma condition_form:
  assumes "times_read_back fmt parse"
  shows "stored_form (marshal_condition fmt) crd_condition (decode_condition parse) (\<lambda>c. c) admitted_condition"
proof
  fix c :: condition
  assume "admitted_condition c"
  note ok = this [unfolded admitted_condition_def]
  note time = stored_form.read_back [OF time_form [OF assms]] stored_form.fits [OF time_form [OF assms]]
    stored_form.enc_present [OF time_form [OF assms]] stored_form.present [OF time_form [OF assms]]
  show "meets (marshal_condition fmt c) crd_condition"
    using time(2) time(3) [of "cd_LastTransitionTime c"] ok by (auto simp: marshal_condition_def crd_condition_def omitempty_def)
  show "decode_condition parse (prune crd_condition (marshal_condition fmt c)) = Some c"
    by (simp add: wire marshal_condition_def crd_condition_def decode_condition_def decode_struct_def set_condition_def time(1,4) ok)
  show "prune crd_condition (marshal_condition fmt c) \<noteq> JNull" by (simp add: wire marshal_condition_def crd_condition_def)
qed

text \<open>No other condition is let in.\<close>

lemma condition_admitted:
  assumes "times_read_back fmt parse" and "in_calendar (cd_LastTransitionTime c)"
  shows "meets (marshal_condition fmt c) crd_condition \<longleftrightarrow> admitted_condition c"
proof
  assume "admitted_condition c"
  then show "meets (marshal_condition fmt c) crd_condition" by (rule stored_form.fits [OF condition_form [OF assms(1)]])
next
  assume "meets (marshal_condition fmt c) crd_condition"
  with assms(2) show "admitted_condition c"
    by (auto simp: marshal_condition_def crd_condition_def admitted_condition_def omitempty_def split: if_splits)
qed

definition marshal_PortAllocationStatus :: "(time \<Rightarrow> string) \<Rightarrow> PortAllocationStatus \<Rightarrow> json" where
  "marshal_PortAllocationStatus fmt s =
     JObj (string_omitempty ''phase'' (st_Phase s) @
       slice_omitempty ''bindingStatuses'' (marshal_BindingStatus fmt) (st_BindingStatuses s) @
       pointer_omitempty ''allocatedAt'' (marshal_time fmt) (st_AllocatedAt s) @
       pointer_omitempty ''boundAt'' (marshal_time fmt) (st_BoundAt s) @
       pointer_omitempty ''lastUpdated'' (marshal_time fmt) (st_LastUpdated s) @
       slice_omitempty ''conditions'' (marshal_condition fmt) (st_Conditions s) @
       string_omitempty ''message'' (st_Message s) @
       omitempty (st_ObservedGeneration s = 0) ''observedGeneration'' (marshal_int64 (st_ObservedGeneration s)))"

definition crd_PortAllocationStatus :: schema where
  "crd_PortAllocationStatus =
     SObject [(''allocatedAt'', SDateTime), (''bindingStatuses'', SArray crd_BindingStatus), (''boundAt'', SDateTime),
        (''conditions'', SArray crd_condition), (''lastUpdated'', SDateTime), (''message'', SString),
        (''observedGeneration'', SInt64 None), (''phase'', SString)] []"

definition set_PortAllocationStatus ::
  "(string \<Rightarrow> time option) \<Rightarrow> string \<Rightarrow> json \<Rightarrow> PortAllocationStatus \<Rightarrow> PortAllocationStatus option" where
  "set_PortAllocationStatus parse k j r =
     (if k = ''phase'' then string_into (\<lambda>x r. r\<lparr>st_Phase := x\<rparr>) j r
      else if k = ''bindingStatuses'' then
        into (decode_slice (decode_BindingStatus parse)) (\<lambda>x r. r\<lparr>st_BindingStatuses := x\<rparr>) j r
      else if k = ''allocatedAt'' then into (decode_pointer (decode_time parse)) (\<lambda>x r. r\<lparr>st_AllocatedAt := x\<rparr>) j r
      else if k = ''boundAt'' then into (decode_pointer (decode_time parse)) (\<lambda>x r. r\<lparr>st_BoundAt := x\<rparr>) j r
      else if k = ''lastUpdated'' then into (decode_pointer (decode_time parse)) (\<lambda>x r. r\<lparr>st_LastUpdated := x\<rparr>) j r
      else if k = ''conditions'' then into (decode_slice (decode_condition parse)) (\<lambda>x r. r\<lparr>st_Conditions := x\<rparr>) j r
      else if k = ''message'' then string_into (\<lambda>x r. r\<lparr>st_Message := x\<rparr>) j r
      else if k = ''observedGeneration'' then into decode_int64 (\<lambda>x r. r\<lparr>st_ObservedGeneration := x\<rparr>) j r
      else Some r)"

definition decode_PortAllocationStatus :: "(string \<Rightarrow> time option) \<Rightarrow> json \<Rightarrow> PortAllocationStatus option" where
  "decode_PortAllocationStatus parse = decode_struct (set_PortAllocationStatus parse) zero_status"

definition admitted_status :: "PortAllocationStatus \<Rightarrow> bool" where
  "admitted_status s \<longleftrightarrow>
     list_all admitted_binding (st_BindingStatuses s) \<and> list_all admitted_condition (st_Conditions s) \<and>
     pred_option in_calendar (st_AllocatedAt s) \<and> pred_option in_calendar (st_BoundAt s) \<and> pred_option in_calendar (st_LastUpdated s)"

lemma PortAllocationStatus_form:
  assumes "times_read_back fmt parse"
  shows "stored_form (marshal_PortAllocationStatus fmt) crd_PortAllocationStatus (decode_PortAllocationStatus parse) (\<lambda>s. s)
    admitted_status"
proof
  fix s :: PortAllocationStatus
  assume "admitted_status s"
  then have ok: "list_all admitted_binding (st_BindingStatuses s)" "list_all admitted_condition (st_Conditions s)"
    and set_times: "pred_option in_calendar (st_AllocatedAt s)" "pred_option in_calendar (st_BoundAt s)" "pred_option in_calendar (st_LastUpdated s)"
    by (simp_all add: admitted_status_def)
  note time = stored_form.pointer_read_back [OF time_form [OF assms]] stored_form.fits [OF time_form [OF assms]]
    stored_form.enc_present [OF time_form [OF assms]] stored_form.present [OF time_form [OF assms]]
  note bs = stored_form.slice_read_back [OF BindingStatus_form [OF assms] ok(1)]
    stored_form.slice_fits [OF BindingStatus_form [OF assms] ok(1)]
  note cd = stored_form.slice_read_back [OF condition_form [OF assms] ok(2)]
    stored_form.slice_fits [OF condition_form [OF assms] ok(2)]
  show "meets (marshal_PortAllocationStatus fmt s) crd_PortAllocationStatus"
    using time(2) bs(2) cd(2) set_times
    by (cases "st_AllocatedAt s"; cases "st_BoundAt s"; cases "st_LastUpdated s")
      (auto simp: marshal_PortAllocationStatus_def crd_PortAllocationStatus_def omit_defs omitempty_def pointer_omitempty_def)
  show "decode_PortAllocationStatus parse (prune crd_PortAllocationStatus (marshal_PortAllocationStatus fmt s)) = Some s"
    using bs(1) cd(1) set_times
    by (cases "st_AllocatedAt s"; cases "st_BoundAt s"; cases "st_LastUpdated s")
      (simp_all add: wire marshal_PortAllocationStatus_def crd_PortAllocationStatus_def decode_PortAllocationStatus_def
        decode_struct_def set_PortAllocationStatus_def omit_defs pointer_omitempty_def time(1,4) zero_status_def)
  show "prune crd_PortAllocationStatus (marshal_PortAllocationStatus fmt s) \<noteq> JNull"
    by (simp add: wire marshal_PortAllocationStatus_def crd_PortAllocationStatus_def)
qed

section \<open>The status of a pool\<close>

text \<open>
  The embedded allocations: kind and version inline, the metadata always there, and a schema
  for it that has no property (line 190).
\<close>

definition marshal_PortAllocation ::
  "(time \<Rightarrow> string) \<Rightarrow> (object_meta \<Rightarrow> (string \<times> json) list) \<Rightarrow> PortAllocation \<Rightarrow> json" where
  "marshal_PortAllocation fmt metadata a =
     JObj (string_omitempty ''kind'' (tm_Kind (pa_TypeMeta a)) @
       string_omitempty ''apiVersion'' (tm_APIVersion (pa_TypeMeta a)) @
       [(''metadata'', JObj (metadata (pa_ObjectMeta a))), (''spec'', marshal_spec (pa_Spec a)),
        (''status'', marshal_PortAllocationStatus fmt (pa_Status a))])"

definition crd_PortAllocation :: schema where
  "crd_PortAllocation =
     SObject [(''apiVersion'', SString), (''kind'', SString), (''metadata'', SObject [] []),
        (''spec'', crd_PortAllocationSpec), (''status'', crd_PortAllocationStatus)] []"

text \<open>Metadata without members leaves the zero metadata; nothing else of it is read here.\<close>

definition decode_metadata :: "json \<Rightarrow> object_meta option" where
  "decode_metadata j = (case j of JObj [] \<Rightarrow> Some zero_object_meta | JNull \<Rightarrow> Some zero_object_meta | _ \<Rightarrow> None)"

definition set_PortAllocation :: "(string \<Rightarrow> time option) \<Rightarrow> string \<Rightarrow> json \<Rightarrow> PortAllocation \<Rightarrow> PortAllocation option" where
  "set_PortAllocation parse k j r =
     (if k = ''kind'' then string_into (\<lambda>x r. r\<lparr>pa_TypeMeta := (pa_TypeMeta r)\<lparr>tm_Kind := x\<rparr>\<rparr>) j r
      else if k = ''apiVersion'' then string_into (\<lambda>x r. r\<lparr>pa_TypeMeta := (pa_TypeMeta r)\<lparr>tm_APIVersion := x\<rparr>\<rparr>) j r
      else if k = ''metadata'' then into decode_metadata (\<lambda>x r. r\<lparr>pa_ObjectMeta := x\<rparr>) j r
      else if k = ''spec'' then into decode_PortAllocationSpec (\<lambda>x r. r\<lparr>pa_Spec := x\<rparr>) j r
      else if k = ''status'' then into (decode_PortAllocationStatus parse) (\<lambda>x r. r\<lparr>pa_Status := x\<rparr>) j r
      else Some r)"

definition decode_PortAllocation :: "(string \<Rightarrow> time option) \<Rightarrow> json \<Rightarrow> PortAllocation option" where
  "decode_PortAllocation parse = decode_struct (set_PortAllocation parse)
     \<lparr>pa_TypeMeta = zero_type_meta, pa_ObjectMeta = zero_object_meta, pa_Spec = zero_spec, pa_Status = zero_status\<rparr>"

lemma PortAllocation_form:
  assumes "times_read_back fmt parse"
  shows "stored_form (marshal_PortAllocation fmt metadata) crd_PortAllocation (decode_PortAllocation parse) nameless
    (\<lambda>a. admitted_status (pa_Status a))"
proof
  fix a :: PortAllocation
  assume ok: "admitted_status (pa_Status a)"
  note st = stored_form.read_back [OF PortAllocationStatus_form [OF assms] ok]
    stored_form.fits [OF PortAllocationStatus_form [OF assms] ok]
    stored_form.present [OF PortAllocationStatus_form [OF assms] ok]
  show "meets (marshal_PortAllocation fmt metadata a) crd_PortAllocation"
    using st(2) asp.fits by (auto simp: marshal_PortAllocation_def crd_PortAllocation_def omit_defs omitempty_def)
  have bare: "pruned_members [] ms = []" for ms by (simp add: pruned_members_def)
  show "decode_PortAllocation parse (prune crd_PortAllocation (marshal_PortAllocation fmt metadata a)) = Some (nameless a)"
    by (simp add: wire marshal_PortAllocation_def crd_PortAllocation_def decode_PortAllocation_def decode_struct_def
        set_PortAllocation_def omit_defs st(1,3) asp.read_back bare decode_metadata_def zero_type_meta_def nameless_def)
  show "prune crd_PortAllocation (marshal_PortAllocation fmt metadata a) \<noteq> JNull"
    by (simp add: wire marshal_PortAllocation_def crd_PortAllocation_def)
qed

definition marshal_LoadBalancerAllocateStatus ::
  "(time \<Rightarrow> string) \<Rightarrow> (object_meta \<Rightarrow> (string \<times> json) list) \<Rightarrow> LoadBalancerAllocateStatus \<Rightarrow> json" where
  "marshal_LoadBalancerAllocateStatus fmt metadata e =
     JObj (string_omitempty ''phase'' (las_Phase e) @
       slice_omitempty ''allocatedPorts'' (marshal_PortAllocation fmt metadata) (las_AllocatedPorts e) @
       slice_omitempty ''prewarmedPorts'' marshal_int32 (las_PrewarmedPorts e) @
       int32_omitempty ''totalPorts'' (las_TotalPorts e) @ int32_omitempty ''allocatedCount'' (las_AllocatedCount e) @
       int32_omitempty ''prewarmedCount'' (las_PrewarmedCount e) @
       int32_omitempty ''availableCount'' (las_AvailableCount e) @
       pointer_omitempty ''lastUpdated'' (marshal_time fmt) (las_LastUpdated e) @
       omitempty (\<not> las_IsSynced e) ''isSynced'' (JBool (las_IsSynced e)))"

definition crd_LoadBalancerAllocateStatus :: schema where
  "crd_LoadBalancerAllocateStatus =
     SObject [(''allocatedCount'', SInt32), (''allocatedPorts'', SArray crd_PortAllocation), (''availableCount'', SInt32),
        (''isSynced'', SBool), (''lastUpdated'', SDateTime), (''phase'', SString), (''prewarmedCount'', SInt32),
        (''prewarmedPorts'', SArray SInt32), (''totalPorts'', SInt32)] []"

definition set_LoadBalancerAllocateStatus ::
  "(string \<Rightarrow> time option) \<Rightarrow> string \<Rightarrow> json \<Rightarrow> LoadBalancerAllocateStatus \<Rightarrow> LoadBalancerAllocateStatus option" where
  "set_LoadBalancerAllocateStatus parse k j r =
     (if k = ''phase'' then string_into (\<lambda>x r. r\<lparr>las_Phase := x\<rparr>) j r
      else if k = ''allocatedPorts'' then
        into (decode_slice (decode_PortAllocation parse)) (\<lambda>x r. r\<lparr>las_AllocatedPorts := x\<rparr>) j r
      else if k = ''prewarmedPorts'' then
        into (decode_slice (\<lambda>j. decode_int32 j 0)) (\<lambda>x r. r\<lparr>las_PrewarmedPorts := x\<rparr>) j r
      else if k = ''totalPorts'' then int32_into (\<lambda>x r. r\<lparr>las_TotalPorts := x\<rparr>) j r
      else if k = ''allocatedCount'' then int32_into (\<lambda>x r. r\<lparr>las_AllocatedCount := x\<rparr>) j r
      else if k = ''prewarmedCount'' then int32_into (\<lambda>x r. r\<lparr>las_PrewarmedCount := x\<rparr>) j r
      else if k = ''availableCount'' then int32_into (\<lambda>x r. r\<lparr>las_AvailableCount := x\<rparr>) j r
      else if k = ''lastUpdated'' then into (decode_pointer (decode_time parse)) (\<lambda>x r. r\<lparr>las_LastUpdated := x\<rparr>) j r
      else if k = ''isSynced'' then into decode_bool (\<lambda>x r. r\<lparr>las_IsSynced := x\<rparr>) j r
      else Some r)"

definition decode_LoadBalancerAllocateStatus :: "(string \<Rightarrow> time option) \<Rightarrow> json \<Rightarrow> LoadBalancerAllocateStatus option" where
  "decode_LoadBalancerAllocateStatus parse = decode_struct (set_LoadBalancerAllocateStatus parse)
     \<lparr>las_Phase = '''', las_AllocatedPorts = [], las_PrewarmedPorts = [], las_TotalPorts = 0, las_AllocatedCount = 0,
      las_PrewarmedCount = 0, las_AvailableCount = 0, las_LastUpdated = None, las_IsSynced = False\<rparr>"

definition admitted_entry :: "LoadBalancerAllocateStatus \<Rightarrow> bool" where
  "admitted_entry e \<longleftrightarrow> list_all (\<lambda>a. admitted_status (pa_Status a)) (las_AllocatedPorts e) \<and> pred_option in_calendar (las_LastUpdated e)"

lemma LoadBalancerAllocateStatus_form:
  assumes "times_read_back fmt parse"
  shows "stored_form (marshal_LoadBalancerAllocateStatus fmt metadata) crd_LoadBalancerAllocateStatus
    (decode_LoadBalancerAllocateStatus parse) stored_entry admitted_entry"
proof
  fix e :: LoadBalancerAllocateStatus
  assume "admitted_entry e"
  then have ok: "list_all (\<lambda>a. admitted_status (pa_Status a)) (las_AllocatedPorts e)" and set_time: "pred_option in_calendar (las_LastUpdated e)"
    by (simp_all add: admitted_entry_def)
  note time = stored_form.pointer_read_back [OF time_form [OF assms]] stored_form.fits [OF time_form [OF assms]]
    stored_form.enc_present [OF time_form [OF assms]] stored_form.present [OF time_form [OF assms]]
  note pa = stored_form.slice_read_back [OF PortAllocation_form [OF assms] ok, of metadata]
    stored_form.slice_fits [OF PortAllocation_form [OF assms] ok, of metadata]
  show "meets (marshal_LoadBalancerAllocateStatus fmt metadata e) crd_LoadBalancerAllocateStatus"
    using time(2) pa(2) set_time
    by (cases "las_LastUpdated e")
      (auto simp: marshal_LoadBalancerAllocateStatus_def crd_LoadBalancerAllocateStatus_def omit_defs omitempty_def
        pointer_omitempty_def)
  show "decode_LoadBalancerAllocateStatus parse (prune crd_LoadBalancerAllocateStatus
      (marshal_LoadBalancerAllocateStatus fmt metadata e)) = Some (stored_entry e)"
    using pa(1) i32.slice_read_back [of "las_PrewarmedPorts e"] set_time
    by (cases "las_LastUpdated e")
      (simp_all add: wire marshal_LoadBalancerAllocateStatus_def crd_LoadBalancerAllocateStatus_def
        decode_LoadBalancerAllocateStatus_def decode_struct_def set_LoadBalancerAllocateStatus_def omit_defs
        pointer_omitempty_def time(1,4) stored_entry_def)
  show "prune crd_LoadBalancerAllocateStatus (marshal_LoadBalancerAllocateStatus fmt metadata e) \<noteq> JNull"
    by (simp add: wire marshal_LoadBalancerAllocateStatus_def crd_LoadBalancerAllocateStatus_def)
qed

definition marshal_ApolloNetworkPoolStatus ::
  "(time \<Rightarrow> string) \<Rightarrow> (object_meta \<Rightarrow> (string \<times> json) list) \<Rightarrow> ApolloNetworkPoolStatus \<Rightarrow> json" where
  "marshal_ApolloNetworkPoolStatus fmt metadata s =
     JObj (map_omitempty ''allocations'' (marshal_LoadBalancerAllocateStatus fmt metadata) (status_map s) @
       omitempty (\<not> nps_IsSynced s) ''isSynced'' (JBool (nps_IsSynced s)))"

definition crd_ApolloNetworkPoolStatus :: schema where
  "crd_ApolloNetworkPoolStatus =
     SObject [(''allocations'', SMap crd_LoadBalancerAllocateStatus), (''isSynced'', SBool)] []"

definition set_ApolloNetworkPoolStatus ::
  "(string \<Rightarrow> time option) \<Rightarrow> string \<Rightarrow> json \<Rightarrow> ApolloNetworkPoolStatus \<Rightarrow> ApolloNetworkPoolStatus option" where
  "set_ApolloNetworkPoolStatus parse k j r =
     (if k = ''allocations'' then
        into (decode_map (decode_LoadBalancerAllocateStatus parse)) (\<lambda>x r. r\<lparr>nps_Allocations := Some x\<rparr>) j r
      else if k = ''isSynced'' then into decode_bool (\<lambda>x r. r\<lparr>nps_IsSynced := x\<rparr>) j r
      else Some r)"

definition decode_ApolloNetworkPoolStatus :: "(string \<Rightarrow> time option) \<Rightarrow> json \<Rightarrow> ApolloNetworkPoolStatus option" where
  "decode_ApolloNetworkPoolStatus parse = decode_struct (set_ApolloNetworkPoolStatus parse)
     \<lparr>nps_Allocations = None, nps_IsSynced = False\<rparr>"

definition admitted :: "ApolloNetworkPoolStatus \<Rightarrow> bool" where
  "admitted s \<longleftrightarrow> list_all (\<lambda>e. admitted_entry (snd e)) (status_map s)"

lemma ApolloNetworkPoolStatus_form:
  assumes "times_read_back fmt parse"
  shows "stored_form (marshal_ApolloNetworkPoolStatus fmt metadata) crd_ApolloNetworkPoolStatus
    (decode_ApolloNetworkPoolStatus parse) stored_status admitted"
proof
  fix s :: ApolloNetworkPoolStatus
  assume "admitted s"
  then have ok: "list_all (\<lambda>e. admitted_entry (snd e)) (status_map s)" by (simp add: admitted_def)
  note entries = stored_form.map_read_back [OF LoadBalancerAllocateStatus_form [OF assms] ok, of metadata]
    stored_form.map_fits [OF LoadBalancerAllocateStatus_form [OF assms] ok, of metadata]
  show "meets (marshal_ApolloNetworkPoolStatus fmt metadata s) crd_ApolloNetworkPoolStatus"
    using entries(2) by (auto simp: marshal_ApolloNetworkPoolStatus_def crd_ApolloNetworkPoolStatus_def omit_defs omitempty_def)
  show "decode_ApolloNetworkPoolStatus parse (prune crd_ApolloNetworkPoolStatus (marshal_ApolloNetworkPoolStatus fmt metadata s)) =
      Some (stored_status s)"
    using entries(1)
    by (simp add: wire marshal_ApolloNetworkPoolStatus_def crd_ApolloNetworkPoolStatus_def decode_ApolloNetworkPoolStatus_def
        decode_struct_def set_ApolloNetworkPoolStatus_def omit_defs stored_status_def)
  show "prune crd_ApolloNetworkPoolStatus (marshal_ApolloNetworkPoolStatus fmt metadata s) \<noteq> JNull"
    by (simp add: wire marshal_ApolloNetworkPoolStatus_def crd_ApolloNetworkPoolStatus_def)
qed

section \<open>The spec of a pool\<close>

definition marshal_PortRange :: "PortRange \<Rightarrow> json" where
  "marshal_PortRange r =
     JObj ([(''min'', marshal_int32 (pr_Min r)), (''max'', marshal_int32 (pr_Max r))] @
       slice_omitempty ''excludedPorts'' marshal_int32 (pr_ExcludedPorts r))"

definition crd_PortRange :: schema where
  "crd_PortRange =
     SObject [(''excludedPorts'', SArray SInt32), (''max'', SInt32), (''min'', SInt32)] [''max'', ''min'']"

definition set_PortRange :: "string \<Rightarrow> json \<Rightarrow> PortRange \<Rightarrow> PortRange option" where
  "set_PortRange k j r =
     (if k = ''min'' then int32_into (\<lambda>x r. r\<lparr>pr_Min := x\<rparr>) j r
      else if k = ''max'' then int32_into (\<lambda>x r. r\<lparr>pr_Max := x\<rparr>) j r
      else if k = ''excludedPorts'' then
        into (decode_slice (\<lambda>j. decode_int32 j 0)) (\<lambda>x r. r\<lparr>pr_ExcludedPorts := x\<rparr>) j r
      else Some r)"

definition decode_PortRange :: "json \<Rightarrow> PortRange option" where
  "decode_PortRange = decode_struct set_PortRange \<lparr>pr_Min = 0, pr_Max = 0, pr_ExcludedPorts = []\<rparr>"

interpretation pra: stored_form marshal_PortRange crd_PortRange decode_PortRange "\<lambda>r. r" "\<lambda>r. True"
proof
  fix r :: PortRange
  show "meets (marshal_PortRange r) crd_PortRange"
    by (simp add: marshal_PortRange_def crd_PortRange_def omit_defs omitempty_def)
  show "decode_PortRange (prune crd_PortRange (marshal_PortRange r)) = Some r"
    using i32.slice_read_back [of "pr_ExcludedPorts r"]
    by (simp add: wire marshal_PortRange_def crd_PortRange_def decode_PortRange_def decode_struct_def set_PortRange_def omit_defs)
  show "prune crd_PortRange (marshal_PortRange r) \<noteq> JNull" by (simp add: wire marshal_PortRange_def crd_PortRange_def)
qed

definition marshal_PrewarmConfig :: "PrewarmConfig \<Rightarrow> json" where
  "marshal_PrewarmConfig w =
     JObj ([(''enabled'', JBool (pw_Enabled w))] @ int32_omitempty ''bufferSize'' (pw_BufferSize w))"

definition crd_PrewarmConfig :: schema where
  "crd_PrewarmConfig = SObject [(''bufferSize'', SInt32), (''enabled'', SBool)] [''enabled'']"

definition set_PrewarmConfig :: "string \<Rightarrow> json \<Rightarrow> PrewarmConfig \<Rightarrow> PrewarmConfig option" where
  "set_PrewarmConfig k j r =
     (if k = ''enabled'' then into decode_bool (\<lambda>x r. r\<lparr>pw_Enabled := x\<rparr>) j r
      else if k = ''bufferSize'' then int32_into (\<lambda>x r. r\<lparr>pw_BufferSize := x\<rparr>) j r
      else Some r)"

definition decode_PrewarmConfig :: "json \<Rightarrow> PrewarmConfig option" where
  "decode_PrewarmConfig = decode_struct set_PrewarmConfig \<lparr>pw_Enabled = False, pw_BufferSize = 0\<rparr>"

interpretation pwc: stored_form marshal_PrewarmConfig crd_PrewarmConfig decode_PrewarmConfig "\<lambda>w. w" "\<lambda>w. True"
proof
  fix w :: PrewarmConfig
  show "meets (marshal_PrewarmConfig w) crd_PrewarmConfig"
    by (simp add: marshal_PrewarmConfig_def crd_PrewarmConfig_def omit_defs omitempty_def)
  show "decode_PrewarmConfig (prune crd_PrewarmConfig (marshal_PrewarmConfig w)) = Some w"
    by (simp add: wire marshal_PrewarmConfig_def crd_PrewarmConfig_def decode_PrewarmConfig_def decode_struct_def
        set_PrewarmConfig_def omit_defs)
  show "prune crd_PrewarmConfig (marshal_PrewarmConfig w) \<noteq> JNull"
    by (simp add: wire marshal_PrewarmConfig_def crd_PrewarmConfig_def)
qed

text \<open>The selector is a type of k8s.io/apimachinery; a requirement is its key, operator and values.\<close>

definition marshal_requirement :: "string \<times> string \<times> string list \<Rightarrow> json" where
  "marshal_requirement = (\<lambda>(key, operator, values).
     JObj ([(''key'', JStr key), (''operator'', JStr operator)] @ slice_omitempty ''values'' JStr values))"

definition crd_requirement :: schema where
  "crd_requirement =
     SObject [(''key'', SString), (''operator'', SString), (''values'', SArray SString)] [''key'', ''operator'']"

definition set_requirement ::
  "string \<Rightarrow> json \<Rightarrow> string \<times> string \<times> string list \<Rightarrow> (string \<times> string \<times> string list) option" where
  "set_requirement k j r =
     (if k = ''key'' then string_into (\<lambda>x (_, p, vs). (x, p, vs)) j r
      else if k = ''operator'' then string_into (\<lambda>x (key, _, vs). (key, x, vs)) j r
      else if k = ''values'' then into (decode_slice (\<lambda>j. decode_string j '''')) (\<lambda>x (key, p, _). (key, p, x)) j r
      else Some r)"

definition decode_requirement :: "json \<Rightarrow> (string \<times> string \<times> string list) option" where
  "decode_requirement = decode_struct set_requirement ('''', '''', [])"

interpretation req: stored_form marshal_requirement crd_requirement decode_requirement "\<lambda>q. q" "\<lambda>q. True"
proof
  fix q :: "string \<times> string \<times> string list"
  obtain key op vs where q: "q = (key, op, vs)" by (metis surj_pair)
  show "meets (marshal_requirement q) crd_requirement"
    by (simp add: q marshal_requirement_def crd_requirement_def omit_defs omitempty_def)
  show "decode_requirement (prune crd_requirement (marshal_requirement q)) = Some q"
    using str.slice_read_back [of vs]
    by (simp add: wire q marshal_requirement_def crd_requirement_def decode_requirement_def decode_struct_def
        set_requirement_def omit_defs)
  show "prune crd_requirement (marshal_requirement q) \<noteq> JNull"
    by (simp add: wire q marshal_requirement_def crd_requirement_def)
qed

definition marshal_label_selector :: "label_selector \<Rightarrow> json" where
  "marshal_label_selector l =
     JObj (map_omitempty ''matchLabels'' JStr (ls_MatchLabels l) @
       slice_omitempty ''matchExpressions'' marshal_requirement (ls_MatchExpressions l))"

definition crd_label_selector :: schema where
  "crd_label_selector = SObject [(''matchExpressions'', SArray crd_requirement), (''matchLabels'', SMap SString)] []"

definition set_label_selector :: "string \<Rightarrow> json \<Rightarrow> label_selector \<Rightarrow> label_selector option" where
  "set_label_selector k j r =
     (if k = ''matchLabels'' then into (decode_map (\<lambda>j. decode_string j '''')) (\<lambda>x r. r\<lparr>ls_MatchLabels := x\<rparr>) j r
      else if k = ''matchExpressions'' then into (decode_slice decode_requirement) (\<lambda>x r. r\<lparr>ls_MatchExpressions := x\<rparr>) j r
      else Some r)"

definition decode_label_selector :: "json \<Rightarrow> label_selector option" where
  "decode_label_selector = decode_struct set_label_selector \<lparr>ls_MatchLabels = [], ls_MatchExpressions = []\<rparr>"

interpretation lse: stored_form marshal_label_selector crd_label_selector decode_label_selector "\<lambda>l. l" "\<lambda>l. True"
proof
  fix l :: label_selector
  show "meets (marshal_label_selector l) crd_label_selector"
    using str.map_fits req.slice_fits
    by (auto simp: marshal_label_selector_def crd_label_selector_def omit_defs omitempty_def)
  show "decode_label_selector (prune crd_label_selector (marshal_label_selector l)) = Some l"
    using str.map_read_back [of "ls_MatchLabels l"] req.slice_read_back [of "ls_MatchExpressions l"]
    by (simp add: wire marshal_label_selector_def crd_label_selector_def decode_label_selector_def decode_struct_def
        set_label_selector_def omit_defs)
  show "prune crd_label_selector (marshal_label_selector l) \<noteq> JNull"
    by (simp add: wire marshal_label_selector_def crd_label_selector_def)
qed

text \<open>
  The load balancers have no omitempty, so a nil slice of them is null; the omitempty of the
  prewarm configuration has no effect, because it is a struct.
\<close>

definition marshal_ApolloNetworkPoolSpec :: "ApolloNetworkPoolSpec \<Rightarrow> LoadBalancerRef list option \<Rightarrow> json" where
  "marshal_ApolloNetworkPoolSpec p lbs =
     JObj ([(''loadBalancers'', case lbs of None \<Rightarrow> JNull | Some lbs \<Rightarrow> JArr (map marshal_LoadBalancerRef lbs)),
        (''ispLineType'', JStr (ps_ISPLineType p)), (''portRange'', marshal_PortRange (ps_PortRange p)),
        (''prewarmConfig'', marshal_PrewarmConfig (ps_PrewarmConfig p))] @
       pointer_omitempty ''podSelector'' marshal_label_selector (ps_PodSelector p))"

definition crd_ApolloNetworkPoolSpec :: schema where
  "crd_ApolloNetworkPoolSpec =
     SObject [(''ispLineType'', SString), (''loadBalancers'', SArray crd_LoadBalancerRef),
        (''podSelector'', crd_label_selector), (''portRange'', crd_PortRange), (''prewarmConfig'', crd_PrewarmConfig)]
       [''ispLineType'', ''loadBalancers'', ''portRange'']"

definition set_ApolloNetworkPoolSpec :: "string \<Rightarrow> json \<Rightarrow> ApolloNetworkPoolSpec \<Rightarrow> ApolloNetworkPoolSpec option" where
  "set_ApolloNetworkPoolSpec k j r =
     (if k = ''loadBalancers'' then into (decode_slice decode_LoadBalancerRef) (\<lambda>x r. r\<lparr>ps_LoadBalancers := x\<rparr>) j r
      else if k = ''ispLineType'' then string_into (\<lambda>x r. r\<lparr>ps_ISPLineType := x\<rparr>) j r
      else if k = ''portRange'' then into decode_PortRange (\<lambda>x r. r\<lparr>ps_PortRange := x\<rparr>) j r
      else if k = ''prewarmConfig'' then into decode_PrewarmConfig (\<lambda>x r. r\<lparr>ps_PrewarmConfig := x\<rparr>) j r
      else if k = ''podSelector'' then
        into (decode_pointer decode_label_selector) (\<lambda>x r. r\<lparr>ps_PodSelector := x\<rparr>) j r
      else Some r)"

definition decode_ApolloNetworkPoolSpec :: "json \<Rightarrow> ApolloNetworkPoolSpec option" where
  "decode_ApolloNetworkPoolSpec = decode_struct set_ApolloNetworkPoolSpec
     \<lparr>ps_LoadBalancers = [], ps_ISPLineType = '''', ps_PortRange = \<lparr>pr_Min = 0, pr_Max = 0, pr_ExcludedPorts = []\<rparr>,
      ps_PrewarmConfig = \<lparr>pw_Enabled = False, pw_BufferSize = 0\<rparr>, ps_PodSelector = None\<rparr>"

lemma ApolloNetworkPoolSpec_fits:
  "meets (marshal_ApolloNetworkPoolSpec p lbs) crd_ApolloNetworkPoolSpec \<longleftrightarrow> lbs \<noteq> None"
  using lbr.slice_fits pra.fits pwc.fits lse.fits pra.enc_present
  by (cases lbs; cases "ps_PodSelector p")
    (simp_all add: marshal_ApolloNetworkPoolSpec_def crd_ApolloNetworkPoolSpec_def pointer_omitempty_def)

lemma ApolloNetworkPoolSpec_read_back:
  "decode_ApolloNetworkPoolSpec (prune crd_ApolloNetworkPoolSpec
     (marshal_ApolloNetworkPoolSpec p (Some (ps_LoadBalancers p)))) = Some p"
  using lbr.slice_read_back [of "ps_LoadBalancers p"]
  by (cases "ps_PodSelector p")
    (simp_all add: wire marshal_ApolloNetworkPoolSpec_def crd_ApolloNetworkPoolSpec_def decode_ApolloNetworkPoolSpec_def
      decode_struct_def set_ApolloNetworkPoolSpec_def pra.read_back pwc.read_back lse.pointer_read_back pointer_omitempty_def)

section \<open>What is stored of a pool\<close>

text \<open>The status that \<open>status_attempt\<close> writes.\<close>

abbreviation written_status :: "ApolloNetworkPool \<Rightarrow> PortAllocation list \<Rightarrow> time \<Rightarrow> ApolloNetworkPoolStatus" where
  "written_status pool items now \<equiv> \<lparr>nps_Allocations = Some (status_entries pool items now), nps_IsSynced = True\<rparr>"

lemma list_all_fold_put:
  "list_all (\<lambda>e. P (snd e)) m \<Longrightarrow> (\<And>x. P (g x)) \<Longrightarrow> list_all (\<lambda>e. P (snd e)) (fold (\<lambda>x m. gm_put (k x) (g x) m) xs m)"
proof (induction xs arbitrary: m)
  case (Cons x xs)
  have put: "list_all (\<lambda>e. P (snd e)) m \<Longrightarrow> P v \<Longrightarrow> list_all (\<lambda>e. P (snd e)) (gm_put j v m)" for j v m
    by (induction m) auto
  show ?case
    using Cons.IH [OF put [OF Cons.prems(1) Cons.prems(2)] Cons.prems(2)] by simp
qed simp

lemma written_status_admitted:
  assumes "admitted (np_Status pool)" and "list_all (\<lambda>a. admitted_status (pa_Status a)) items" and "in_calendar now"
  shows "admitted (written_status pool items now)"
proof -
  have "admitted_entry ((calculateLBStatus pool lb items)\<lparr>las_LastUpdated := Some now, las_IsSynced := True\<rparr>)" for lb
    using assms(2,3) by (auto simp: admitted_entry_def calculateLBStatus_counts list_all_iff)
  with assms(1) show ?thesis
    unfolding admitted_def status_map_Some status_entries_def
    by (intro list_all_fold_put) (simp_all add: status_map_def)
qed

text \<open>
  C7. What is stored of a pool. The spec meets the schema of the custom resource and is read
  back unchanged, provided the slice of load balancers is not nil. The status that a
  reconcile writes meets the schema as well, with its formats, lengths, patterns and
  enumerations, when the listed allocations and the previous status hold what the server lets
  in: times that are set and lie in the calendar, and conditions as the schema wants them
  (the resource of allocations has the same schema for them, so the allocations that a list
  returns do). But the allocations it lists come back without their metadata, because the
  schema of the embedded metadata has no properties: no name, no labels, and so no pool and no
  pod to look them up by. The numbers, the specs and the statuses are kept.
\<close>

theorem pool_representation:
  assumes "times_read_back fmt parse"
    and "admitted (np_Status pool)" and "list_all (\<lambda>a. admitted_status (pa_Status a)) items" and "in_calendar now"
  shows "(meets (marshal_ApolloNetworkPoolSpec spec lbs) crd_ApolloNetworkPoolSpec \<longleftrightarrow> lbs \<noteq> None) \<and>
    decode_ApolloNetworkPoolSpec (prune crd_ApolloNetworkPoolSpec
      (marshal_ApolloNetworkPoolSpec spec (Some (ps_LoadBalancers spec)))) = Some spec \<and>
    meets (marshal_ApolloNetworkPoolStatus fmt metadata (written_status pool items now)) crd_ApolloNetworkPoolStatus \<and>
    (\<exists>st. decode_ApolloNetworkPoolStatus parse (prune crd_ApolloNetworkPoolStatus
        (marshal_ApolloNetworkPoolStatus fmt metadata (written_status pool items now))) = Some st \<and>
      st = stored_status (written_status pool items now) \<and>
      (\<forall>(lid, e)\<in>set (status_map st). \<forall>a\<in>set (las_AllocatedPorts e).
        om_Name (pa_ObjectMeta a) = '''' \<and> alloc_label a k = ''''))"
proof -
  note form = ApolloNetworkPoolStatus_form [OF assms(1)] written_status_admitted [OF assms(2-4)]
  have "\<forall>(lid, e)\<in>set (status_map (stored_status st)). \<forall>a\<in>set (las_AllocatedPorts e).
      om_Name (pa_ObjectMeta a) = '''' \<and> alloc_label a k = ''''" for st
    by (auto simp: stored_status_def status_map_def nameless_def zero_object_meta_def label_of_def gm_get_def split: option.splits if_splits)
  then show ?thesis
    using stored_form.fits [OF form] stored_form.read_back [OF form] ApolloNetworkPoolSpec_fits
      ApolloNetworkPoolSpec_read_back by blast
qed

text \<open>A text for times: a date, with the number of seconds as the fraction of a second.\<close>

definition text_of_time :: "time \<Rightarrow> string" where
  "text_of_time t = ''0001-01-01T00:00:00.'' @ show_nat (nat t) @ ''Z''"

definition time_of_text :: "string \<Rightarrow> time option" where
  "time_of_text s = Some (int (digits_value (butlast (drop 20 s))))"

lemma text_read_back: "times_read_back text_of_time time_of_text"
proof -
  have "has_form date_time (text_of_time t)" for t
  proof -
    let ?ds = "show_nat (nat t)"
    obtain c cs where ds: "?ds = c # cs" "list_all is_digit (c # cs)" using show_nat_digits [of "nat t"] by (cases ?ds) auto
    have "denotes (optional (in_sequence [one_char (CHR ''.''), digit, Many digit])) (CHR ''.'' # c # cs @ '''')"
      unfolding optional_def
      by (intro denotes.right) (use ds(2) denotes_digits [of cs] in
          \<open>auto simp: denotes_Sequel_simps is_digit_def code_def intro: denotes.sequel denotes.blank\<close>)
    moreover have "denotes (in_sequence [Either (Within [(CHR ''Z'', CHR ''Z''), (CHR ''z'', CHR ''z'')]) p]) ''Z''" for p
      using denotes.sequel [OF denotes.left denotes.blank] by (fastforce simp: denotes_simps)
    ultimately show ?thesis
      unfolding has_form_denotes text_of_time_def date_time_def ds(1)
      using denotes.sequel [of "optional p" "CHR ''.'' # c # cs" for p]
      by (simp add: denotes_Sequel_simps code_def)
  qed
  moreover have "butlast (drop 20 (text_of_time t)) = show_nat (nat t)" for t by (simp add: text_of_time_def butlast_append)
  ultimately show ?thesis
    by (simp add: times_read_back_def time_of_text_def show_nat_value in_calendar_def)
qed

definition bound_status :: PortAllocationStatus where
  "bound_status = zero_status
     \<lparr>st_Phase := AllocationPhaseBound, st_BoundAt := Some 63835999000,
      st_Conditions := [\<lparr>cd_Type = ''apollo.io/Bound'', cd_Status = ''True'', cd_ObservedGeneration = 1,
        cd_LastTransitionTime = 63835999000, cd_Reason = ''PortsBound'', cd_Message = ''''\<rparr>]\<rparr>"

lemma bound_status_admitted: "admitted_status bound_status"
proof -
  have "has_form type_form ''apollo.io/Bound''" "has_form reason_form ''PortsBound''" by code_simp+
  then show ?thesis
    by (simp add: admitted_status_def admitted_condition_def bound_status_def zero_status_def in_calendar_def
        rune_count_def code_def)
qed

theorem pool_representation_witness:
  "let pool = sample_pool ''p'' [''lb-1''] 30000 30002 [];
       items = [(sample_alloc ''p'' ''a'' ''ns'' [(''lb-1'', 30000)])\<lparr>pa_Status := bound_status\<rparr>];
       metadata = (\<lambda>m. [(''name'', JStr (om_Name m))])
   in \<exists>st. decode_ApolloNetworkPoolStatus time_of_text (prune crd_ApolloNetworkPoolStatus
        (marshal_ApolloNetworkPoolStatus text_of_time metadata (written_status pool items 63836000000))) = Some st \<and>
      map (\<lambda>(lid, e). (lid, map (\<lambda>a. om_Name (pa_ObjectMeta a)) (las_AllocatedPorts e))) (status_map st) = [(''lb-1'', [''''])]"
proof -
  let ?pool = "sample_pool ''p'' [''lb-1''] 30000 30002 []"
  let ?items = "[(sample_alloc ''p'' ''a'' ''ns'' [(''lb-1'', 30000)])\<lparr>pa_Status := bound_status\<rparr>]"
  have "admitted (np_Status ?pool)" "list_all (\<lambda>a. admitted_status (pa_Status a)) ?items" "in_calendar 63836000000"
    by (simp_all add: bound_status_admitted admitted_def status_map_def sample_defs in_calendar_def)
  from pool_representation [OF text_read_back this]
  obtain st where st: "decode_ApolloNetworkPoolStatus time_of_text (prune crd_ApolloNetworkPoolStatus
        (marshal_ApolloNetworkPoolStatus text_of_time (\<lambda>m. [(''name'', JStr (om_Name m))])
          (written_status ?pool ?items 63836000000))) = Some st"
      "st = stored_status (written_status ?pool ?items 63836000000)" by blast
  have "status_entries ?pool ?items now =
      [(''lb-1'', (calculateLBStatus ?pool (sample_lb ''lb-1'') ?items)\<lparr>las_LastUpdated := Some now, las_IsSynced := True\<rparr>)]" for now
    by (simp add: status_entries_def sample_pool_def)
  moreover have "las_AllocatedPorts (calculateLBStatus ?pool (sample_lb ''lb-1'') ?items) = ?items"
    by (simp add: calculateLBStatus_counts sample_alloc_def sample_binding_def sample_lb_def)
  ultimately have names: "map (\<lambda>(lid, e). (lid, map (\<lambda>a. om_Name (pa_ObjectMeta a)) (las_AllocatedPorts e)))
      (status_map (stored_status (written_status ?pool ?items 63836000000))) = [(''lb-1'', [''''])]"
    by (simp add: stored_status_def status_map_def nameless_def stored_entry_def zero_object_meta_def)
  show ?thesis
    unfolding Let_def by (intro exI [of _ st] conjI st(1)) (simp only: st(2) names)
qed

end
