(* ===== verification/Spec2Isabelle.thy ===== *)
theory Spec2Isabelle
  imports PoolReconciler PodTransform PodLifecycle PodOrphan Workers StaleCache Startup PoolSteps ControlLoop DeepCopy
    Schema Wire StoredStatus
begin

text \<open>
  A model of the Apollo network controller (Go, module apollo-network-controller) and the
  theorems that make it correct.

  \<^bold>\<open>The program.\<close> Pods that carry two annotations get ports on cloud load balancers. An
  ApolloNetworkPool names load balancers and a range of ports; a PortAllocation records
  which ports of a pool a pod holds. Both are custom resources (api/v1). The allocator
  (pkg/allocator) makes and deletes PortAllocations under one mutex per pool. The pod
  reconciler (internal/controller/pod\_controller.go) calls it for pods that come and go and
  keeps a finalizer on the pods it serves; the pool reconciler
  (internal/controller/apollonetworkpool\_controller.go) reports the use of each pool in its
  status. cmd/main.go starts both.

  \<^bold>\<open>Theories and code.\<close>

  \<^item> Prelude: Go's integers as words, maps as association lists, calls that return, panic
    or block. GoStrings and GoJson: the functions of the standard library's strings and
    encoding/json that are used (a tokenizer, the grammar as a stack machine with the
    library's nesting limit of 10000, decoding with Go's rules for null and for field names).
  \<^item> ApiTypes: the structs and constants of api/v1 and pkg/allocator/label\_anno.go, one
    record per struct. SampleData: data for the witnesses.
  \<^item> AllocationList: the methods of PortAllocationList (port\_allocation\_types.go).
  \<^item> KubeClient: the Kubernetes client and the retry on conflict as parameters, and what
    their documentation promises as predicates (\<open>consistent_client\<close>, \<open>retries_on_conflict\<close>,
    \<open>never_fails\<close>: no read fails, \<open>creates_in\<close>: the namespaces in which a free name can be
    created). MemClient: an in-memory client that has all of it.
  \<^item> PortSearch: getLBPortUsage, hasAvailablePorts, findAvailablePorts (allocate.go).
    LbSelect: the strategies and SelectLoadBalancer (lb.go) over the allocator's state.
  \<^item> Ledger: the specification of the allocator, who holds which slots in which pool, with
    its invariant and the operations \<open>reserve\<close> and \<open>free\<close>.
  \<^item> Allocator and AllocatorSafety: AllocatePort and all it calls (core.go, allocate.go).
    Release: ReleasePort (release.go) and histories of calls.
  \<^item> Workers: both calls cut at each API call and lock operation, and interleaved.
  \<^item> Manager: requests, results and finalizers of controller-runtime. PoolReconciler: the
    pool reconciler. PoolSteps: its reconcile cut at the calls of the server. PodParse: the
    annotations of a pod. PodReconciler: the pod reconciler. PodLifecycle: its reconciles over
    the life of a pod. PodOrphan: allocations whose pod is gone. PodTransform: the cache
    transform.
  \<^item> Startup: cmd/main.go (flags, paths, TLS options, the sequence of calls) and the
    registration of the controllers.
  \<^item> StaleCache: the client of the manager, which reads from a cache and writes to the server.
    ControlLoop: the pool controller with its work queue and its worker, behind such a cache,
    in a cluster that anybody changes between any two steps.
  \<^item> Patterns: the regular expressions of the schemas, what they denote and an executable
    matcher that is proved to decide it.
  \<^item> Schema: what a schema of a custom resource accepts and keeps, and the parts of
    encoding/json that writing and reading the API types need. Wire: the JSON of an allocation,
    the schema of its resource, the status subresource and histories on a server that has it. StoredStatus: the JSON of the spec and
    the status of a pool, the schema of its resource, and what is read back.
  \<^item> Memory and DeepCopy: structs as they lie in memory, with slices, maps and pointers as
    references, and the generated deep copies (zz\_generated.deepcopy.go) over them. All other
    theories use values without sharing; DeepCopy shows what justifies that.

  The state of the allocator is a record (strategy, round-robin cursors, mutexes by key);
  the API server is an abstract world \<open>'s\<close> that client calls pass through, observed through
  a function \<open>view\<close> to the stored objects. A function that returns an error gives a sum, with
  one constructor of \<open>error\<close> per error the code builds. Logging is left out.

  \<^bold>\<open>What the theorems show.\<close> The port search returns the first free ports of the range and
  wraps around only at the largest int32; a load balancer is selected exactly when one can
  serve the request, fairly or by least use. AllocatePort and ReleasePort refine the ledger
  on every branch, answer each error as written, and keep slots exclusive over any history;
  Workers extends this to any interleaving of any number of calls that pass the same
  namespace, shows that there is no deadlock and that all calls end (at most 32 steps each:
  five attempts of six steps, entering and leaving), and that a call run alone is the call as
  a whole. When a pod is new and a load balancer has room, AllocatePort succeeds exactly when
  the server creates in the namespace of the pool. All of this is for a client whose reads are current (\<open>consistent_client\<close>). The
  reconciler always returns, covers the pods it reports success for, leaves
  settled pods alone and over a pod's life gives back what it took; it does the same on
  the transformed pods of the cache. main makes its calls in the planned order, ends at the
  first failure, and gives each server its own certificate as long as append leaves no room.
  Deep copies share no memory with their originals, so that the pool reconciler may write
  its status in place. The pool controller loses no change although it reads from a cache and
  is interrupted at every step: at any time every pool has a request pending or in work, a
  change that is still to be announced, or a status that is current; and the status counts
  what the allocator counts, less the prewarm buffer. A reconcile that nothing interrupts ends after at most twelve
  steps and is the reconcile as a whole. What is sent to the server meets the schemas, and
  specs are read back unchanged.

  Some theorems record defects: the empty namespace of new allocations, colliding names, a load balancer shared by pools, the nil
  Allocator of cmd/main.go, callers that pass different namespaces, slots given out twice by
  an allocator that reads from the manager's cache, allocations that outlive their pod because
  the finalizer is added after them, reconciles that request each other, the phase of new
  allocations and the names of listed allocations that the server drops, the TLS options of
  the two servers that may come to share an array.

  \<^bold>\<open>Interfaces as locales.\<close> \<open>allocation_query\<close> (the selecting queries), \<open>port_capacity\<close>
  (PortSearch to LbSelect), \<open>lb_selector\<close> and \<open>lb_port_selection\<close> (LbSelect to Allocator),
  \<open>pool_operation\<close> (AllocatePort and ReleasePort to their callers), \<open>deep_copyable\<close> and
  \<open>injected\<close> (the parts of a struct to its copy), \<open>stored_form\<close> (the JSON of a type to the types
  it is part of), each interpreted on the model's definitions in the theory that provides them.

  \<^bold>\<open>Bounds.\<close> No fuel: \<open>search_loop\<close> is a partial function, where \<open>None\<close> is a loop that does not
  end, and it is shown to end when the range stays below the largest int32
  (\<open>pools_bounded\<close>). All other recursion is structural or has a measure.

  \<^bold>\<open>Not modelled.\<close> The parsing of the command line and the logger, what controller-runtime
  does with its options (whether a call of main fails is a parameter; Workers takes any
  number of workers), manifests other than the two schemas, and tests. ControlLoop has the one
  worker that controller-runtime gives a controller by default; a reconcile of a pod is not
  cut into steps, only the calls of the allocator in it are (Workers). The pod's fields the
  code neither reads nor keeps are represented by a few samples, and the metadata of objects
  is not taken apart in DeepCopy, Wire and StoredStatus. The code makes no conditions of its own,
  but the status of a pool carries the listed allocations with theirs, so their schema is
  modelled in full. Times are whole seconds, and 0 is the zero time, whose JSON is null. A member
  that is null counts as absent (the server drops it), so null is refused for required members
  and elements only.
\<close>

end
